(* ===== verification/Prelude.thy ===== *)
theory Prelude
  imports Main "HOL-Library.Word"
begin

text \<open>
  The vocabulary every component of the dashboard model shares.

  A JavaScript string is a sequence of 16-bit code units, so \<open>jstr\<close> is a list of
  \<open>16 word\<close>; \<open>js\<close> embeds an ASCII literal. The string methods the sources call
  (\<open>trim\<close>, \<open>indexOf\<close>, \<open>slice\<close>, \<open>startsWith\<close>, \<open>endsWith\<close>, \<open>join\<close>, \<open>includes\<close>,
  the code point iteration of \<open>for (const ch of s)\<close> and \<open>Array.from\<close>) are defined
  here once, with the laws the components use. Numbers: a length, a count or a
  server integer is a \<open>nat\<close> or an \<open>int\<close>, printed in decimal by \<open>showNat\<close> and
  \<open>showInt\<close>.

  A set compared as a list (\<open>sameSet\<close>, \<open>sameMembers\<close>, \<open>sameFilter\<close>) is an
  instance of the locale \<open>comparison\<close>: a boolean test that agrees with equality of
  meanings.
\<close>

named_theorems js_eval \<open>equations that evaluate the string operations on literals\<close>
named_theorems verdict_simps \<open>unfolding rules of the small verdict functions\<close>

section \<open>Strings\<close>

type_synonym jchar = "16 word"
type_synonym jstr = "jchar list"

definition js :: "string \<Rightarrow> jstr" where
  "js s = map of_char s"

text \<open>\<open>a || b\<close> on two strings: the empty string is the falsy one.\<close>

definition orStr :: "jstr \<Rightarrow> jstr \<Rightarrow> jstr" where
  "orStr a b = (if a = [] then b else a)"

text \<open>\<open>x ?? d\<close>.\<close>

definition orElse :: "'a option \<Rightarrow> 'a \<Rightarrow> 'a" where
  "orElse x d = (case x of None \<Rightarrow> d | Some v \<Rightarrow> v)"

text \<open>ECMAScript \<open>WhiteSpace\<close> and \<open>LineTerminator\<close>, the units \<open>trim\<close> removes and
  \<open>\s\<close> matches.\<close>

definition isWhite :: "jchar \<Rightarrow> bool" where
  "isWhite c \<longleftrightarrow> (0x09 \<le> c \<and> c \<le> 0x0d) \<or> c = 0x20 \<or> c = 0xa0 \<or> c = 0x1680 \<or>
     (0x2000 \<le> c \<and> c \<le> 0x200a) \<or> c = 0x2028 \<or> c = 0x2029 \<or> c = 0x202f \<or> c = 0x205f \<or>
     c = 0x3000 \<or> c = 0xfeff"

definition isDigit :: "jchar \<Rightarrow> bool" where
  "isDigit c \<longleftrightarrow> 0x30 \<le> c \<and> c \<le> 0x39"

definition isLowerAZ :: "jchar \<Rightarrow> bool" where
  "isLowerAZ c \<longleftrightarrow> 0x61 \<le> c \<and> c \<le> 0x7a"

text \<open>The class \<open>[a-z0-9]\<close>.\<close>

definition isSlugAlnum :: "jchar \<Rightarrow> bool" where
  "isSlugAlnum c \<longleftrightarrow> isLowerAZ c \<or> isDigit c"

definition dropEndWhile :: "('a \<Rightarrow> bool) \<Rightarrow> 'a list \<Rightarrow> 'a list" where
  "dropEndWhile P xs = rev (dropWhile P (rev xs))"

definition trim :: "jstr \<Rightarrow> jstr" where
  "trim s = dropEndWhile isWhite (dropWhile isWhite s)"

definition startsWith :: "jstr \<Rightarrow> jstr \<Rightarrow> bool" where
  "startsWith s p \<longleftrightarrow> take (length p) s = p"

definition endsWith :: "jstr \<Rightarrow> jstr \<Rightarrow> bool" where
  "endsWith s p \<longleftrightarrow> startsWith (rev s) (rev p)"

fun findSub :: "nat \<Rightarrow> 'a list \<Rightarrow> 'a list \<Rightarrow> nat option" where
  "findSub i [] p = (if p = [] then Some i else None)"
| "findSub i (c # cs) p = (if take (length p) (c # cs) = p then Some i else findSub (Suc i) cs p)"

text \<open>\<open>indexOf\<close>: the first position, \<open>-1\<close> when there is none.\<close>

definition indexOf :: "jstr \<Rightarrow> jstr \<Rightarrow> int" where
  "indexOf s p = (case findSub 0 s p of None \<Rightarrow> -1 | Some i \<Rightarrow> int i)"

fun joinWith :: "jstr \<Rightarrow> jstr list \<Rightarrow> jstr" where
  "joinWith sep [] = []"
| "joinWith sep [x] = x"
| "joinWith sep (x # y # xs) = x @ sep @ joinWith sep (y # xs)"

text \<open>\<open>toLowerCase\<close>, unit by unit, on ASCII, Latin-1, U+0130 and the Kelvin sign; the two callers
  compare the result with ASCII text only, and the locale \<open>case_table\<close> below shows that any
  table which agrees on those units and keeps the rest of Unicode outside ASCII gives the
  callers the same answer.\<close>

definition lowerUnit :: "jchar \<Rightarrow> jstr" where
  "lowerUnit c =
     (if 0x41 \<le> c \<and> c \<le> 0x5a then [c + 32]
      else if 0xc0 \<le> c \<and> c \<le> 0xde \<and> c \<noteq> 0xd7 then [c + 32]
      else if c = 0x130 then [0x69, 0x307]
      else if c = 0x212a then [0x6b]
      else [c])"

definition toLowerCase :: "jstr \<Rightarrow> jstr" where
  "toLowerCase s = concat (map lowerUnit s)"

section \<open>Decimal numbers\<close>

definition digitChar :: "nat \<Rightarrow> jchar" where
  "digitChar d = of_nat (48 + d)"

fun showNat :: "nat \<Rightarrow> jstr" where
  "showNat n = (if n < 10 then [digitChar n] else showNat (n div 10) @ [digitChar (n mod 10)])"

declare showNat.simps [simp del]

definition showInt :: "int \<Rightarrow> jstr" where
  "showInt i = (if i < 0 then js ''-'' @ showNat (nat (- i)) else showNat (nat i))"

definition digitVal :: "jchar \<Rightarrow> nat" where
  "digitVal c = unat c - 48"

definition readNat :: "jstr \<Rightarrow> nat" where
  "readNat s = foldl (\<lambda>n c. 10 * n + digitVal c) 0 s"

section \<open>Code points\<close>

definition isHighSurrogate :: "jchar \<Rightarrow> bool" where
  "isHighSurrogate c \<longleftrightarrow> 0xd800 \<le> c \<and> c \<le> 0xdbff"

definition isLowSurrogate :: "jchar \<Rightarrow> bool" where
  "isLowSurrogate c \<longleftrightarrow> 0xdc00 \<le> c \<and> c \<le> 0xdfff"

text \<open>The pieces string iteration yields: a surrogate pair together, every other unit alone.\<close>

fun codePoints :: "jstr \<Rightarrow> jstr list" where
  "codePoints [] = []"
| "codePoints [c] = [[c]]"
| "codePoints (c # d # cs) =
     (if isHighSurrogate c \<and> isLowSurrogate d then [c, d] # codePoints cs
      else [c] # codePoints (d # cs))"

text \<open>\<open>codePointAt(0)\<close> of one piece.\<close>

fun codePointAt0 :: "jstr \<Rightarrow> nat" where
  "codePointAt0 [c, d] = 0x10000 + (unat c - 0xd800) * 0x400 + (unat d - 0xdc00)"
| "codePointAt0 (c # _) = unat c"
| "codePointAt0 [] = 0"

section \<open>Laws of the string operations\<close>

lemma js_Nil [simp, js_eval]: "js [] = []"
  by (simp add: js_def)

lemma js_Cons [js_eval]: "js (c # cs) = of_char c # js cs"
  by (simp add: js_def)

lemma js_append: "js (a @ b) = js a @ js b"
  by (simp add: js_def)

lemma js_eq_Nil [simp]: "js s = [] \<longleftrightarrow> s = []" "[] = js s \<longleftrightarrow> s = []"
  by (simp_all add: js_def)

lemma length_js [simp]: "length (js s) = length s"
  by (simp add: js_def)

lemma unat_of_char: "unat (of_char c :: jchar) = of_char c"
proof -
  have "(of_char c :: nat) < 256" by simp
  then have "(of_char c :: nat) < 2 ^ LENGTH(16)" by (rule less_trans) simp
  moreover have "(of_char c :: jchar) = of_nat (of_char c)" by (simp only: of_nat_of_char)
  ultimately show ?thesis by (metis mod_less unat_of_nat)
qed

lemma of_char_jchar_eq_iff [simp]: "(of_char c :: jchar) = of_char d \<longleftrightarrow> c = d"
  by (metis of_char_eq_iff unat_of_char)

lemma js_eq_iff [simp]: "js a = js b \<longleftrightarrow> a = b"
proof -
  have "inj (of_char :: char \<Rightarrow> jchar)" by (rule injI) simp
  then show ?thesis by (simp add: js_def inj_map_eq_map)
qed

lemma orStr_simps [simp]:
  "orStr [] b = b" "a \<noteq> [] \<Longrightarrow> orStr a b = a" "orStr a [] = a"
  by (simp_all add: orStr_def)

lemma orElse_simps [simp]: "orElse None d = d" "orElse (Some v) d = v"
  by (simp_all add: orElse_def)

lemma startsWith_append [simp]: "startsWith (p @ s) p"
  by (simp add: startsWith_def)

lemma startsWith_Nil [simp]: "startsWith s []"
  by (simp add: startsWith_def)

lemma startsWith_iff: "startsWith s p \<longleftrightarrow> (\<exists>t. s = p @ t)"
  by (metis append_eq_conv_conj append_take_drop_id startsWith_def)

lemma endsWith_iff: "endsWith s p \<longleftrightarrow> (\<exists>t. s = t @ p)"
proof -
  have "endsWith s p \<longleftrightarrow> (\<exists>t. rev s = rev p @ t)"
    by (simp add: endsWith_def startsWith_iff)
  also have "\<dots> \<longleftrightarrow> (\<exists>t. s = t @ p)"
    by (metis rev_append rev_rev_ident)
  finally show ?thesis .
qed

text \<open>\<open>findSub\<close> returns the least position at which the pattern occurs.\<close>

lemma findSub_ge: "findSub i s p = Some k \<Longrightarrow> i \<le> k"
  by (induction i s p rule: findSub.induct) (auto split: if_splits)

lemma findSub_Some:
  assumes "findSub i s p = Some k"
  shows "take (length p) (drop (k - i) s) = p"
  using assms
proof (induction i s p rule: findSub.induct)
  case (1 i p)
  then show ?case by (simp split: if_splits)
next
  case (2 i c cs p)
  show ?case
  proof (cases "take (length p) (c # cs) = p")
    case True
    with "2.prems" show ?thesis by simp
  next
    case False
    with "2.prems" have *: "findSub (Suc i) cs p = Some k" by (simp split: if_splits)
    with False "2.IH" have "take (length p) (drop (k - Suc i) cs) = p" by blast
    moreover from * have "Suc i \<le> k" by (rule findSub_ge)
    ultimately show ?thesis by (simp add: drop_Cons')
  qed
qed

lemma findSub_skip:
  assumes "\<And>j. j < length a \<Longrightarrow> take (length p) (drop j (a @ s)) \<noteq> p"
  shows "findSub i (a @ s) p = findSub (i + length a) s p"
  using assms
proof (induction a arbitrary: i)
  case Nil
  then show ?case by simp
next
  case (Cons c a)
  have head: "take (length p) (c # a @ s) \<noteq> p"
    using Cons.prems [of 0] by simp
  have "findSub (Suc i) (a @ s) p = findSub (Suc i + length a) s p"
  proof (rule Cons.IH)
    fix j assume "j < length a"
    then show "take (length p) (drop j (a @ s)) \<noteq> p" using Cons.prems [of "Suc j"] by simp
  qed
  with head show ?case by simp
qed

lemma findSub_here: "startsWith s p \<Longrightarrow> findSub i s p = Some i"
  by (cases s) (auto simp: startsWith_def)

lemma findSub_None:
  assumes "findSub i s p = None"
  shows "take (length p) (drop k s) \<noteq> p"
  using assms
proof (induction i s p arbitrary: k rule: findSub.induct)
  case (1 i p)
  then show ?case by (auto split: if_splits)
next
  case (2 i c cs p)
  then have here: "take (length p) (c # cs) \<noteq> p" and "findSub (Suc i) cs p = None"
    by (auto split: if_splits)
  with 2 have "take (length p) (drop j cs) \<noteq> p" for j by blast
  with here show ?case by (cases k) auto
qed

lemma dropWhile_dropWhile_same [simp]: "dropWhile P (dropWhile P xs) = dropWhile P xs"
  by (induction xs) auto

lemma dropEndWhile_Nil [simp]: "dropEndWhile P [] = []"
  by (simp add: dropEndWhile_def)

lemma dropEndWhile_snoc [simp]:
  "dropEndWhile P (xs @ [x]) = (if P x then dropEndWhile P xs else xs @ [x])"
  by (simp add: dropEndWhile_def)

lemma dropEndWhile_idem [simp]: "dropEndWhile P (dropEndWhile P xs) = dropEndWhile P xs"
  by (simp add: dropEndWhile_def)

lemma dropEndWhile_split: "\<exists>t. xs = dropEndWhile P xs @ t"
proof (induction xs rule: rev_induct)
  case (snoc x xs)
  then obtain t where "xs = dropEndWhile P xs @ t" by blast
  then have "xs @ [x] = dropEndWhile P xs @ (t @ [x])" by (metis append_assoc)
  then show ?case unfolding dropEndWhile_snoc by (cases "P x") (metis, simp)
qed simp

lemma length_dropEndWhile: "length (dropEndWhile P xs) \<le> length xs"
  using dropEndWhile_split [of xs P] by (metis length_append le_add1)

lemma set_dropEndWhile: "set (dropEndWhile P xs) \<subseteq> set xs"
  using dropEndWhile_split [of xs P] by (metis Un_upper1 set_append)

lemma last_dropEndWhile: "dropEndWhile P xs \<noteq> [] \<Longrightarrow> \<not> P (last (dropEndWhile P xs))"
  by (induction xs rule: rev_induct) auto

lemma hd_dropEndWhile: "dropEndWhile P xs \<noteq> [] \<Longrightarrow> hd (dropEndWhile P xs) = hd xs"
  using dropEndWhile_split [of xs P] by (metis hd_append2)

lemma dropEndWhile_id: "xs = [] \<or> \<not> P (last xs) \<Longrightarrow> dropEndWhile P xs = xs"
  by (cases xs rule: rev_cases) auto

lemma dropWhile_id: "xs = [] \<or> \<not> P (hd xs) \<Longrightarrow> dropWhile P xs = xs"
  by (cases xs) auto

lemma trim_idem [simp]: "trim (trim s) = trim s"
proof (cases "trim s = []")
  case True
  then show ?thesis by (simp add: trim_def)
next
  case False
  define t where "t = dropWhile isWhite s"
  have ts: "trim s = dropEndWhile isWhite t" by (simp add: trim_def t_def)
  have "t \<noteq> []" using False ts by auto
  then have "\<not> isWhite (hd t)" unfolding t_def by (rule hd_dropWhile)
  then have "\<not> isWhite (hd (trim s))" using False ts hd_dropEndWhile by metis
  then have "dropWhile isWhite (trim s) = trim s" by (simp add: dropWhile_id)
  then show ?thesis by (simp add: trim_def)
qed

lemma trim_Nil [simp]: "trim [] = []"
  by (simp add: trim_def)

lemma trim_length_le: "length (trim s) \<le> length s"
  unfolding trim_def using length_dropEndWhile length_dropWhile_le le_trans by blast

lemma joinWith_Cons: "xs \<noteq> [] \<Longrightarrow> joinWith sep (x # xs) = x @ sep @ joinWith sep xs"
  by (cases xs) auto

lemma joinWith_eq_Nil:
  assumes "\<And>x. x \<in> set xs \<Longrightarrow> x \<noteq> []"
  shows "joinWith sep xs = [] \<longleftrightarrow> xs = []"
proof (cases xs)
  case (Cons x ys)
  with assms have "x \<noteq> []" by simp
  with Cons show ?thesis by (cases ys) simp_all
qed simp

text \<open>Decimal printing and reading are inverse.\<close>

lemma unat_digitChar: "d < 10 \<Longrightarrow> unat (digitChar d) = 48 + d"
  by (simp add: digitChar_def unat_of_nat del: of_nat_add)

lemma isDigit_digitChar [simp]: "d < 10 \<Longrightarrow> isDigit (digitChar d)"
  by (simp add: isDigit_def word_le_nat_alt unat_digitChar)

lemma digitVal_digitChar [simp]: "d < 10 \<Longrightarrow> digitVal (digitChar d) = d"
  by (simp add: digitVal_def unat_digitChar)

lemma showNat_digits: "list_all isDigit (showNat n)"
proof (induction n rule: showNat.induct)
  case (1 n)
  then show ?case by (subst showNat.simps) auto
qed

lemma showNat_neq_Nil [simp]: "showNat n \<noteq> []"
  by (subst showNat.simps) simp

lemma readNat_showNat [simp]: "readNat (showNat n) = n"
proof (induction n rule: showNat.induct)
  case (1 n)
  show ?case
  proof (cases "n < 10")
    case True
    then show ?thesis by (subst showNat.simps) (simp add: readNat_def)
  next
    case False
    with "1.IH" have "foldl (\<lambda>n c. 10 * n + digitVal c) 0 (showNat (n div 10)) = n div 10"
      by (simp add: readNat_def)
    with False show ?thesis by (subst showNat.simps) (simp add: readNat_def)
  qed
qed

lemma showNat_inject [simp]: "showNat m = showNat n \<longleftrightarrow> m = n"
  by (metis readNat_showNat)

lemma showNat_one: "showNat 1 = js ''1''"
  by (subst showNat.simps) (simp add: digitChar_def js_def)

text \<open>The pieces of a string are never empty and concatenate to it.\<close>

lemma concat_codePoints [simp]: "concat (codePoints s) = s"
  by (induction s rule: codePoints.induct) auto

lemma codePoints_nonempty: "p \<in> set (codePoints s) \<Longrightarrow> p \<noteq> []"
  by (induction s rule: codePoints.induct) (auto split: if_splits)

lemma codePoints_eq_Nil [simp]: "codePoints s = [] \<longleftrightarrow> s = []"
  by (cases s rule: codePoints.cases) auto

section \<open>Case tables\<close>

text \<open>The shape of a Unicode lower-casing table, context rules included: the string splits into
  pieces that are lowered one by one; an ASCII unit is lowered as \<open>lowerUnit\<close> does, U+0130 and
  the Kelvin sign have their own images, and every other piece lies outside ASCII and stays
  there.\<close>

inductive lowered_piece :: "jstr \<Rightarrow> jstr \<Rightarrow> bool" where
  ascii: "c < 0x80 \<Longrightarrow> lowered_piece [c] (lowerUnit c)"
| dotted: "lowered_piece [0x130] [0x69, 0x307]"
| kelvin: "lowered_piece [0x212a] [0x6b]"
| other: "a \<noteq> [] \<Longrightarrow> b \<noteq> [] \<Longrightarrow> \<forall>c \<in> set a. 0x80 \<le> c \<and> c \<noteq> 0x130 \<and> c \<noteq> 0x212a \<Longrightarrow>
     \<forall>c \<in> set b. 0x80 \<le> c \<Longrightarrow> lowered_piece a b"

inductive lowered :: "jstr \<Rightarrow> jstr \<Rightarrow> bool" where
  lowered_Nil: "lowered [] []"
| lowered_step: "lowered_piece a b \<Longrightarrow> lowered s t \<Longrightarrow> lowered (a @ s) (b @ t)"

lemma lowered_piece_lowerUnit: "lowered_piece [c] (lowerUnit c)"
proof (cases "c < 0x80 \<or> c = 0x130 \<or> c = 0x212a")
  case True
  then show ?thesis
    by (auto simp: lowerUnit_def intro: lowered_piece.dotted lowered_piece.kelvin)
      (use lowered_piece.ascii [of c] in \<open>simp_all add: lowerUnit_def\<close>)
next
  case False
  then have c: "0x80 \<le> c" "c \<noteq> 0x130" "c \<noteq> 0x212a" by auto
  have upper: "0x80 \<le> c + 32" if "0xc0 \<le> c" "c \<le> 0xde"
  proof -
    have "unat c + 32 < 2 ^ LENGTH(16)" using that(2) by (simp add: word_le_nat_alt)
    then have "unat (c + 32) = unat c + 32" by (simp add: unat_word_ariths)
    with that(1) show ?thesis by (simp add: word_le_nat_alt)
  qed
  have "\<not> c \<le> 0x5a" using c(1) by (simp add: word_le_nat_alt)
  then have "\<forall>d \<in> set (lowerUnit c). 0x80 \<le> d"
    using c upper by (auto simp: lowerUnit_def)
  moreover have "lowerUnit c \<noteq> []" by (simp add: lowerUnit_def)
  ultimately show ?thesis using c by (intro lowered_piece.other) auto
qed

lemma lowered_toLowerCase: "lowered s (toLowerCase s)"
proof (induction s)
  case Nil
  show ?case by (simp add: toLowerCase_def lowered.lowered_Nil)
next
  case (Cons c s)
  with lowered.lowered_step [OF lowered_piece_lowerUnit] have "lowered ([c] @ s) (lowerUnit c @ toLowerCase s)"
    by blast
  then show ?case by (simp add: toLowerCase_def)
qed

locale case_table =
  fixes lower :: "jstr \<Rightarrow> jstr"
  assumes pieces: "lowered s (lower s)"

interpretation ecma: case_table toLowerCase
  by unfold_locales (rule lowered_toLowerCase)

section \<open>Comparing by meaning\<close>

text \<open>
  Several dialogs decide whether to send a value by comparing it with the stored
  one. The test is a boolean function; what makes it right is that it agrees with
  equality of what the value means.
\<close>

locale comparison =
  fixes same :: "'a \<Rightarrow> 'a \<Rightarrow> bool"
    and meaning :: "'a \<Rightarrow> 'm"
  assumes same_iff: "same a b \<longleftrightarrow> meaning a = meaning b"
begin

lemma same_refl [simp]: "same a a"
  by (simp add: same_iff)

lemma same_sym: "same a b \<longleftrightarrow> same b a"
  by (auto simp: same_iff)

lemma same_trans: "same a b \<Longrightarrow> same b c \<Longrightarrow> same a c"
  by (simp add: same_iff)

lemma same_cong: "same a b \<Longrightarrow> same a c \<longleftrightarrow> same b c"
  by (auto simp: same_iff)

end

end
