(* ===== verification/Json.thy ===== *)
theory Json
  imports Prelude
begin

text \<open>
  JavaScript values as they cross the wire, \<open>JSON.stringify\<close>, and plain objects.

  \<open>jval\<close> is a value of type \<open>unknown\<close>: what \<open>JSON.parse\<close> can return, and
  \<open>undefined\<close> for a missing member. An object is the list of its own members in the
  order \<open>Object.entries\<close> enumerates them. A number is one of three shapes: a safe
  integer, the canonical text of any other finite number, or a value that is not
  finite; no component calculates with the second or third shape.

  Request bodies are objects of type \<open>jobj\<close>; \<open>objHas\<close>, \<open>objGet\<close> and \<open>objSet\<close>
  are \<open>k in o\<close>, \<open>o[k]\<close> and \<open>o[k] = v\<close>.
\<close>

section \<open>Values\<close>

datatype jnum = NonFinite | IntNum int | DecNum jstr

datatype jval =
    JUndefined
  | JNull
  | JBool bool
  | JNum jnum
  | JStr jstr
  | JArr "jval list"
  | JObj "(jstr \<times> jval) list"

type_synonym jobj = "(jstr \<times> jval) list"

section \<open>JSON.stringify\<close>

definition hexDigit :: "nat \<Rightarrow> jchar" where
  "hexDigit d = (if d < 10 then of_nat (48 + d) else of_nat (87 + d))"

text \<open>\<open>\uXXXX\<close> with four lower-case hexadecimal digits.\<close>

definition unicodeEscape :: "jchar \<Rightarrow> jstr" where
  "unicodeEscape c = (let n = unat c in
     [0x5c, 0x75, hexDigit (n div 4096), hexDigit (n div 256 mod 16), hexDigit (n div 16 mod 16), hexDigit (n mod 16)])"

definition quoteUnit :: "jchar \<Rightarrow> jstr" where
  "quoteUnit c =
     (if c = 0x08 then [0x5c, 0x62] else if c = 0x09 then [0x5c, 0x74]
      else if c = 0x0a then [0x5c, 0x6e] else if c = 0x0c then [0x5c, 0x66]
      else if c = 0x0d then [0x5c, 0x72] else if c = 0x22 then [0x5c, 0x22]
      else if c = 0x5c then [0x5c, 0x5c]
      else if c < 0x20 \<or> (0xd800 \<le> c \<and> c \<le> 0xdfff) then unicodeEscape c
      else [c])"

text \<open>ECMAScript \<open>QuoteJSONString\<close>: a surrogate pair is copied, a lone surrogate escaped.\<close>

definition quotePoint :: "jstr \<Rightarrow> jstr" where
  "quotePoint p = (case p of [c] \<Rightarrow> quoteUnit c | _ \<Rightarrow> p)"

definition quoteStr :: "jstr \<Rightarrow> jstr" where
  "quoteStr s = [0x22] @ concat (map quotePoint (codePoints s)) @ [0x22]"

definition showNum :: "jnum \<Rightarrow> jstr" where
  "showNum n = (case n of NonFinite \<Rightarrow> js ''null'' | IntNum i \<Rightarrow> showInt i | DecNum t \<Rightarrow> t)"

text \<open>The list brackets of \<open>SerializeJSONObject\<close> and \<open>SerializeJSONArray\<close>: on one line without a
  gap, one member per line under \<open>indent @ gap\<close> with one.\<close>

definition bracket :: "jstr \<Rightarrow> jstr \<Rightarrow> jstr \<Rightarrow> jstr \<Rightarrow> jstr list \<Rightarrow> jstr" where
  "bracket gap indent l r parts =
     (if parts = [] then l @ r
      else if gap = [] then l @ joinWith (js '','') parts @ r
      else (let inner = indent @ gap in
        l @ [0x0a] @ inner @ joinWith (js '','' @ [0x0a] @ inner) parts @ [0x0a] @ indent @ r))"

lemma size_member [termination_simp]: "m \<in> set ms \<Longrightarrow> size (snd m) < Suc (size_list (\<lambda>x. Suc (size (snd x))) ms)"
  by (induction ms) auto

fun stringifyGap :: "jstr \<Rightarrow> jstr \<Rightarrow> jval \<Rightarrow> jstr option" where
  "stringifyGap gap indent JUndefined = None"
| "stringifyGap gap indent JNull = Some (js ''null'')"
| "stringifyGap gap indent (JBool b) = Some (if b then js ''true'' else js ''false'')"
| "stringifyGap gap indent (JNum n) = Some (showNum n)"
| "stringifyGap gap indent (JStr s) = Some (quoteStr s)"
| "stringifyGap gap indent (JArr vs) = Some (bracket gap indent (js ''['') (js '']'')
     (map (\<lambda>v. orElse (stringifyGap gap (indent @ gap) v) (js ''null'')) vs))"
| "stringifyGap gap indent (JObj ms) = Some (bracket gap indent (js ''{'') (js ''}'')
     (concat (map (\<lambda>m. case stringifyGap gap (indent @ gap) (snd m) of None \<Rightarrow> []
        | Some t \<Rightarrow> [quoteStr (fst m) @ (if gap = [] then js '':'' else js '': '') @ t]) ms)))"

definition stringify :: "jval \<Rightarrow> jstr option" where
  "stringify v = stringifyGap [] [] v"

text \<open>\<open>JSON.stringify(v, null, 2)\<close>, \<open>undefined\<close> read as the empty string by its callers.\<close>

definition stringify2 :: "jval \<Rightarrow> jstr" where
  "stringify2 v = orElse (stringifyGap (js ''  '') [] v) []"

section \<open>Objects\<close>

definition objHas :: "jstr \<Rightarrow> (jstr \<times> 'v) list \<Rightarrow> bool" where
  "objHas k ob \<longleftrightarrow> k \<in> set (map fst ob)"

definition objGet :: "jstr \<Rightarrow> (jstr \<times> 'v) list \<Rightarrow> 'v option" where
  "objGet k ob = map_of ob k"

text \<open>\<open>o[k] = v\<close>: an existing member keeps its place, a new one goes last. (Keys that are array
  indices are enumerated first by JavaScript; \<open>ownKeyOrder\<close> below puts them there.)\<close>

fun objSet :: "jstr \<Rightarrow> 'v \<Rightarrow> (jstr \<times> 'v) list \<Rightarrow> (jstr \<times> 'v) list" where
  "objSet k v [] = [(k, v)]"
| "objSet k v ((k', w) # ob) = (if k = k' then (k, v) # ob else (k', w) # objSet k v ob)"

definition objKeys :: "(jstr \<times> 'v) list \<Rightarrow> jstr list" where
  "objKeys ob = map fst ob"

text \<open>A canonical array index: digits with no leading zero, below \<open>2^32 - 1\<close>.\<close>

definition isArrayIndex :: "jstr \<Rightarrow> bool" where
  "isArrayIndex k \<longleftrightarrow> k \<noteq> [] \<and> list_all isDigit k \<and> showNat (readNat k) = k \<and> readNat k < 4294967295"

definition ownKeyOrder :: "(jstr \<times> 'v) list \<Rightarrow> (jstr \<times> 'v) list" where
  "ownKeyOrder ob =
     sort_key (\<lambda>m. readNat (fst m)) (filter (\<lambda>m. isArrayIndex (fst m)) ob) @
     filter (\<lambda>m. \<not> isArrayIndex (fst m)) ob"

text \<open>\<open>Object.fromEntries\<close>: a repeated key keeps its first place and takes its last value.\<close>

definition fromEntries :: "(jstr \<times> 'v) list \<Rightarrow> (jstr \<times> 'v) list" where
  "fromEntries es = ownKeyOrder (fold (\<lambda>(k, v) ob. objSet k v ob) es [])"

section \<open>Laws\<close>

lemma objGet_objSet: "objGet k (objSet k' v ob) = (if k = k' then Some v else objGet k ob)"
  by (induction k' v ob rule: objSet.induct) (auto simp: objGet_def)

lemma objHas_objSet [simp]: "objHas k (objSet k' v ob) \<longleftrightarrow> k = k' \<or> objHas k ob"
  by (induction k' v ob rule: objSet.induct) (auto simp: objHas_def)

lemma objHas_Nil [simp]: "\<not> objHas k []"
  by (simp add: objHas_def)

lemma objHas_Cons [simp]: "objHas k ((k', v) # ob) \<longleftrightarrow> k = k' \<or> objHas k ob"
  by (auto simp: objHas_def)

lemma objHas_append [simp]: "objHas k (a @ b) \<longleftrightarrow> objHas k a \<or> objHas k b"
  by (auto simp: objHas_def)

lemma objGet_None_iff: "objGet k ob = None \<longleftrightarrow> \<not> objHas k ob"
  by (simp add: objGet_def objHas_def map_of_eq_None_iff)

lemma objGet_append: "objGet k (a @ b) = (case objGet k a of None \<Rightarrow> objGet k b | Some v \<Rightarrow> Some v)"
  by (simp add: objGet_def map_add_def split: option.splits)

lemma objGet_Cons [simp]: "objGet k ((k', v) # ob) = (if k = k' then Some v else objGet k ob)"
  by (auto simp: objGet_def)

lemma objGet_Nil [simp]: "objGet k [] = None"
  by (simp add: objGet_def)

lemma distinct_objSet: "distinct (map fst ob) \<Longrightarrow> distinct (map fst (objSet k v ob))"
proof (induction k v ob rule: objSet.induct)
  case (2 k v k' w ob)
  have "k' \<notin> set (map fst (objSet k v ob))" if "k \<noteq> k'"
    using "2.prems" that objHas_objSet [of k' k v ob] by (auto simp: objHas_def)
  with 2 show ?case by auto
qed simp

lemma distinct_fold_objSet:
  "distinct (map fst ob) \<Longrightarrow> distinct (map fst (fold (\<lambda>(k, v) ob. objSet k v ob) es ob))"
  by (induction es arbitrary: ob) (auto simp: distinct_objSet)

lemma set_ownKeyOrder [simp]: "set (ownKeyOrder ob) = set ob"
  by (auto simp: ownKeyOrder_def)

lemma distinct_ownKeyOrder:
  assumes "distinct (map fst ob)"
  shows "distinct (map fst (ownKeyOrder ob))"
proof -
  have "distinct ob" and inj: "inj_on fst (set ob)" using assms by (auto simp: distinct_map)
  then have "distinct (ownKeyOrder ob)"
    by (auto simp: ownKeyOrder_def)
  with inj show ?thesis by (simp add: distinct_map)
qed

lemma distinct_fromEntries: "distinct (map fst (fromEntries es))"
  by (simp add: fromEntries_def distinct_ownKeyOrder distinct_fold_objSet)

lemma keys_fold_objSet:
  "set (map fst (fold (\<lambda>(k, v) ob. objSet k v ob) es ob)) = set (map fst es) \<union> set (map fst ob)"
proof (induction es arbitrary: ob)
  case (Cons e es)
  obtain k v where e: "e = (k, v)" by (cases e)
  have "set (map fst (objSet k v ob)) = insert k (set (map fst ob))"
    using objHas_objSet [of _ k v ob] by (auto simp: objHas_def)
  with Cons [of "objSet k v ob"] e show ?case by auto
qed simp

lemma keys_fromEntries: "set (map fst (fromEntries es)) = set (map fst es)"
  using keys_fold_objSet [of es "[]"] by (simp add: fromEntries_def)

lemma objGet_fold_objSet:
  "objGet k (fold (\<lambda>(k, v) ob. objSet k v ob) es ob) =
     (case map_of (rev es) k of None \<Rightarrow> objGet k ob | Some v \<Rightarrow> Some v)"
proof (induction es arbitrary: ob)
  case (Cons e es)
  then show ?case
    by (cases e) (auto simp: objGet_objSet map_add_def split: option.splits)
qed simp

text \<open>A lookup in \<open>Object.fromEntries(es)\<close> finds the last entry of that key.\<close>

lemma objGet_fromEntries: "objGet k (fromEntries es) = map_of (rev es) k"
proof -
  let ?ob = "fold (\<lambda>(k, v) ob. objSet k v ob) es []"
  have d: "distinct (map fst ?ob)" "distinct (map fst (ownKeyOrder ?ob))"
    by (simp_all add: distinct_fold_objSet distinct_ownKeyOrder)
  have "map_of (ownKeyOrder ?ob) = map_of ?ob"
    using d by (intro map_of_inject_set [THEN iffD2]) simp_all
  then have "objGet k (fromEntries es) = objGet k ?ob"
    by (simp add: fromEntries_def objGet_def)
  then show ?thesis by (simp add: objGet_fold_objSet split: option.splits)
qed

lemma stringify_not_None: "v \<noteq> JUndefined \<Longrightarrow> \<exists>t. stringify v = Some t"
  by (cases v) (auto simp: stringify_def)

end
