(* ===== verification/Api.thy ===== *)
theory Api
  imports Json
begin

text \<open>
  The management API client: \<open>web/src/lib/api.ts\<close>, with \<open>edit-error.ts\<close> and the error half of
  \<open>discovery.ts\<close>.

  The records are the wire types of \<open>api.ts\<close> (an optional member is an \<open>option\<close>, a server
  enum stays a string as it does there). \<open>apiRequest\<close> is the part of \<open>api()\<close> before \<open>fetch\<close>,
  \<open>apiAnswer\<close> the part after it: a failed request is a value of type \<open>failure\<close>, an
  \<open>ApiError\<close> or any other error. \<open>fetch\<close>, \<open>Date.parse\<close> (whose accepted formats the engine
  chooses) and \<open>JSON.parse\<close> are arguments.

  Every function that turns a failure into a sentence is an instance of the locale
  \<open>sentence_mapper\<close>.
\<close>

section \<open>Failures\<close>

record api_error =
  err_status :: int
  err_message :: jstr
  err_retryAfter :: "int option"

datatype failure = ApiErr api_error | OtherErr jstr

text \<open>\<open>retryAfterSeconds\<close>. The number of a digit string is exact below \<open>2^53\<close>.\<close>

definition retryAfterSeconds :: "(jstr \<Rightarrow> int option) \<Rightarrow> int \<Rightarrow> jstr option \<Rightarrow> int option" where
  "retryAfterSeconds dateParse now header =
     (case header of
        None \<Rightarrow> None
      | Some h \<Rightarrow>
          if h = [] then None
          else (let value = trim h in
            if value \<noteq> [] \<and> list_all isDigit value then Some (max 1 (int (readNat value)))
            else if \<not> list_ex isWhite value then None
            else (case dateParse value of
                    None \<Rightarrow> None
                  | Some when \<Rightarrow> Some (max 1 (- ((now - when) div 1000))))))"

section \<open>The admin key in session storage\<close>

type_synonym storage = "jstr \<rightharpoonup> jstr"

definition adminKeyName :: jstr where
  "adminKeyName = js ''porymcp.adminKey''"

text \<open>\<open>None\<close> for the storage is the static export, where \<open>window\<close> does not exist.\<close>

definition getAdminKey :: "storage option \<Rightarrow> jstr option" where
  "getAdminKey st = (case st of None \<Rightarrow> None | Some m \<Rightarrow> m adminKeyName)"

definition setAdminKey :: "storage \<Rightarrow> jstr \<Rightarrow> storage" where
  "setAdminKey m key = m(adminKeyName \<mapsto> key)"

definition clearAdminKey :: "storage \<Rightarrow> storage" where
  "clearAdminKey m = m(adminKeyName := None)"

section \<open>Requests and answers\<close>

text \<open>A \<open>Headers\<close> object: names compare without case, so they are held in lower case.\<close>

type_synonym headers = "jstr \<rightharpoonup> jstr"

record request_init =
  ri_method :: jstr
  ri_body :: "jstr option"
  ri_headers :: headers

record request =
  rq_url :: jstr
  rq_method :: jstr
  rq_body :: "jstr option"
  rq_headers :: headers

record response =
  rs_status :: int
  rs_statusText :: jstr
  rs_text :: jstr
  rs_retryAfter :: "jstr option"

definition responseOk :: "response \<Rightarrow> bool" where
  "responseOk r \<longleftrightarrow> 200 \<le> rs_status r \<and> rs_status r \<le> 299"

definition apiRequest :: "jstr \<Rightarrow> storage option \<Rightarrow> jstr \<Rightarrow> request_init \<Rightarrow> request" where
  "apiRequest base st path init =
     (let h0 = ri_headers init;
          h1 = (if h0 (js ''content-type'') = None \<and> orElse (ri_body init) [] \<noteq> []
                then h0(js ''content-type'' \<mapsto> js ''application/json'') else h0);
          key = orElse (getAdminKey st) [];
          h2 = (if key \<noteq> [] then h1(js ''authorization'' \<mapsto> js ''Bearer '' @ key) else h1)
      in \<lparr>rq_url = base @ js ''/api/v1'' @ path, rq_method = ri_method init, rq_body = ri_body init, rq_headers = h2\<rparr>)"

text \<open>\<open>data?.error || res.statusText\<close> as the message of an \<open>ApiError\<close>: the \<open>error\<close> member of an
  object answer, converted to a string, unless it is falsy. (No other JSON value has an own
  \<open>error\<close> member.)\<close>

fun jsToString :: "jval \<Rightarrow> jstr" where
  "jsToString JUndefined = js ''undefined''"
| "jsToString JNull = js ''null''"
| "jsToString (JBool b) = (if b then js ''true'' else js ''false'')"
| "jsToString (JNum n) = (case n of NonFinite \<Rightarrow> js ''NaN'' | IntNum i \<Rightarrow> showInt i | DecNum t \<Rightarrow> t)"
| "jsToString (JStr s) = s"
| "jsToString (JArr vs) =
     joinWith (js '','') (map (\<lambda>v. if v = JNull \<or> v = JUndefined then [] else jsToString v) vs)"
| "jsToString (JObj ms) = js ''[object Object]''"

definition truthy :: "jval \<Rightarrow> bool" where
  "truthy v = (case v of JUndefined \<Rightarrow> False | JNull \<Rightarrow> False | JBool b \<Rightarrow> b
     | JNum n \<Rightarrow> n \<noteq> NonFinite \<and> n \<noteq> IntNum 0 | JStr s \<Rightarrow> s \<noteq> [] | _ \<Rightarrow> True)"

definition errorText :: "jval \<Rightarrow> jstr \<Rightarrow> jstr" where
  "errorText data statusText =
     (case data of
        JObj ms \<Rightarrow> (case objGet (js ''error'') ms of
            Some v \<Rightarrow> if truthy v then jsToString v else statusText
          | None \<Rightarrow> statusText)
      | _ \<Rightarrow> statusText)"

definition apiAnswer :: "(jstr \<Rightarrow> jval option) \<Rightarrow> (jstr \<Rightarrow> int option) \<Rightarrow> int \<Rightarrow> response \<Rightarrow> failure + jval" where
  "apiAnswer jsonParse dateParse now res =
     (if rs_status res = 204 then Inr JUndefined
      else (case (if rs_text res = [] then Some JNull else jsonParse (rs_text res)) of
              None \<Rightarrow> Inl (OtherErr (js ''SyntaxError''))
            | Some data \<Rightarrow>
                if \<not> responseOk res
                then Inl (ApiErr \<lparr>err_status = rs_status res, err_message = errorText data (rs_statusText res),
                                  err_retryAfter = retryAfterSeconds dateParse now (rs_retryAfter res)\<rparr>)
                else Inr data))"

section \<open>Wire types\<close>

record auth_hint =
  hint_header :: "jstr option"
  hint_param :: "jstr option"

record upstream_oauth =
  oa_expires_at :: "jstr option"
  oa_has_refresh_token :: bool
  oa_client_source :: "jstr option"

record upstream =
  u_id :: jstr
  u_name :: jstr
  u_slug :: jstr
  u_description :: "jstr option"
  u_kind :: jstr
  u_url :: jstr
  u_transport :: jstr
  u_test_path :: "jstr option"
  u_auth_type :: jstr
  u_enabled :: bool
  u_auth_configured :: bool
  u_auth_status :: jstr
  u_auth_hint :: "auth_hint option"
  u_oauth :: "upstream_oauth option"
  u_last_test_at :: "jstr option"
  u_last_test_ok :: "bool option"
  u_created_at :: jstr
  u_updated_at :: jstr

record discovered_tool =
  t_name :: jstr
  t_title :: "jstr option"
  t_description :: "jstr option"
  t_description_truncated :: bool
  t_scoped_name :: "jstr option"

record discovery =
  d_ok :: bool
  d_kind :: jstr
  d_http_status :: "int option"
  d_latency_ms :: int
  d_protocol_version :: "jstr option"
  d_era :: "jstr option"
  d_slug :: "jstr option"
  d_tool_count :: nat
  d_tools :: "discovered_tool list option"
  d_truncated :: bool
  d_unnameable_tools :: "nat option"
  d_error :: "jstr option"
  d_upstream_message :: "jstr option"

record group =
  g_id :: jstr
  g_name :: jstr
  g_description :: "jstr option"
  g_upstream_ids :: "jstr list"
  g_tool_filter :: jval
  g_created_at :: jstr
  g_updated_at :: jstr

record endpoint =
  ep_upstream_id :: jstr
  ep_slug :: jstr
  ep_name :: jstr
  ep_kind :: jstr
  ep_url :: jstr

record virtual_key =
  vk_id :: jstr
  vk_name :: jstr
  vk_key_prefix :: jstr
  vk_target_type :: jstr
  vk_target_id :: jstr
  vk_rate_limit :: "int option"
  vk_expires_at :: "jstr option"
  vk_status :: jstr
  vk_last_used_at :: "jstr option"
  vk_created_at :: jstr
  vk_api_key :: "jstr option"
  vk_proxy_url :: "jstr option"
  vk_tool_allowlist :: "jstr list option"
  vk_tool_denylist :: "jstr list option"
  vk_lists_malformed :: bool
  vk_http_methods :: "jstr list option"
  vk_http_methods_malformed :: bool
  vk_endpoints :: "endpoint list"

record facet_entry =
  fe_value :: jstr
  fe_count :: nat

record log_facets =
  lf_methods :: "facet_entry list"
  lf_tools :: "facet_entry list"
  lf_statuses :: "facet_entry list"
  lf_truncated :: bool

text \<open>The two discovery calls, the three OAuth calls: the path and body handed to \<open>api()\<close>.\<close>

definition postInit :: "jstr \<Rightarrow> request_init" where
  "postInit body = \<lparr>ri_method = js ''POST'', ri_body = Some body, ri_headers = Map.empty\<rparr>"

definition getInit :: request_init where
  "getInit = \<lparr>ri_method = js ''GET'', ri_body = None, ri_headers = Map.empty\<rparr>"

definition discoverUpstream :: "jstr \<Rightarrow> jstr \<times> request_init" where
  "discoverUpstream i = (js ''/upstreams/'' @ i @ js ''/discover'', postInit (js ''{}''))"

definition discoverUpstreamPayload :: "jobj \<Rightarrow> jstr \<times> request_init" where
  "discoverUpstreamPayload body = (js ''/upstreams/discover'', postInit (orElse (stringify (JObj body)) []))"

definition oauthStart :: "jstr \<Rightarrow> jstr option \<Rightarrow> jstr \<times> request_init" where
  "oauthStart i client = (js ''/upstreams/'' @ i @ js ''/oauth/start'',
     postInit (orElse (stringify (JObj (case client of None \<Rightarrow> [] | Some c \<Rightarrow> [(js ''client'', JStr c)]))) []))"

definition oauthRevoke :: "jstr \<Rightarrow> jstr \<times> request_init" where
  "oauthRevoke i = (js ''/upstreams/'' @ i @ js ''/oauth/revoke'', postInit (js ''{}''))"

definition oauthClientMetadata :: "jstr \<times> request_init" where
  "oauthClientMetadata = (js ''/oauth/client-metadata'', getInit)"

section \<open>Sentences for failures\<close>

definition NETWORK_SENTENCE :: jstr where
  "NETWORK_SENTENCE = js ''Could not reach PoryMCP. Check that the server is still running.''"

definition SIGNED_OUT_SENTENCE :: jstr where
  "SIGNED_OUT_SENTENCE = js ''This browser session is no longer signed in. Reload the page to sign in again.''"

text \<open>\<open>Try again in n second(s).\<close>, shared by the two limiter sentences.\<close>

definition tryAgain :: "int \<Rightarrow> jstr" where
  "tryAgain n = js '' Try again in '' @ showInt n @ js '' '' @ (if n = 1 then js ''second'' else js ''seconds'') @ js ''.''"

definition requestErrorMessage :: "failure \<Rightarrow> jstr" where
  "requestErrorMessage err =
     (case err of
        ApiErr e \<Rightarrow>
          (if err_status e = 429 then
             (case err_retryAfter e of
                None \<Rightarrow> js ''Too many requests. Try again in a minute.''
              | Some n \<Rightarrow> js ''Too many requests.'' @ tryAgain n)
           else if err_status e = 401 then SIGNED_OUT_SENTENCE
           else err_message e)
      | OtherErr _ \<Rightarrow> NETWORK_SENTENCE)"

definition discoveryErrorMessage :: "failure \<Rightarrow> jstr" where
  "discoveryErrorMessage err =
     (case err of
        ApiErr e \<Rightarrow>
          (if err_status e = 429 then
             (case err_retryAfter e of
                None \<Rightarrow> js ''Too many discovery requests. Try again shortly.''
              | Some n \<Rightarrow> js ''Too many discovery requests.'' @ tryAgain n)
           else requestErrorMessage err)
      | OtherErr _ \<Rightarrow> requestErrorMessage err)"

datatype edit_resource = UpstreamRes | GroupRes | VirtualKeyRes
datatype edit_action = SaveAct | DeleteAct | LoadAct

definition resourceWord :: "edit_resource \<Rightarrow> jstr" where
  "resourceWord r = (case r of UpstreamRes \<Rightarrow> js ''upstream'' | GroupRes \<Rightarrow> js ''group'' | VirtualKeyRes \<Rightarrow> js ''virtual key'')"

definition editErrorMessage :: "failure \<Rightarrow> edit_resource \<Rightarrow> edit_action \<Rightarrow> jstr" where
  "editErrorMessage err resource action =
     (case err of
        ApiErr e \<Rightarrow>
          (if err_status e = 404
           then js ''This '' @ resourceWord resource @ js '' no longer exists. Close this dialog to see the current list.''
           else if err_status e = 409 \<and> action = DeleteAct then
             (case resource of
                UpstreamRes \<Rightarrow> js ''This upstream is still used by a group or a virtual key. Remove it there first.''
              | GroupRes \<Rightarrow> js ''This group is still targeted by a virtual key. Delete that key first.''
              | VirtualKeyRes \<Rightarrow> err_message e)
           else requestErrorMessage err)
      | OtherErr _ \<Rightarrow> requestErrorMessage err)"

section \<open>Laws\<close>

text \<open>What every mapper of the dashboard promises its caller: a request that never reached the
  server reads as the network sentence, a lost session as the sign-in sentence, and no failure
  reads as no sentence at all unless the server's own message was empty.\<close>

locale sentence_mapper =
  fixes sentence :: "failure \<Rightarrow> jstr"
  assumes network: "sentence (OtherErr t) = NETWORK_SENTENCE"
    and signed_out: "err_status e = 401 \<Longrightarrow> sentence (ApiErr e) = SIGNED_OUT_SENTENCE"
    and spoken: "err_message e \<noteq> [] \<Longrightarrow> sentence (ApiErr e) \<noteq> []"
begin

lemma silent_only_without_message:
  assumes "sentence err = []"
  shows "\<exists>e. err = ApiErr e \<and> err_message e = [] \<and> err_status e \<noteq> 401"
proof (cases err)
  case (ApiErr e)
  have "err_status e \<noteq> 401"
    using assms ApiErr signed_out [of e] by (auto simp: SIGNED_OUT_SENTENCE_def)
  with assms ApiErr spoken [of e] show ?thesis by auto
next
  case (OtherErr t)
  with assms network [of t] show ?thesis by (simp add: NETWORK_SENTENCE_def)
qed

end

lemma requestErrorMessage_simps [simp]:
  "requestErrorMessage (OtherErr t) = NETWORK_SENTENCE"
  "err_status e = 401 \<Longrightarrow> requestErrorMessage (ApiErr e) = SIGNED_OUT_SENTENCE"
  "err_status e \<notin> {401, 429} \<Longrightarrow> requestErrorMessage (ApiErr e) = err_message e"
  by (simp_all add: requestErrorMessage_def)

lemma requestErrorMessage_spoken: "err_message e \<noteq> [] \<Longrightarrow> requestErrorMessage (ApiErr e) \<noteq> []"
  by (simp add: requestErrorMessage_def SIGNED_OUT_SENTENCE_def split: option.splits)

interpretation request_sentence: sentence_mapper requestErrorMessage
  by unfold_locales (simp_all add: requestErrorMessage_spoken)

interpretation discovery_sentence: sentence_mapper discoveryErrorMessage
  by unfold_locales (simp_all add: discoveryErrorMessage_def requestErrorMessage_spoken split: option.splits)

interpretation edit_sentence: sentence_mapper "\<lambda>err. editErrorMessage err resource action"
  for resource action
  by unfold_locales
    (simp_all add: editErrorMessage_def requestErrorMessage_spoken resourceWord_def split: edit_resource.splits)

lemma retryAfterSeconds_at_least_one: "retryAfterSeconds dp now h = Some n \<Longrightarrow> 1 \<le> n"
  by (auto simp: retryAfterSeconds_def Let_def split: option.splits if_splits)

lemma rq_headers_other:
  "k \<noteq> js ''authorization'' \<Longrightarrow> k \<noteq> js ''content-type'' \<Longrightarrow>
     rq_headers (apiRequest base st path init) k = ri_headers init k"
  by (simp add: apiRequest_def Let_def)

section \<open>Properties\<close>

text \<open>
  A failure of a save or a delete is always put into words: the sentence is empty only for an
  answer of the server whose own message was empty and that is no lost session.
\<close>

theorem failed_save_is_explained:
  assumes "editErrorMessage err resource action = []"
  shows "\<exists>e. err = ApiErr e \<and> err_message e = [] \<and> err_status e \<noteq> 401"
  using assms by (rule edit_sentence.silent_only_without_message)

theorem failed_save_is_explained_witness:
  "\<exists>e. ApiErr \<lparr>err_status = 500, err_message = [], err_retryAfter = None\<rparr> = ApiErr e \<and> err_message e = [] \<and> err_status e \<noteq> 401"
  by (rule failed_save_is_explained [where resource = UpstreamRes and action = SaveAct]) code_simp

end
