(* ===== verification/Session.thy ===== *)
theory Session
  imports Api
begin

text \<open>
  Signing in and out: \<open>app/login/page.tsx\<close>, the gate of \<open>app/(app)/layout.tsx\<close> with \<open>lib/use-admin-key.ts\<close>,
  \<open>app/(app)/settings/page.tsx\<close> and the navigation of \<open>app/application-layout.tsx\<close>.

  The state is session storage, the route, the gate's last rendered \<open>hasKey\<close> (\<open>None\<close> while the layout is
  not mounted) and the boxes of the two forms. The gate's effect runs when \<open>hasKey\<close> differs from the last
  render; a page load renders first with the server's snapshot, null. A navigation the router is asked
  for happens with the step that asks. Requests of the pages are steps of their own, open at any time: a page
  that was left still runs the rest of its handlers; \<open>se_sent\<close>, \<open>se_typed\<close> and \<open>se_blank\<close> are ghosts: the requests sent, the keys typed, whether
  Settings saved a blank key since the last write by another operation.

  The lemmas show that the dashboard is drawn only while a key is stored, a non-empty one unless Settings
  saved a blank, that every request carries the key stored when it was sent and no other, that a sign-in
  under way is one, and what the login page says of a failure.
\<close>

section \<open>State\<close>

definition LOGIN :: jstr where "LOGIN = js ''/login/''"

datatype se_task = LoginTask

record se_state =
  se_storage :: storage
  se_path :: jstr
  se_gate :: "bool option"
  se_key :: jstr
  se_error :: jstr
  se_pending :: bool
  se_replace :: jstr
  se_tasks :: "se_task list"
  se_sent :: "request list"
  se_typed :: "jstr list"
  se_blank :: bool

definition storedKey_of :: "se_state \<Rightarrow> jstr option" where
  "storedKey_of s = getAdminKey (Some (se_storage s))"

definition useAdminKey :: "bool \<Rightarrow> se_state \<Rightarrow> jstr option" where
  "useAdminKey hydrating s = (if hydrating then None else storedKey_of s)"

section \<open>The gate\<close>

text \<open>A login page that mounts starts blank.\<close>

definition loginBlank :: "se_state \<Rightarrow> se_state" where
  "loginBlank s = s\<lparr>se_key := [], se_error := [], se_pending := False\<rparr>"

definition gateEffect :: "se_state \<Rightarrow> se_state" where
  "gateEffect s = (if orElse (storedKey_of s) [] = [] then loginBlank (s\<lparr>se_path := LOGIN, se_gate := None\<rparr>) else s)"

text \<open>One render of the layout: the effect runs on the first one and when \<open>hasKey\<close> changed.\<close>

definition renderGate :: "bool \<Rightarrow> se_state \<Rightarrow> se_state" where
  "renderGate hydrating s =
     (let hasKey = (useAdminKey hydrating s \<noteq> None); s1 = s\<lparr>se_gate := Some hasKey\<rparr> in
      if se_gate s \<noteq> Some hasKey then gateEffect s1 else s1)"

text \<open>The dashboard is drawn by a layout that is mounted and has a key; else an empty page.\<close>

definition drawn :: "se_state \<Rightarrow> bool" where
  "drawn s \<longleftrightarrow> se_gate s = Some True"

text \<open>A page load: scripts start anew. A dashboard route renders with the server's snapshot and again once
  hydrated, unless the effect has left for the login page.\<close>

definition loadPage :: "jstr \<Rightarrow> se_state \<Rightarrow> se_state" where
  "loadPage path s =
     (let s0 = loginBlank (s\<lparr>se_path := path, se_gate := None, se_replace := [], se_tasks := []\<rparr>) in
      if path = LOGIN then s0
      else (let s1 = renderGate True s0 in if se_gate s1 = None then s1 else renderGate False s1))"

text \<open>A navigation inside the application: the layout stays mounted between dashboard routes.\<close>

definition goTo :: "jstr \<Rightarrow> se_state \<Rightarrow> se_state" where
  "goTo path s =
     (if path = LOGIN then loginBlank (s\<lparr>se_path := path, se_gate := None\<rparr>)
      else renderGate False (s\<lparr>se_path := path, se_replace := (if path = se_path s then se_replace s else [])\<rparr>))"

section \<open>The login page\<close>

text \<open>\<open>required\<close> refuses an empty box and the button is disabled while a check runs.\<close>

definition loginReady :: "se_state \<Rightarrow> bool" where
  "loginReady s \<longleftrightarrow> se_path s = LOGIN \<and> se_key s \<noteq> [] \<and> \<not> se_pending s"

definition onSubmit :: "jstr \<Rightarrow> se_state \<Rightarrow> se_state" where
  "onSubmit base s =
     (let st = setAdminKey (se_storage s) (trim (se_key s)) in
      s\<lparr>se_pending := True, se_error := [], se_storage := st, se_tasks := se_tasks s @ [LoginTask],
        se_sent := se_sent s @ [apiRequest base (Some st) (js ''/stats'') getInit], se_typed := se_typed s @ [se_key s], se_blank := False\<rparr>)"

definition loginError :: "failure \<Rightarrow> jstr" where
  "loginError err = (case err of
     ApiErr e \<Rightarrow> if err_status e = 429 then js ''Too many failed attempts. Try again shortly.'' else js ''That admin key was not accepted.''
   | OtherErr _ \<Rightarrow> js ''That admin key was not accepted.'')"

definition loginAnswer :: "failure option \<Rightarrow> se_state \<Rightarrow> se_state" where
  "loginAnswer ans s =
     (let s1 = s\<lparr>se_tasks := [], se_pending := False\<rparr> in
      case ans of None \<Rightarrow> goTo (js ''/'') s1 | Some err \<Rightarrow> s1\<lparr>se_error := loginError err\<rparr>)"

definition loginButton :: "se_state \<Rightarrow> jstr \<times> bool" where
  "loginButton s = (if se_pending s then js ''Checking'' @ [0x2026] else js ''Open dashboard'', se_pending s)"

section \<open>Settings and sign-out\<close>

definition keyPrefix :: "jstr option \<Rightarrow> jstr" where
  "keyPrefix current = (let k = orElse current [] in if k \<noteq> [] then take 12 k @ [0x2026] else js ''Not set'')"

text \<open>\<open>router.refresh()\<close> renders the layout again.\<close>

definition saveKey :: "se_state \<Rightarrow> se_state" where
  "saveKey s = renderGate False (s\<lparr>se_storage := setAdminKey (se_storage s) (trim (se_replace s)), se_replace := [],
     se_typed := se_typed s @ [se_replace s], se_blank := (trim (se_replace s) = [])\<rparr>)"

definition signOut :: "se_state \<Rightarrow> se_state" where
  "signOut s = goTo LOGIN (s\<lparr>se_storage := clearAdminKey (se_storage s), se_blank := False\<rparr>)"

section \<open>Navigation\<close>

text \<open>The sidebar: address, name, whether it is the current one.\<close>

definition sidebarItems :: "jstr \<Rightarrow> (jstr \<times> jstr \<times> bool) list" where
  "sidebarItems pathname =
     [(js ''/'', js ''Overview'', pathname = js ''/''),
      (js ''/upstreams/'', js ''Upstreams'', startsWith pathname (js ''/upstreams'')),
      (js ''/groups/'', js ''Groups'', startsWith pathname (js ''/groups'')),
      (js ''/virtual-keys/'', js ''Virtual keys'', startsWith pathname (js ''/virtual-keys'')),
      (js ''/logs/'', js ''Logs'', startsWith pathname (js ''/logs'')),
      (js ''/settings/'', js ''Settings'', startsWith pathname (js ''/settings''))]"

section \<open>Steps\<close>

definition sessionBlank :: "storage \<Rightarrow> se_state" where
  "sessionBlank st = \<lparr>se_storage = st, se_path = LOGIN, se_gate = None, se_key = [], se_error = [], se_pending = False, se_replace = [],
     se_tasks = [], se_sent = [], se_typed = [], se_blank = False\<rparr>"

definition pageRequest :: "jstr \<Rightarrow> jstr \<times> request_init \<Rightarrow> se_state \<Rightarrow> se_state" where
  "pageRequest base r s = s\<lparr>se_sent := se_sent s @ [apiRequest base (Some (se_storage s)) (fst r) (snd r)]\<rparr>"

text \<open>A new tab has empty session storage. No caller of \<open>api\<close> sets headers of its own.\<close>

inductive se_reach :: "jstr \<Rightarrow> se_state \<Rightarrow> bool" for base where
  se_started: "se_reach base (loadPage path (sessionBlank Map.empty))"
| se_loaded: "se_reach base s \<Longrightarrow> se_reach base (loadPage path s)"
| se_moved: "se_reach base s \<Longrightarrow> drawn s \<Longrightarrow> path \<noteq> LOGIN \<Longrightarrow> se_reach base (goTo path s)"
| se_typing: "se_reach base s \<Longrightarrow> se_path s = LOGIN \<Longrightarrow> se_reach base (s\<lparr>se_key := v\<rparr>)"
| se_submitted: "se_reach base s \<Longrightarrow> loginReady s \<Longrightarrow> se_reach base (onSubmit base s)"
| se_answered: "se_reach base s \<Longrightarrow> se_tasks s \<noteq> [] \<Longrightarrow> se_reach base (loginAnswer ans s)"
| se_replacing: "se_reach base s \<Longrightarrow> drawn s \<Longrightarrow> se_reach base (s\<lparr>se_replace := v\<rparr>)"
| se_saved: "se_reach base s \<Longrightarrow> drawn s \<Longrightarrow> se_path s = js ''/settings/'' \<Longrightarrow> se_reach base (saveKey s)"
| se_left: "se_reach base s \<Longrightarrow> drawn s \<Longrightarrow> se_reach base (signOut s)"
| se_asked: "se_reach base s \<Longrightarrow> ri_headers (snd r) = Map.empty \<Longrightarrow> se_reach base (pageRequest base r s)"

section \<open>The gate holds\<close>

lemma storage_key [simp]:
  "getAdminKey (Some (setAdminKey st k)) = Some k" "getAdminKey (Some (clearAdminKey st)) = None"
  by (simp_all add: getAdminKey_def setAdminKey_def clearAdminKey_def)

definition gate_inv :: "se_state \<Rightarrow> bool" where
  "gate_inv s \<longleftrightarrow>
     (if se_path s = LOGIN then se_gate s = None
      else drawn s \<and> se_tasks s = [] \<and> (\<exists>k. storedKey_of s = Some k \<and> (k \<noteq> [] \<or> se_blank s)))"

definition login_inv :: "se_state \<Rightarrow> bool" where
  "login_inv s \<longleftrightarrow> length (se_tasks s) \<le> 1 \<and> se_pending s = (se_tasks s \<noteq> []) \<and> (se_pending s \<longrightarrow> se_path s = LOGIN)"

lemma LOGIN_other [simp]: "js ''/'' \<noteq> LOGIN" "js ''/settings/'' \<noteq> LOGIN"
  by (simp_all add: LOGIN_def)

lemma orElse_ne: "orElse x [] \<noteq> [] \<longleftrightarrow> (\<exists>k. x = Some k \<and> k \<noteq> [])"
  by (cases x) simp_all

text \<open>Rendering the layout on a dashboard route with no sign-in under way gives a state the gate admits.\<close>

lemma renderGate_fresh:
  assumes "se_gate s = None" "se_path s \<noteq> LOGIN" "se_tasks s = []" "\<not> se_pending s"
  shows "gate_inv (renderGate False s)" "login_inv (renderGate False s)"
  using assms by (auto simp: renderGate_def gateEffect_def gate_inv_def login_inv_def drawn_def useAdminKey_def loginBlank_def storedKey_of_def orElse_ne Let_def)

lemma renderGate_again:
  assumes "drawn s" "storedKey_of s = Some k"
  shows "renderGate False s = s"
  using assms by (simp add: renderGate_def drawn_def useAdminKey_def Let_def)

lemma loadPage_inv: "gate_inv (loadPage path s)" "login_inv (loadPage path s)"
  by (auto simp: loadPage_def renderGate_def gateEffect_def gate_inv_def login_inv_def drawn_def useAdminKey_def loginBlank_def storedKey_of_def orElse_ne Let_def)

lemma gate_inv_drawn: "gate_inv s \<Longrightarrow> drawn s \<Longrightarrow> se_path s \<noteq> LOGIN \<and> se_tasks s = [] \<and> (\<exists>k. storedKey_of s = Some k \<and> (k \<noteq> [] \<or> se_blank s))"
  by (auto simp: gate_inv_def drawn_def split: if_splits)

lemma drawn_update:
  assumes "gate_inv s" "login_inv s" "drawn s" "path \<noteq> LOGIN"
  shows "gate_inv (goTo path s)" "login_inv (goTo path s)"
proof -
  let ?t = "s\<lparr>se_path := path, se_replace := (if path = se_path s then se_replace s else [])\<rparr>"
  obtain k where k: "storedKey_of s = Some k" "k \<noteq> [] \<or> se_blank s" "se_tasks s = []" using gate_inv_drawn [OF assms(1,3)] by blast
  then have "goTo path s = ?t" using assms(3,4) renderGate_again [of ?t k] by (simp add: goTo_def drawn_def storedKey_of_def)
  with k assms show "gate_inv (goTo path s)" "login_inv (goTo path s)"
    by (auto simp: gate_inv_def login_inv_def drawn_def storedKey_of_def)
qed

lemma saveKey_inv:
  assumes "login_inv s" "gate_inv s" "drawn s"
  shows "gate_inv (saveKey s)" "login_inv (saveKey s)"
proof -
  let ?t = "s\<lparr>se_storage := setAdminKey (se_storage s) (trim (se_replace s)), se_replace := [], se_typed := se_typed s @ [se_replace s], se_blank := (trim (se_replace s) = [])\<rparr>"
  have "saveKey s = ?t" using renderGate_again [of ?t "trim (se_replace s)"] assms(3) by (simp add: saveKey_def drawn_def storedKey_of_def)
  with assms show "gate_inv (saveKey s)" "login_inv (saveKey s)"
    by (auto simp: gate_inv_def login_inv_def drawn_def storedKey_of_def split: if_splits)
qed

lemma se_reach_inv: "se_reach base s \<Longrightarrow> gate_inv s \<and> login_inv s"
proof (induction rule: se_reach.induct)
  case (se_moved s path) then show ?case using drawn_update by blast
next
  case (se_answered s ans)
  then have "se_path s = LOGIN" "se_gate s = None" by (auto simp: gate_inv_def login_inv_def)
  then show ?case
    using renderGate_fresh [of "s\<lparr>se_tasks := [], se_pending := False, se_path := js ''/'', se_replace := []\<rparr>"] LOGIN_other(1)
    by (auto simp: loginAnswer_def goTo_def gate_inv_def login_inv_def Let_def split: option.splits)
next
  case (se_saved s) then show ?case using saveKey_inv by blast
qed (auto simp: loadPage_inv, auto simp: gate_inv_def login_inv_def onSubmit_def loginReady_def drawn_def storedKey_of_def signOut_def goTo_def loginBlank_def
    pageRequest_def Let_def split: if_splits)

section \<open>Requests carry the stored key\<close>

lemma apiRequest_auth:
  assumes "ri_headers init = Map.empty"
  shows "rq_headers (apiRequest base st path init) (js ''authorization'') =
     (let k = orElse (getAdminKey st) [] in if k \<noteq> [] then Some (js ''Bearer '' @ k) else None)"
  using assms by (simp add: apiRequest_def Let_def)

definition key_inv :: "se_state \<Rightarrow> bool" where
  "key_inv s \<longleftrightarrow> (\<forall>k. storedKey_of s = Some k \<longrightarrow> k \<in> trim ` set (se_typed s)) \<and>
     (\<forall>rq \<in> set (se_sent s). \<forall>v. rq_headers rq (js ''authorization'') = Some v \<longrightarrow> (\<exists>k \<in> trim ` set (se_typed s). k \<noteq> [] \<and> v = js ''Bearer '' @ k))"

lemma renderGate_keeps [simp]:
  "se_storage (renderGate h s) = se_storage s" "se_sent (renderGate h s) = se_sent s" "se_typed (renderGate h s) = se_typed s"
  by (simp_all add: renderGate_def gateEffect_def loginBlank_def Let_def)

lemma loads_keep [simp]:
  "se_storage (loadPage p s) = se_storage s" "se_sent (loadPage p s) = se_sent s" "se_typed (loadPage p s) = se_typed s"
  "se_storage (goTo p s) = se_storage s" "se_sent (goTo p s) = se_sent s" "se_typed (goTo p s) = se_typed s"
  "se_storage (loginAnswer a s) = se_storage s" "se_sent (loginAnswer a s) = se_sent s" "se_typed (loginAnswer a s) = se_typed s"
  by (simp_all add: loadPage_def goTo_def loginAnswer_def loginBlank_def Let_def split: option.splits)

lemma key_inv_cong: "se_storage t = se_storage s \<Longrightarrow> se_sent t = se_sent s \<Longrightarrow> se_typed t = se_typed s \<Longrightarrow> key_inv t = key_inv s"
  by (simp add: key_inv_def storedKey_of_def)

lemma getInit_headers [simp]: "ri_headers getInit = Map.empty"
  by (simp add: getInit_def)

lemma se_reach_key: "se_reach base s \<Longrightarrow> key_inv s"
proof (induction rule: se_reach.induct)
  case (se_started path) show ?case by (simp add: key_inv_def storedKey_of_def sessionBlank_def getAdminKey_def)
next
  case (se_submitted s) then show ?case
    by (auto simp: key_inv_def storedKey_of_def onSubmit_def apiRequest_auth Let_def)
next
  case (se_saved s) then show ?case by (auto simp: key_inv_def storedKey_of_def saveKey_def)
next
  case (se_left s) then show ?case by (auto simp: key_inv_def storedKey_of_def signOut_def)
next
  case (se_asked s r) then show ?case
    by (cases "storedKey_of s") (auto simp: key_inv_def storedKey_of_def pageRequest_def apiRequest_auth Let_def split: if_splits)
qed (simp_all cong: key_inv_cong add: key_inv_def storedKey_of_def)

section \<open>Sign-in, sign-out, blanks\<close>

text \<open>A failed sign-in is told, opens the button again and stays on the login page; the key stays stored, so the gate lets
  the next page load in with it.\<close>

lemma login_failure_told:
  "let t = loginAnswer (Some err) s in se_error t \<noteq> [] \<and> \<not> se_pending t \<and> se_path t = se_path s \<and> storedKey_of t = storedKey_of s"
  by (cases err) (simp_all add: loginAnswer_def loginError_def storedKey_of_def Let_def)

lemma login_answer_opens:
  assumes "se_reach base s" "se_tasks s \<noteq> []"
  shows "drawn (loginAnswer None s) \<longleftrightarrow> orElse (storedKey_of s) [] \<noteq> []"
proof -
  have "se_gate s = None" using se_reach_inv [OF assms(1)] assms(2) by (auto simp: gate_inv_def login_inv_def)
  then show ?thesis
    by (auto simp: loginAnswer_def goTo_def renderGate_def gateEffect_def drawn_def useAdminKey_def loginBlank_def storedKey_of_def orElse_ne Let_def)
qed

lemma signOut_closes: "\<not> drawn (signOut s)" "storedKey_of (signOut s) = None" "se_path (signOut s) = LOGIN"
  by (simp_all add: signOut_def goTo_def drawn_def loginBlank_def storedKey_of_def)

text \<open>Without a key, or with an empty one, every page load ends at the login page.\<close>

lemma load_without_key:
  assumes "orElse (storedKey_of s) [] = []"
  shows "se_path (loadPage path s) = LOGIN" "\<not> drawn (loadPage path s)"
  using assms by (auto simp: loadPage_def renderGate_def gateEffect_def drawn_def useAdminKey_def loginBlank_def storedKey_of_def Let_def)

text \<open>Settings with an empty box: the dashboard stays up, unsigned, and says the key is not set.\<close>

lemma blank_save_stays:
  assumes "drawn s" "trim (se_replace s) = []"
  shows "drawn (saveKey s)" "se_path (saveKey s) = se_path s" "storedKey_of (saveKey s) = Some []" "keyPrefix (storedKey_of (saveKey s)) = js ''Not set''"
  using assms by (simp_all add: saveKey_def renderGate_def drawn_def useAdminKey_def storedKey_of_def keyPrefix_def Let_def)

text \<open>Settings shows at most twelve units of the key.\<close>

lemma keyPrefix_short: "length (keyPrefix cur) \<le> 13 \<and> (keyPrefix cur = js ''Not set'' \<or> (\<exists>k. cur = Some k \<and> butlast (keyPrefix cur) = take 12 k))"
  by (cases cur) (auto simp: keyPrefix_def butlast_append Let_def)

lemma startsWith_both: "startsWith s p \<Longrightarrow> startsWith s q \<Longrightarrow> startsWith p q \<or> startsWith q p"
  by (auto simp: startsWith_iff append_eq_append_conv2)

lemma filter_at_most_one:
  assumes "distinct xs" "\<And>a b. a \<in> set xs \<Longrightarrow> b \<in> set xs \<Longrightarrow> P a \<Longrightarrow> P b \<Longrightarrow> a = b"
  shows "length (filter P xs) \<le> 1"
proof -
  have "set (filter P xs) = {} \<or> (\<exists>a. set (filter P xs) = {a})" using assms(2) by (auto simp: set_eq_iff) metis
  then have "card (set (filter P xs)) \<le> 1" by (metis One_nat_def card.empty is_singletonI is_singleton_altdef le_refl zero_le)
  then show ?thesis using distinct_card [OF distinct_filter [OF assms(1), of P]] by metis
qed

definition SECTIONS :: "jstr list" where
  "SECTIONS = [js ''/upstreams'', js ''/groups'', js ''/virtual-keys'', js ''/logs'', js ''/settings'']"

lemma sections_apart: "\<forall>a \<in> set SECTIONS. \<forall>b \<in> set SECTIONS. startsWith a b \<longrightarrow> a = b" "distinct SECTIONS" "\<forall>a \<in> set SECTIONS. \<not> startsWith (js ''/'') a"
  by code_simp+

lemma length_filter_Cons: "length (filter P (x # xs)) = (if P x then 1 else 0) + length (filter P xs)"
  by simp

lemma sidebar_counts: "length (filter (\<lambda>(_, _, cur). cur) (sidebarItems p)) = (if p = js ''/'' then 1 else 0) + length (filter (startsWith p) SECTIONS)"
  by (simp only: sidebarItems_def SECTIONS_def length_filter_Cons prod.case filter.simps(1) list.size(3))

lemma sidebar_one: "length (filter (\<lambda>(_, _, cur). cur) (sidebarItems p)) \<le> 1"
proof (cases "p = js ''/''")
  case True
  then have "filter (startsWith p) SECTIONS = []" using sections_apart(3) by (simp add: filter_empty_conv)
  with True show ?thesis by (simp add: sidebar_counts)
next
  case False
  have "length (filter (startsWith p) SECTIONS) \<le> 1"
    by (rule filter_at_most_one [OF sections_apart(2)]) (use sections_apart(1) startsWith_both in blast)
  with False show ?thesis by (simp add: sidebar_counts)
qed

section \<open>A sign-in\<close>

definition typedIn :: "jstr \<Rightarrow> se_state" where
  "typedIn k = (loadPage (js ''/'') (sessionBlank Map.empty))\<lparr>se_key := k\<rparr>"

definition signedIn :: "jstr \<Rightarrow> jstr \<Rightarrow> se_state" where
  "signedIn base k = loginAnswer None (onSubmit base (typedIn k))"

lemma typedIn_ready: "k \<noteq> [] \<Longrightarrow> se_reach base (typedIn k) \<and> loginReady (typedIn k)"
proof -
  have "se_path (loadPage (js ''/'') (sessionBlank Map.empty)) = LOGIN"
    by (rule load_without_key) (simp add: storedKey_of_def sessionBlank_def getAdminKey_def)
  moreover have "\<not> se_pending (loadPage (js ''/'') (sessionBlank Map.empty))"
    using loadPage_inv [of "js ''/''" "sessionBlank Map.empty"]
    by (auto simp: login_inv_def loadPage_def renderGate_def gateEffect_def loginBlank_def sessionBlank_def Let_def)
  ultimately show "k \<noteq> [] \<Longrightarrow> ?thesis"
    by (simp add: typedIn_def loginReady_def se_reach.se_typing se_reach.se_started)
qed

lemma signedIn_drawn:
  assumes "trim k \<noteq> []"
  shows "se_reach base (signedIn base k)" "drawn (signedIn base k)"
    and "apiRequest base (Some (setAdminKey (se_storage (typedIn k)) (trim k))) (js ''/stats'') getInit \<in> set (se_sent (signedIn base k))"
proof -
  have "k \<noteq> []" using assms by (auto simp: trim_def dropEndWhile_def)
  then have r: "se_reach base (onSubmit base (typedIn k))" using typedIn_ready [of k base] by (simp add: se_reach.se_submitted)
  have t: "se_tasks (onSubmit base (typedIn k)) \<noteq> []" by (simp add: onSubmit_def Let_def)
  show "se_reach base (signedIn base k)" unfolding signedIn_def by (rule se_reach.se_answered [OF r t])
  show "drawn (signedIn base k)" unfolding signedIn_def login_answer_opens [OF r t]
    using assms by (simp add: storedKey_of_def onSubmit_def typedIn_def Let_def)
  show "apiRequest base (Some (setAdminKey (se_storage (typedIn k)) (trim k))) (js ''/stats'') getInit \<in> set (se_sent (signedIn base k))"
    by (simp add: signedIn_def onSubmit_def typedIn_def Let_def)
qed

section \<open>Properties\<close>



text \<open>
  Claim C40: every request of a browser session that carries an Authorization header carries a key
  the operator typed into the login page or Settings, trimmed and not empty; every stored key was
  typed, and signing out leaves none.
\<close>

theorem requests_carry_the_typed_key:
  assumes "se_reach base s"
  shows "(\<forall>rq \<in> set (se_sent s). \<forall>v. rq_headers rq (js ''authorization'') = Some v \<longrightarrow>
       (\<exists>t \<in> set (se_typed s). trim t \<noteq> [] \<and> v = js ''Bearer '' @ trim t)) \<and>
     (\<forall>k. getAdminKey (Some (se_storage s)) = Some k \<longrightarrow> (\<exists>t \<in> set (se_typed s). k = trim t)) \<and>
     getAdminKey (Some (se_storage (signOut s))) = None"
  using se_reach_key [OF assms] signOut_closes(2) [of s] unfolding key_inv_def storedKey_of_def by blast

theorem requests_carry_the_typed_key_witness:
  "\<exists>s :: se_state. (\<exists>rq \<in> set (se_sent s). rq_headers rq (js ''authorization'') \<noteq> None) \<and> getAdminKey (Some (se_storage (signOut s))) = None"
proof -
  have k: "trim (js ''k'') \<noteq> []" by code_simp
  note r = signedIn_drawn [OF k, of "[]"]
  let ?rq = "apiRequest [] (Some (setAdminKey (se_storage (typedIn (js ''k''))) (trim (js ''k'')))) (js ''/stats'') getInit"
  have "rq_headers ?rq (js ''authorization'') \<noteq> None" using k by (simp add: apiRequest_auth Let_def)
  then show ?thesis using requests_carry_the_typed_key [OF r(1)] r(3) by blast
qed

end
