(* ===== verification/SearchParams.thy ===== *)
theory SearchParams
  imports Prelude
begin

text \<open>
  \<open>URLSearchParams\<close> as \<open>web/src/lib/logs-view.ts\<close> uses it: \<open>set\<close>, \<open>toString\<close> and the constructor on
  a query string.

  The serializer writes application/x-www-form-urlencoded text over the UTF-8 bytes of each name
  and value; the parser is the URL Standard's, with its UTF-8 decoder and the replacement of
  malformed bytes. The lemma that matters is the round trip: for strings without lone
  surrogates, parsing what was printed gives the list back, so no value can spill into another
  parameter.
\<close>

type_synonym params = "(jstr \<times> jstr) list"

fun spSet :: "jstr \<Rightarrow> jstr \<Rightarrow> params \<Rightarrow> params" where
  "spSet k v [] = [(k, v)]"
| "spSet k v ((k', w) # ps) = (if k = k' then (k, v) # filter (\<lambda>p. fst p \<noteq> k) ps else (k', w) # spSet k v ps)"

definition spGet :: "jstr \<Rightarrow> params \<Rightarrow> jstr option" where
  "spGet k ps = map_of ps k"

section \<open>UTF-8\<close>

text \<open>The scalar value of a code point's units; a lone surrogate is read as U+FFFD.\<close>

definition scalarOf :: "jstr \<Rightarrow> nat" where
  "scalarOf p = (case p of [c] \<Rightarrow> (if isHighSurrogate c \<or> isLowSurrogate c then 0xfffd else unat c)
     | [h, l] \<Rightarrow> 0x10000 + (unat h - 0xd800) * 1024 + (unat l - 0xdc00) | _ \<Rightarrow> 0xfffd)"

definition scalars :: "jstr \<Rightarrow> nat list" where
  "scalars s = map scalarOf (codePoints s)"

definition unitsOf :: "nat \<Rightarrow> jstr" where
  "unitsOf n = (if n < 0x10000 then [of_nat n]
     else [of_nat (0xd800 + (n - 0x10000) div 1024), of_nat (0xdc00 + (n - 0x10000) mod 1024)])"

definition utf8Encode :: "nat \<Rightarrow> nat list" where
  "utf8Encode n =
     (if n < 0x80 then [n]
      else if n < 0x800 then [0xc0 + n div 64, 0x80 + n mod 64]
      else if n < 0x10000 then [0xe0 + n div 4096, 0x80 + n div 64 mod 64, 0x80 + n mod 64]
      else [0xf0 + n div 262144, 0x80 + n div 4096 mod 64, 0x80 + n div 64 mod 64, 0x80 + n mod 64])"

text \<open>The bytes a lead byte still needs: an out of range one ends the sequence and is read again.\<close>

fun takeCont :: "nat \<Rightarrow> nat \<Rightarrow> nat \<Rightarrow> nat \<Rightarrow> nat list \<Rightarrow> nat \<times> nat list" where
  "takeCont 0 lo hi acc bs = (acc, bs)"
| "takeCont (Suc k) lo hi acc [] = (0xfffd, [])"
| "takeCont (Suc k) lo hi acc (b # bs) =
     (if lo \<le> b \<and> b \<le> hi then takeCont k 0x80 0xbf (acc * 64 + (b - 0x80)) bs else (0xfffd, b # bs))"

lemma takeCont_length: "length (snd (takeCont k lo hi acc bs)) \<le> length bs"
  by (induction k lo hi acc bs rule: takeCont.induct) auto

definition leadByte :: "nat \<Rightarrow> (nat \<times> nat \<times> nat \<times> nat) option" where
  "leadByte b =
     (if 0xc2 \<le> b \<and> b \<le> 0xdf then Some (1, 0x80, 0xbf, b - 0xc0)
      else if 0xe0 \<le> b \<and> b \<le> 0xef then
        Some (2, if b = 0xe0 then 0xa0 else 0x80, if b = 0xed then 0x9f else 0xbf, b - 0xe0)
      else if 0xf0 \<le> b \<and> b \<le> 0xf4 then
        Some (3, if b = 0xf0 then 0x90 else 0x80, if b = 0xf4 then 0x8f else 0xbf, b - 0xf0)
      else None)"

function utf8Decode :: "nat list \<Rightarrow> nat list" where
  "utf8Decode [] = []"
| "utf8Decode (b # bs) =
     (if b < 0x80 then b # utf8Decode bs
      else (case leadByte b of
              None \<Rightarrow> 0xfffd # utf8Decode bs
            | Some (k, lo, hi, acc) \<Rightarrow> fst (takeCont k lo hi acc bs) # utf8Decode (snd (takeCont k lo hi acc bs))))"
  by pat_completeness auto

termination
  by (relation "measure length") (auto simp: le_imp_less_Suc takeCont_length)

section \<open>Form encoding\<close>

definition hexUpper :: "nat \<Rightarrow> jchar" where
  "hexUpper d = (if d < 10 then of_nat (48 + d) else of_nat (55 + d))"

definition hexVal :: "nat \<Rightarrow> nat option" where
  "hexVal c = (if 48 \<le> c \<and> c \<le> 57 then Some (c - 48) else if 65 \<le> c \<and> c \<le> 70 then Some (c - 55)
     else if 97 \<le> c \<and> c \<le> 102 then Some (c - 87) else None)"

definition keptByte :: "nat \<Rightarrow> bool" where
  "keptByte b \<longleftrightarrow> (48 \<le> b \<and> b \<le> 57) \<or> (65 \<le> b \<and> b \<le> 90) \<or> (97 \<le> b \<and> b \<le> 122) \<or> b \<in> {42, 45, 46, 95}"

definition formByte :: "nat \<Rightarrow> jstr" where
  "formByte b = (if b = 32 then [0x2b] else if keptByte b then [of_nat b] else [0x25, hexUpper (b div 16), hexUpper (b mod 16)])"

definition formEncode :: "jstr \<Rightarrow> jstr" where
  "formEncode s = concat (map formByte (concat (map utf8Encode (scalars s))))"

definition spString :: "params \<Rightarrow> jstr" where
  "spString ps = joinWith (js ''&'') (map (\<lambda>(k, v). formEncode k @ js ''='' @ formEncode v) ps)"

fun percentDecode :: "nat list \<Rightarrow> nat list" where
  "percentDecode (c # a # b # bs) =
     (case (c = 37, hexVal a, hexVal b) of
        (True, Some x, Some y) \<Rightarrow> (16 * x + y) # percentDecode bs
      | _ \<Rightarrow> c # percentDecode (a # b # bs))"
| "percentDecode bs = bs"

definition formDecode :: "nat list \<Rightarrow> jstr" where
  "formDecode bs = concat (map unitsOf (utf8Decode (percentDecode (map (\<lambda>b. if b = 43 then 32 else b) bs))))"

fun splitOn :: "nat \<Rightarrow> nat list \<Rightarrow> nat list list" where
  "splitOn d [] = [[]]"
| "splitOn d (b # bs) = (if b = d then [] # splitOn d bs
     else (case splitOn d bs of p # ps \<Rightarrow> (b # p) # ps | [] \<Rightarrow> [[b]]))"

definition parsePair :: "nat list \<Rightarrow> jstr \<times> jstr" where
  "parsePair p = (formDecode (takeWhile (\<lambda>b. b \<noteq> 61) p), formDecode (drop 1 (dropWhile (\<lambda>b. b \<noteq> 61) p)))"

text \<open>\<open>new URLSearchParams(text)\<close>.\<close>

definition spParse :: "jstr \<Rightarrow> params" where
  "spParse t =
     (let u = (case t of c # cs \<Rightarrow> if c = 0x3f then cs else t | [] \<Rightarrow> []);
          bytes = concat (map utf8Encode (scalars u))
      in map parsePair (filter (\<lambda>p. p \<noteq> []) (splitOn 38 bytes)))"

section \<open>Round trip\<close>

text \<open>No lone surrogate: every code point is one plain unit or a pair.\<close>

definition wellFormed :: "jstr \<Rightarrow> bool" where
  "wellFormed s \<longleftrightarrow> list_all (\<lambda>p. case p of [c] \<Rightarrow> \<not> isHighSurrogate c \<and> \<not> isLowSurrogate c | _ \<Rightarrow> True) (codePoints s)"

definition isScalar :: "nat \<Rightarrow> bool" where
  "isScalar n \<longleftrightarrow> n < 0xd800 \<or> (0xe000 \<le> n \<and> n < 0x110000)"

lemma codePoints_shape:
  "p \<in> set (codePoints s) \<Longrightarrow> (\<exists>c. p = [c]) \<or> (\<exists>h l. p = [h, l] \<and> isHighSurrogate h \<and> isLowSurrogate l)"
  by (induction s rule: codePoints.induct) (auto split: if_splits)

lemma surrogate_nat:
  "isHighSurrogate c \<longleftrightarrow> 0xd800 \<le> unat c \<and> unat c \<le> 0xdbff" "isLowSurrogate c \<longleftrightarrow> 0xdc00 \<le> unat c \<and> unat c \<le> 0xdfff"
  by (simp_all add: isHighSurrogate_def isLowSurrogate_def word_le_nat_alt)

lemma unat_bound: "unat (c :: jchar) < 0x10000"
  using unsigned_less [where ?'a = nat, of c] by simp

lemma scalarOf_scalar:
  assumes "(\<exists>c. p = [c]) \<or> (\<exists>h l. p = [h, l] \<and> isHighSurrogate h \<and> isLowSurrogate l)"
  shows "isScalar (scalarOf p)"
  using assms
proof (elim disjE exE conjE)
  fix c assume "p = [c]"
  then show ?thesis using unat_bound [of c] by (auto simp: scalarOf_def isScalar_def surrogate_nat)
next
  fix h l assume "p = [h, l]" "isHighSurrogate h" "isLowSurrogate l"
  then show ?thesis by (auto simp: scalarOf_def isScalar_def surrogate_nat)
qed

lemma unitsOf_scalarOf:
  assumes "p = [c] \<and> \<not> isHighSurrogate c \<and> \<not> isLowSurrogate c \<or> p = [h, l] \<and> isHighSurrogate h \<and> isLowSurrogate l"
  shows "unitsOf (scalarOf p) = p"
  using assms
proof
  assume "p = [c] \<and> \<not> isHighSurrogate c \<and> \<not> isLowSurrogate c"
  then show ?thesis using unat_bound [of c] by (simp add: scalarOf_def unitsOf_def)
next
  assume p: "p = [h, l] \<and> isHighSurrogate h \<and> isLowSurrogate l"
  then have b: "0xd800 \<le> unat h" "unat h \<le> 0xdbff" "0xdc00 \<le> unat l" "unat l \<le> 0xdfff" by (auto simp: surrogate_nat)
  define hh ll n where "hh = unat h - 0xd800" and "ll = unat l - 0xdc00" and "n = hh * 1024 + ll"
  have "scalarOf p = 0x10000 + n" using p by (simp add: scalarOf_def n_def hh_def ll_def)
  moreover have "ll < 1024" using b by (simp add: ll_def)
  then have "n div 1024 = hh" "n mod 1024 = ll" by (simp_all add: n_def)
  then have "n div 1024 = unat h - 0xd800" "n mod 1024 = unat l - 0xdc00" by (simp_all add: hh_def ll_def)
  moreover have "of_nat (0xd800 + (unat h - 0xd800)) = h" "of_nat (0xdc00 + (unat l - 0xdc00)) = l"
    using b by (simp_all only: le_add_diff_inverse) simp_all
  ultimately show ?thesis using p by (simp add: unitsOf_def)
qed

lemma units_scalars:
  assumes "wellFormed s"
  shows "concat (map unitsOf (scalars s)) = s"
proof -
  have "unitsOf (scalarOf p) = p" if "p \<in> set (codePoints s)" for p
    using codePoints_shape [OF that] assms that unitsOf_scalarOf [of p] by (auto simp: wellFormed_def list_all_iff)
  then have "map unitsOf (scalars s) = codePoints s" by (simp add: scalars_def map_idI)
  then show ?thesis by simp
qed

lemma scalars_scalar: "n \<in> set (scalars s) \<Longrightarrow> isScalar n"
  by (auto simp: scalars_def dest!: codePoints_shape intro: scalarOf_scalar)

lemma takeCont_next: "lo \<le> b \<Longrightarrow> b \<le> hi \<Longrightarrow> takeCont (Suc k) lo hi acc (b # bs) = takeCont k 0x80 0xbf (acc * 64 + (b - 0x80)) bs"
  by simp

lemma decode_encode2: "0x80 \<le> n \<Longrightarrow> n < 0x800 \<Longrightarrow> utf8Decode (utf8Encode n @ bs) = n # utf8Decode bs"
proof -
  assume n: "0x80 \<le> n" "n < 0x800"
  define a b where "a = n div 64" and "b = n mod 64"
  have ab: "n = a * 64 + b" "b < 64" "2 \<le> a" "a < 32" using n by (auto simp: a_def b_def)
  have "utf8Encode n @ bs = (0xc0 + a) # (0x80 + b) # bs" using n by (simp add: utf8Encode_def a_def b_def)
  moreover have "leadByte (0xc0 + a) = Some (1, 0x80, 0xbf, a)" using ab by (simp add: leadByte_def)
  ultimately show ?thesis using ab by simp
qed

lemma decode_encode3:
  assumes n: "0x800 \<le> n" "n < 0x10000" "isScalar n"
  shows "utf8Decode (utf8Encode n @ bs) = n # utf8Decode bs"
proof -
  define a b c where "a = n div 4096" and "b = n div 64 mod 64" and "c = n mod 64"
  have "n div 4096 = n div 64 div 64" by (simp add: div_mult2_eq [symmetric])
  then have d: "n div 64 = a * 64 + b" using div_mult_mod_eq [of "n div 64" 64] by (simp add: a_def b_def)
  have e: "n = (a * 64 + b) * 64 + c" unfolding d [symmetric] c_def by simp
  have r: "b < 64" "c < 64" "a < 16" using n by (auto simp: a_def b_def c_def)
  have lo: "32 \<le> b" if "a = 0" using n(1) r(2) e [unfolded that, simplified] by linarith
  have hi: "b < 32" if "a = 13" using n(3) r(1,2) e [unfolded that, simplified] unfolding isScalar_def by linarith
  have enc: "utf8Encode n @ bs = (0xe0 + a) # (0x80 + b) # (0x80 + c) # bs"
    using n by (simp add: utf8Encode_def a_def b_def c_def)
  have lead: "leadByte (0xe0 + a) = Some (2, if a = 0 then 0xa0 else 0x80, if a = 13 then 0x9f else 0xbf, a)"
    using r by (simp add: leadByte_def)
  have t: "takeCont 2 (if a = 0 then 0xa0 else 0x80) (if a = 13 then 0x9f else 0xbf) a ((0x80 + b) # (0x80 + c) # bs) = (n, bs)"
    using r lo hi e by (auto simp: numeral_2_eq_2)
  show ?thesis unfolding enc utf8Decode.simps(2) lead using t by simp
qed

lemma decode_encode4:
  assumes n: "0x10000 \<le> n" "n < 0x110000"
  shows "utf8Decode (utf8Encode n @ bs) = n # utf8Decode bs"
proof -
  define a b c d where "a = n div 262144" and "b = n div 4096 mod 64" and "c = n div 64 mod 64" and "d = n mod 64"
  have "n div 262144 = n div 4096 div 64" "n div 4096 = n div 64 div 64" by (simp_all add: div_mult2_eq [symmetric])
  then have e1: "n div 4096 = a * 64 + b" and e0: "n div 64 = n div 4096 * 64 + c"
    using div_mult_mod_eq [of "n div 4096" 64] div_mult_mod_eq [of "n div 64" 64] by (simp_all add: a_def b_def c_def)
  from e0 e1 have e2: "n div 64 = (a * 64 + b) * 64 + c" by simp
  have e: "n = ((a * 64 + b) * 64 + c) * 64 + d" unfolding e2 [symmetric] d_def by simp
  have r: "b < 64" "c < 64" "d < 64" "a < 5" using n by (auto simp: a_def b_def c_def d_def)
  have lo: "16 \<le> b" if "a = 0" using n(1) r(2,3) e [unfolded that, simplified] by linarith
  have hi: "b < 16" if "a = 4" using n(2) r(2,3) e [unfolded that, simplified] by linarith
  have enc: "utf8Encode n @ bs = (0xf0 + a) # (0x80 + b) # (0x80 + c) # (0x80 + d) # bs"
    using n by (simp add: utf8Encode_def a_def b_def c_def d_def)
  have lead: "leadByte (0xf0 + a) = Some (3, if a = 0 then 0x90 else 0x80, if a = 4 then 0x8f else 0xbf, a)"
    using r by (simp add: leadByte_def)
  have t: "takeCont 3 (if a = 0 then 0x90 else 0x80) (if a = 4 then 0x8f else 0xbf) a ((0x80 + b) # (0x80 + c) # (0x80 + d) # bs) = (n, bs)"
    using r lo hi e by (auto simp: numeral_3_eq_3)
  show ?thesis unfolding enc utf8Decode.simps(2) lead using t by simp
qed

lemma decode_encode: "isScalar n \<Longrightarrow> utf8Decode (utf8Encode n @ bs) = n # utf8Decode bs"
proof -
  assume s: "isScalar n"
  then have "n < 0x110000" by (auto simp: isScalar_def)
  then consider "n < 0x80" | "0x80 \<le> n" "n < 0x800" | "0x800 \<le> n" "n < 0x10000" | "0x10000 \<le> n" "n < 0x110000" by linarith
  then show ?thesis
    by cases (use s in \<open>simp_all add: decode_encode2 decode_encode3 decode_encode4\<close>, simp add: utf8Encode_def)
qed

lemma utf8_round_trip: "\<forall>n \<in> set ns. isScalar n \<Longrightarrow> utf8Decode (concat (map utf8Encode ns)) = ns"
  by (induction ns) (simp_all add: decode_encode)

text \<open>Bytes survive the percent encoding.\<close>

lemma unat_small: "n < 0x10000 \<Longrightarrow> unat (of_nat n :: jchar) = n"
  by (simp add: unat_of_nat)

lemma unat_hexUpper: "d < 16 \<Longrightarrow> unat (hexUpper d) = (if d < 10 then 48 + d else 55 + d)"
  unfolding hexUpper_def by (simp only: unat_small split: if_split) simp

lemma hexVal_hexUpper: "d < 16 \<Longrightarrow> hexVal (unat (hexUpper d)) = Some d"
  by (simp add: hexVal_def unat_hexUpper)

lemma utf8Encode_byte: "isScalar n \<Longrightarrow> b \<in> set (utf8Encode n) \<Longrightarrow> b < 256"
  by (auto simp: utf8Encode_def isScalar_def split: if_splits)

definition plusByte :: "nat \<Rightarrow> nat" where
  "plusByte b = (if b = 43 then 32 else b)"

lemma kept_range: "keptByte b \<Longrightarrow> b < 128 \<and> b \<notin> {37, 38, 43, 61, 63}"
  by (auto simp: keptByte_def)

lemma percentDecode_plain: "c \<noteq> 37 \<Longrightarrow> percentDecode (c # bs) = c # percentDecode bs"
  by (cases bs; cases "tl bs") auto

lemma percentDecode_formByte:
  assumes "b < 256"
  shows "percentDecode (map (plusByte \<circ> unat) (formByte b) @ bs) = b # percentDecode bs"
proof -
  consider "b = 32" | "b \<noteq> 32" "keptByte b" | "b \<noteq> 32" "\<not> keptByte b" by blast
  then show ?thesis
  proof cases
    case 1
    then show ?thesis by (simp add: formByte_def plusByte_def percentDecode_plain)
  next
    case 2
    then show ?thesis using kept_range [of b] by (simp add: formByte_def plusByte_def percentDecode_plain unat_of_nat)
  next
    case 3
    have d: "b div 16 < 16" "b mod 16 < 16" using assms by simp_all
    have "plusByte (unat (hexUpper d)) = unat (hexUpper d)" if "d < 16" for d
      using that by (simp add: plusByte_def unat_hexUpper)
    with 3 d show ?thesis by (simp add: formByte_def hexVal_hexUpper plusByte_def)
  qed
qed

lemma percentDecode_formBytes:
  "\<forall>b \<in> set bs. b < 256 \<Longrightarrow> percentDecode (map (plusByte \<circ> unat) (concat (map formByte bs))) = bs"
  by (induction bs) (simp_all add: percentDecode_formByte)

lemma formDecode_formEncode:
  assumes "wellFormed s"
  shows "formDecode (map unat (formEncode s)) = s"
proof -
  let ?bytes = "concat (map utf8Encode (scalars s))"
  have sc: "\<forall>n \<in> set (scalars s). isScalar n" by (simp add: scalars_scalar)
  then have "\<forall>b \<in> set ?bytes. b < 256" using utf8Encode_byte by fastforce
  then have "percentDecode (map (plusByte \<circ> unat) (formEncode s)) = ?bytes"
    unfolding formEncode_def by (rule percentDecode_formBytes)
  then have "formDecode (map unat (formEncode s)) = concat (map unitsOf (utf8Decode ?bytes))"
    by (simp add: formDecode_def comp_def plusByte_def)
  also have "\<dots> = s" using utf8_round_trip [OF sc] units_scalars [OF assms] by simp
  finally show ?thesis .
qed

text \<open>The characters of an encoded name or value: ASCII, and none that separates.\<close>

definition plainUnit :: "jchar \<Rightarrow> bool" where
  "plainUnit c \<longleftrightarrow> unat c < 128 \<and> unat c \<notin> {38, 61, 63}"

lemma formEncode_plain: "c \<in> set (formEncode s) \<Longrightarrow> plainUnit c"
proof -
  have "plainUnit c" if "c \<in> set (formByte b)" "b < 256" for b
  proof -
    have h: "plainUnit (hexUpper d)" if "d < 16" for d
      using that by (simp add: plainUnit_def unat_hexUpper)
    have "b div 16 < 16" "b mod 16 < 16" using that(2) by simp_all
    from h [OF this(1)] h [OF this(2)] show ?thesis
      using that(1) kept_range [of b]
      by (auto simp: formByte_def plainUnit_def unat_of_nat split: if_splits)
  qed
  moreover assume "c \<in> set (formEncode s)"
  then obtain n b where "n \<in> set (scalars s)" "b \<in> set (utf8Encode n)" "c \<in> set (formByte b)"
    by (auto simp: formEncode_def)
  ultimately show ?thesis using utf8Encode_byte [OF scalars_scalar] by blast
qed

lemma ascii_bytes: "\<forall>c \<in> set s. unat c < 128 \<Longrightarrow> concat (map utf8Encode (scalars s)) = map unat s"
proof (induction s rule: codePoints.induct)
  case (2 c)
  then show ?case by (simp add: scalars_def scalarOf_def surrogate_nat utf8Encode_def)
next
  case (3 c d cs)
  then have "\<not> isHighSurrogate c" "\<not> isLowSurrogate c" by (auto simp: surrogate_nat)
  with 3 show ?case by (simp add: scalars_def scalarOf_def utf8Encode_def)
qed (simp add: scalars_def)

lemma splitOn_none: "\<forall>b \<in> set p. b \<noteq> d \<Longrightarrow> splitOn d p = [p]"
  by (induction p) auto

lemma splitOn_sep: "\<forall>b \<in> set p. b \<noteq> d \<Longrightarrow> splitOn d (p @ d # bs) = p # splitOn d bs"
  by (induction p) auto

definition pairText :: "jstr \<times> jstr \<Rightarrow> jstr" where
  "pairText p = formEncode (fst p) @ js ''='' @ formEncode (snd p)"

lemma pairText_units: "c \<in> set (pairText p) \<Longrightarrow> unat c < 128 \<and> unat c \<notin> {38, 63}"
  by (auto simp: pairText_def js_Cons plainUnit_def dest!: formEncode_plain)

lemma spString_pairText: "spString ps = joinWith (js ''&'') (map pairText ps)"
  by (simp add: spString_def pairText_def split_beta cong: map_cong)

lemma splitOn_join:
  "ps \<noteq> [] \<Longrightarrow> splitOn 38 (map unat (joinWith (js ''&'') (map pairText ps))) = map (map unat \<circ> pairText) ps"
proof (induction ps rule: list_nonempty_induct)
  case (single p)
  have "\<forall>b \<in> set (map unat (pairText p)). b \<noteq> 38" by (auto dest: pairText_units)
  then show ?case by (simp add: splitOn_none)
next
  case (cons p ps)
  have "\<forall>b \<in> set (map unat (pairText p)). b \<noteq> 38" by (auto dest: pairText_units)
  moreover obtain q qs where "ps = q # qs" using cons(1) by (cases ps) auto
  ultimately show ?case using cons(2) splitOn_sep [of "map unat (pairText p)" 38] by (simp add: js_Cons)
qed

lemma joinWith_units:
  "c \<in> set (joinWith sep (map pairText ps)) \<Longrightarrow> c \<in> set sep \<or> (\<exists>p \<in> set ps. c \<in> set (pairText p))"
proof (induction ps)
  case (Cons p ps)
  then show ?case by (cases "map pairText ps") (auto simp: joinWith_Cons)
qed simp

lemma parsePair_pairText:
  assumes "wellFormed (fst p)" "wellFormed (snd p)"
  shows "parsePair (map unat (pairText p)) = p"
proof -
  let ?k = "map unat (formEncode (fst p))" and ?v = "map unat (formEncode (snd p))"
  have t: "map unat (pairText p) = ?k @ 61 # ?v" by (simp add: pairText_def js_Cons)
  have "\<forall>b \<in> set ?k. b \<noteq> 61" by (auto simp: plainUnit_def dest: formEncode_plain)
  then have "takeWhile (\<lambda>b. b \<noteq> 61) (?k @ 61 # ?v) = ?k" "dropWhile (\<lambda>b. b \<noteq> 61) (?k @ 61 # ?v) = 61 # ?v"
    by (simp_all add: takeWhile_append dropWhile_append)
  then show ?thesis
    unfolding parsePair_def t using assms by (simp add: formDecode_formEncode)
qed

lemma spParse_spString:
  assumes "\<forall>p \<in> set ps. wellFormed (fst p) \<and> wellFormed (snd p)"
  shows "spParse (spString ps) = ps"
proof (cases "ps = []")
  case True
  then show ?thesis by (simp add: spParse_def spString_def scalars_def)
next
  case False
  let ?t = "joinWith (js ''&'') (map pairText ps)"
  have u: "\<forall>c \<in> set ?t. unat c < 128 \<and> unat c \<noteq> 63"
    by (auto simp: js_Cons dest!: joinWith_units dest: pairText_units)
  then have "(case ?t of c # cs \<Rightarrow> if c = 0x3f then cs else ?t | [] \<Rightarrow> []) = ?t"
    by (cases ?t) auto
  moreover have "concat (map utf8Encode (scalars ?t)) = map unat ?t" using u by (simp add: ascii_bytes)
  moreover have "filter (\<lambda>p. p \<noteq> []) (map (map unat \<circ> pairText) ps) = map (map unat \<circ> pairText) ps"
    by (simp add: filter_id_conv pairText_def js_Cons)
  ultimately have "spParse ?t = map parsePair (map (map unat \<circ> pairText) ps)"
    by (simp add: spParse_def splitOn_join [OF False] del: map_map)
  also have "\<dots> = ps" using assms by (simp add: parsePair_pairText map_idI)
  finally show ?thesis by (simp add: spString_pairText)
qed

lemma spGet_spSet: "spGet k (spSet k' v ps) = (if k = k' then Some v else spGet k ps)"
proof (induction k' v ps rule: spSet.induct)
  case (2 k' v k'' w ps)
  have "map_of (filter (\<lambda>p. fst p \<noteq> k') ps) k = map_of ps k" if "k \<noteq> k'" for ps :: params
    using that by (induction ps) auto
  with 2 show ?case by (auto simp: spGet_def)
qed (simp add: spGet_def)

lemma wellFormed_spSet:
  "wellFormed k \<Longrightarrow> wellFormed v \<Longrightarrow> \<forall>p \<in> set ps. wellFormed (fst p) \<and> wellFormed (snd p) \<Longrightarrow>
     \<forall>p \<in> set (spSet k v ps). wellFormed (fst p) \<and> wellFormed (snd p)"
  by (induction k v ps rule: spSet.induct) auto

end
