(* ===== verification/CursorPages.thy ===== *)
theory CursorPages
  imports Api SearchParams
begin

text \<open>
  Paging for the two Logs tables: \<open>web/src/lib/cursor-pages.ts\<close>, the hook
  \<open>web/src/lib/use-cursor-pages.ts\<close>, and the request path and failure sentence they take from
  \<open>logs-view.ts\<close>.

  The hook is a state machine. \<open>newQuery\<close> is its effect: it runs when the path or the query
  changed, after the cleanup of the previous run aborted that generation. \<open>loadMore\<close> is the
  press, \<open>answerFirst\<close> and \<open>answerMore\<close> the callbacks of a request; which request answers, and
  with what, is the environment's choice. \<open>cp_trace\<close> records the answers applied since the
  current query started, \<open>cp_sent\<close> the requests sent since the mount; no operation reads them.

  The invariant: rows that belong to the current query are the pages of that query, in order,
  each fetched with the cursor of the one before; at most one request of a generation is in
  flight; an answer of an older generation changes nothing.
\<close>

section \<open>Pages\<close>

datatype page_end = MoreEnd | LastEnd | RefusedEnd

record 't pages =
  pg_query :: "jstr option"
  pg_rows :: "'t list"
  pg_cursor :: jstr
  pg_end :: page_end

datatype paged_path = LogsPath | AdminEventsPath

definition pathStr :: "paged_path \<Rightarrow> jstr" where
  "pathStr p = (case p of LogsPath \<Rightarrow> js ''/logs'' | AdminEventsPath \<Rightarrow> js ''/admin-events'')"

definition PAGED_FIELD :: "paged_path \<Rightarrow> jstr" where
  "PAGED_FIELD p = (case p of LogsPath \<Rightarrow> js ''logs'' | AdminEventsPath \<Rightarrow> js ''admin_events'')"

definition emptyPages :: "'t pages" where
  "emptyPages = \<lparr>pg_query = None, pg_rows = [], pg_cursor = [], pg_end = LastEnd\<rparr>"

definition startQuery :: "'t pages \<Rightarrow> 't pages" where
  "startQuery p = p\<lparr>pg_query := None, pg_cursor := [], pg_end := LastEnd\<rparr>"

definition firstPage :: "jstr \<Rightarrow> 't list \<Rightarrow> jstr \<Rightarrow> 't pages" where
  "firstPage query rows next =
     \<lparr>pg_query = Some query, pg_rows = rows, pg_cursor = next, pg_end = (if next \<noteq> [] then MoreEnd else LastEnd)\<rparr>"

definition appended :: "'t pages \<Rightarrow> 't list \<Rightarrow> jstr \<Rightarrow> 't pages" where
  "appended p rows next =
     p\<lparr>pg_rows := pg_rows p @ rows, pg_cursor := next, pg_end := (if next \<noteq> [] then MoreEnd else LastEnd)\<rparr>"

definition afterMoreFailure :: "'t pages \<Rightarrow> int option \<Rightarrow> 't pages" where
  "afterMoreFailure p status = (if status = Some 400 then p\<lparr>pg_cursor := [], pg_end := RefusedEnd\<rparr> else p)"

definition exposedEnd :: "'t pages \<Rightarrow> jstr option \<Rightarrow> page_end option" where
  "exposedEnd p query = (if pg_query p \<noteq> None \<and> pg_query p = query then Some (pg_end p) else None)"

definition showEmpty :: "'t pages \<Rightarrow> jstr option \<Rightarrow> bool" where
  "showEmpty p query \<longleftrightarrow> exposedEnd p query \<noteq> None \<and> length (pg_rows p) = 0"

definition nextRequest :: "'t pages \<Rightarrow> jstr option \<Rightarrow> (jstr \<times> jstr) option" where
  "nextRequest p query =
     (case pg_query p of
        None \<Rightarrow> None
      | Some q \<Rightarrow> if exposedEnd p query \<noteq> Some MoreEnd then None else Some (q, pg_cursor p))"

section \<open>The request and its failure\<close>

definition PAGE_SIZE :: nat where
  "PAGE_SIZE = 50"

definition pagePath :: "jstr \<Rightarrow> jstr \<Rightarrow> jstr \<Rightarrow> jstr" where
  "pagePath path query cursor =
     (let q = spSet (js ''limit'') (showNat PAGE_SIZE) (spParse query);
          q' = (if cursor \<noteq> [] then spSet (js ''cursor'') cursor q else q)
      in path @ js ''?'' @ spString q')"

definition LOG_READ_TIMEOUT :: jstr where
  "LOG_READ_TIMEOUT = js ''log query took too long''"

definition SLOW_CALLS :: jstr where
  "SLOW_CALLS = js ''This query took too long. Choose a shorter period or a narrower filter.''"

definition SLOW_CHANGES :: jstr where
  "SLOW_CHANGES = js ''This query took too long. Choose All resources or reload the page.''"

definition SLOW_FACETS :: jstr where
  "SLOW_FACETS = js ''Counting the calls in this period took too long. Choose a shorter period or a virtual key.''"

definition SLOW_QUERY :: "paged_path \<Rightarrow> jstr" where
  "SLOW_QUERY p = (case p of LogsPath \<Rightarrow> SLOW_CALLS | AdminEventsPath \<Rightarrow> SLOW_CHANGES)"

definition listErrorMessage :: "failure \<Rightarrow> jstr \<Rightarrow> jstr" where
  "listErrorMessage err slow =
     (case err of
        ApiErr e \<Rightarrow> (if err_status e = 503 \<and> err_message e = LOG_READ_TIMEOUT then slow else requestErrorMessage err)
      | OtherErr _ \<Rightarrow> requestErrorMessage err)"

section \<open>The hook\<close>

definition rowsOf :: "jobj \<Rightarrow> paged_path \<Rightarrow> jval list" where
  "rowsOf body path = (case objGet (PAGED_FIELD path) body of Some (JArr rows) \<Rightarrow> rows | _ \<Rightarrow> [])"

definition cursorOf :: "jobj \<Rightarrow> jstr" where
  "cursorOf body = (case objGet (js ''next_cursor'') body of Some (JStr c) \<Rightarrow> c | _ \<Rightarrow> [])"

datatype page_request = FirstReq nat jstr | MoreReq nat jstr jstr

fun req_gen :: "page_request \<Rightarrow> nat" where
  "req_gen (FirstReq g q) = g"
| "req_gen (MoreReq g q c) = g"

text \<open>A request carries the generation it was sent in; the generation's controller is aborted when
  the query changes, so the two tests of a callback are kept apart as in the code.\<close>

record cp_state =
  cp_pages :: "jval pages"
  cp_error :: jstr
  cp_moreError :: jstr
  cp_busy :: bool
  cp_seq :: nat
  cp_inFlight :: bool
  cp_next :: "(jstr \<times> jstr) option"
  cp_aborted :: "nat list"
  cp_query :: "jstr option"
  cp_pending :: "page_request list"
  cp_trace :: "(jstr \<times> jstr \<times> jobj) list"
  cp_sent :: "page_request list"

text \<open>What the hook returns to the component that calls it.\<close>

record cursor_view =
  cv_rows :: "jval list"
  cv_showEmpty :: bool
  cv_error :: jstr
  cv_moreError :: jstr
  cv_end :: "page_end option"
  cv_busy :: bool

definition cursorPages :: "cp_state \<Rightarrow> cursor_view" where
  "cursorPages s = \<lparr>cv_rows = pg_rows (cp_pages s), cv_showEmpty = showEmpty (cp_pages s) (cp_query s), cv_error = cp_error s,
     cv_moreError = cp_moreError s, cv_end = exposedEnd (cp_pages s) (cp_query s), cv_busy = cp_busy s\<rparr>"

definition cpBlank :: cp_state where
  "cpBlank = \<lparr>cp_pages = emptyPages, cp_error = [], cp_moreError = [], cp_busy = False, cp_seq = 0, cp_inFlight = False,
     cp_next = None, cp_aborted = [], cp_query = None, cp_pending = [], cp_trace = [], cp_sent = []\<rparr>"

text \<open>The cleanup of the previous effect, then the effect, for the query of the render.\<close>

definition newQuery :: "jstr option \<Rightarrow> cp_state \<Rightarrow> cp_state" where
  "newQuery query s =
     (let mine = Suc (cp_seq s);
          s1 = s\<lparr>cp_aborted := cp_seq s # cp_aborted s, cp_seq := mine, cp_inFlight := False, cp_next := None,
                 cp_pages := startQuery (cp_pages s), cp_error := [], cp_moreError := [], cp_busy := False,
                 cp_query := query, cp_trace := []\<rparr>
      in case query of None \<Rightarrow> s1 | Some q \<Rightarrow> s1\<lparr>cp_pending := cp_pending s @ [FirstReq mine q], cp_sent := cp_sent s @ [FirstReq mine q]\<rparr>)"

definition loadMore :: "cp_state \<Rightarrow> cp_state" where
  "loadMore s =
     (case cp_next s of
        None \<Rightarrow> s
      | Some (q, c) \<Rightarrow>
          if cp_inFlight s then s
          else s\<lparr>cp_inFlight := True, cp_busy := True, cp_moreError := [],
                 cp_pending := cp_pending s @ [MoreReq (cp_seq s) q c], cp_sent := cp_sent s @ [MoreReq (cp_seq s) q c]\<rparr>)"

definition dropped :: "nat \<Rightarrow> cp_state \<Rightarrow> bool" where
  "dropped mine s \<longleftrightarrow> mine \<in> set (cp_aborted s) \<or> cp_seq s \<noteq> mine"

definition answerFirst :: "paged_path \<Rightarrow> nat \<Rightarrow> jstr \<Rightarrow> failure + jobj \<Rightarrow> cp_state \<Rightarrow> cp_state" where
  "answerFirst path mine q ans s =
     (if dropped mine s then s
      else (case ans of
              Inr body \<Rightarrow>
                (let p = firstPage q (rowsOf body path) (cursorOf body)
                 in s\<lparr>cp_next := nextRequest p (Some q), cp_pages := p, cp_trace := [(q, [], body)]\<rparr>)
            | Inl err \<Rightarrow> s\<lparr>cp_error := listErrorMessage err (SLOW_QUERY path)\<rparr>))"

definition statusOf :: "failure \<Rightarrow> int option" where
  "statusOf err = (case err of ApiErr e \<Rightarrow> Some (err_status e) | OtherErr _ \<Rightarrow> None)"

definition answerMore :: "paged_path \<Rightarrow> nat \<Rightarrow> jstr \<Rightarrow> jstr \<Rightarrow> failure + jobj \<Rightarrow> cp_state \<Rightarrow> cp_state" where
  "answerMore path mine q c ans s =
     (if dropped mine s then s
      else (case ans of
              Inr body \<Rightarrow>
                (let cursor = cursorOf body in
                 s\<lparr>cp_pages := appended (cp_pages s) (rowsOf body path) cursor,
                   cp_next := (if cursor \<noteq> [] then Some (q, cursor) else None), cp_inFlight := False, cp_busy := False,
                   cp_trace := cp_trace s @ [(q, c, body)]\<rparr>)
            | Inl err \<Rightarrow>
                (let status = statusOf err in
                 s\<lparr>cp_moreError := listErrorMessage err (SLOW_QUERY path),
                   cp_pages := afterMoreFailure (cp_pages s) status,
                   cp_next := (if status = Some 400 then None else cp_next s), cp_inFlight := False, cp_busy := False\<rparr>)))"

definition answerReq :: "paged_path \<Rightarrow> page_request \<Rightarrow> failure + jobj \<Rightarrow> cp_state \<Rightarrow> cp_state" where
  "answerReq path r ans s =
     (case r of FirstReq g q \<Rightarrow> answerFirst path g q ans s | MoreReq g q c \<Rightarrow> answerMore path g q c ans s)"

definition settleReq :: "paged_path \<Rightarrow> nat \<Rightarrow> failure + jobj \<Rightarrow> cp_state \<Rightarrow> cp_state" where
  "settleReq path i ans s =
     answerReq path (cp_pending s ! i) ans (s\<lparr>cp_pending := take i (cp_pending s) @ drop (Suc i) (cp_pending s)\<rparr>)"

inductive cp_step :: "paged_path \<Rightarrow> cp_state \<Rightarrow> cp_state \<Rightarrow> bool" for path where
  filter_change: "cp_step path s (newQuery q s)"
| press_more: "cp_step path s (loadMore s)"
| answered: "i < length (cp_pending s) \<Longrightarrow> cp_step path s (settleReq path i ans s)"

inductive_cases cp_stepE: "cp_step path s t"

inductive cp_reach :: "paged_path \<Rightarrow> cp_state \<Rightarrow> bool" for path where
  mounted: "cp_reach path (newQuery q cpBlank)"
| moved: "cp_reach path s \<Longrightarrow> cp_step path s t \<Longrightarrow> cp_reach path t"

section \<open>Invariant\<close>

text \<open>A walk of query \<open>q\<close>: the first page without a cursor, each later one with the cursor the
  page before answered.\<close>

definition linked :: "jstr \<times> jstr \<times> jobj \<Rightarrow> jstr \<times> jstr \<times> jobj \<Rightarrow> bool" where
  "linked x y \<longleftrightarrow> fst (snd y) = cursorOf (snd (snd x)) \<and> fst (snd y) \<noteq> []"

definition walk :: "jstr \<Rightarrow> (jstr \<times> jstr \<times> jobj) list \<Rightarrow> bool" where
  "walk q tr \<longleftrightarrow> tr \<noteq> [] \<and> (\<forall>x \<in> set tr. fst x = q) \<and> fst (snd (hd tr)) = [] \<and>
     (\<forall>i. Suc i < length tr \<longrightarrow> linked (tr ! i) (tr ! Suc i))"

definition traceRows :: "paged_path \<Rightarrow> (jstr \<times> jstr \<times> jobj) list \<Rightarrow> jval list" where
  "traceRows path tr = concat (map (\<lambda>x. rowsOf (snd (snd x)) path) tr)"

definition current :: "cp_state \<Rightarrow> page_request list" where
  "current s = filter (\<lambda>r. req_gen r = cp_seq s) (cp_pending s)"

definition pages_good :: "paged_path \<Rightarrow> jval pages \<Rightarrow> jstr option \<Rightarrow> (jstr \<times> jstr \<times> jobj) list \<Rightarrow> bool" where
  "pages_good path p query tr \<longleftrightarrow>
     (case pg_query p of
        None \<Rightarrow> tr = []
      | Some q \<Rightarrow> query = Some q \<and> walk q tr \<and> pg_rows p = traceRows path tr \<and>
          pg_cursor p = (if pg_end p = RefusedEnd then [] else cursorOf (snd (snd (last tr)))) \<and>
          (pg_end p = MoreEnd \<longleftrightarrow> pg_cursor p \<noteq> []))"

definition pages_ok :: "paged_path \<Rightarrow> cp_state \<Rightarrow> bool" where
  "pages_ok path s \<longleftrightarrow> pages_good path (cp_pages s) (cp_query s) (cp_trace s)"

definition flight_ok :: "cp_state \<Rightarrow> bool" where
  "flight_ok s \<longleftrightarrow>
     length (current s) \<le> 1 \<and> cp_busy s = cp_inFlight s \<and>
     (\<forall>g q c. MoreReq g q c \<in> set (current s) \<longrightarrow> cp_inFlight s \<and> cp_next s = Some (q, c)) \<and>
     (\<forall>g q. FirstReq g q \<in> set (current s) \<longrightarrow> cp_query s = Some q \<and> pg_query (cp_pages s) = None) \<and>
     (cp_inFlight s \<longrightarrow> (\<exists>q c. current s = [MoreReq (cp_seq s) q c]))"

definition cp_inv :: "paged_path \<Rightarrow> cp_state \<Rightarrow> bool" where
  "cp_inv path s \<longleftrightarrow>
     pages_ok path s \<and> flight_ok s \<and> cp_next s = nextRequest (cp_pages s) (cp_query s) \<and>
     (\<forall>g \<in> set (cp_aborted s). g < cp_seq s) \<and> (\<forall>r \<in> set (cp_pending s). req_gen r \<le> cp_seq s)"

lemma cp_invD:
  assumes "cp_inv path s"
  shows "pages_ok path s" "flight_ok s" "cp_next s = nextRequest (cp_pages s) (cp_query s)"
    "\<forall>g \<in> set (cp_aborted s). g < cp_seq s" "\<forall>r \<in> set (cp_pending s). req_gen r \<le> cp_seq s"
  using assms by (simp_all add: cp_inv_def)

lemma startQuery_sel [simp]:
  "pg_query (startQuery p) = None" "pg_rows (startQuery p) = pg_rows p"
  by (simp_all add: startQuery_def)

lemma nextRequest_None [simp]: "pg_query p = None \<Longrightarrow> nextRequest p q = None"
  by (simp add: nextRequest_def)

lemma newQuery_sel:
  "cp_pages (newQuery q s) = startQuery (cp_pages s)" "cp_trace (newQuery q s) = []" "cp_query (newQuery q s) = q"
  "cp_next (newQuery q s) = None" "cp_seq (newQuery q s) = Suc (cp_seq s)" "cp_inFlight (newQuery q s) = False"
  "cp_busy (newQuery q s) = False" "cp_aborted (newQuery q s) = cp_seq s # cp_aborted s"
  "cp_pending (newQuery q s) = cp_pending s @ (case q of None \<Rightarrow> [] | Some x \<Rightarrow> [FirstReq (Suc (cp_seq s)) x])"
  "cp_error (newQuery q s) = []" "cp_moreError (newQuery q s) = []"
  by (simp_all add: newQuery_def Let_def split: option.splits)

lemma inv_newQuery:
  assumes "\<forall>g \<in> set (cp_aborted s). g < cp_seq s" "\<forall>r \<in> set (cp_pending s). req_gen r \<le> cp_seq s"
  shows "cp_inv path (newQuery q s)"
proof -
  have "filter (\<lambda>r. req_gen r = Suc (cp_seq s)) (cp_pending s) = []"
    using assms(2) by (auto simp: filter_empty_conv)
  then have cur: "current (newQuery q s) = (case q of None \<Rightarrow> [] | Some x \<Rightarrow> [FirstReq (Suc (cp_seq s)) x])"
    by (simp add: current_def newQuery_sel split: option.splits)
  have "flight_ok (newQuery q s)"
    unfolding flight_ok_def cur by (cases q) (simp_all add: newQuery_sel)
  moreover have "pages_ok path (newQuery q s)" by (simp add: pages_ok_def pages_good_def newQuery_sel)
  moreover have "\<forall>r \<in> set (cp_pending (newQuery q s)). req_gen r \<le> Suc (cp_seq s)"
    using assms(2) by (auto simp: newQuery_sel split: option.splits dest: le_SucI)
  moreover have "\<forall>g \<in> set (cp_seq s # cp_aborted s). g < Suc (cp_seq s)" using assms(1) by auto
  ultimately show ?thesis by (simp add: cp_inv_def newQuery_sel)
qed

lemma next_some:
  assumes "cp_inv path s" "cp_next s = Some (q, c)"
  shows "pg_query (cp_pages s) = Some q" "cp_query s = Some q" "pg_end (cp_pages s) = MoreEnd" "pg_cursor (cp_pages s) = c"
    "walk q (cp_trace s)" "pg_rows (cp_pages s) = traceRows path (cp_trace s)" "c = cursorOf (snd (snd (last (cp_trace s))))" "c \<noteq> []"
proof -
  from cp_invD(3) [OF assms(1)] assms(2) have n: "nextRequest (cp_pages s) (cp_query s) = Some (q, c)" by simp
  then show q: "pg_query (cp_pages s) = Some q" and e: "pg_end (cp_pages s) = MoreEnd" and c: "pg_cursor (cp_pages s) = c"
    by (auto simp: nextRequest_def exposedEnd_def split: option.splits if_splits)
  with cp_invD(1) [OF assms(1)] show "cp_query s = Some q" "walk q (cp_trace s)"
    "pg_rows (cp_pages s) = traceRows path (cp_trace s)" "c = cursorOf (snd (snd (last (cp_trace s))))" "c \<noteq> []"
    by (auto simp: pages_ok_def pages_good_def)
qed

lemma idle_current:
  assumes "cp_inv path s" "cp_next s = Some (q, c)" "\<not> cp_inFlight s"
  shows "current s = []"
proof -
  have "r \<notin> set (current s)" for r
    using cp_invD(2) [OF assms(1)] next_some(1) [OF assms(1,2)] assms(3)
    by (cases r) (auto simp: flight_ok_def)
  then show ?thesis by (metis list.set_intros(1) neq_Nil_conv)
qed

lemma inv_loadMore:
  assumes inv: "cp_inv path s"
  shows "cp_inv path (loadMore s)"
proof (cases "cp_next s = None \<or> cp_inFlight s")
  case True
  then have "loadMore s = s" by (auto simp: loadMore_def split: option.splits)
  with inv show ?thesis by simp
next
  case False
  then obtain q c where n: "cp_next s = Some (q, c)" and idle: "\<not> cp_inFlight s" by auto
  define t where "t = s\<lparr>cp_inFlight := True, cp_busy := True, cp_moreError := [], cp_pending := cp_pending s @ [MoreReq (cp_seq s) q c], cp_sent := cp_sent s @ [MoreReq (cp_seq s) q c]\<rparr>"
  have t: "loadMore s = t" using n idle by (simp add: loadMore_def t_def)
  have sel: "cp_pages t = cp_pages s" "cp_trace t = cp_trace s" "cp_query t = cp_query s" "cp_next t = cp_next s" "cp_seq t = cp_seq s"
    "cp_aborted t = cp_aborted s" "cp_inFlight t" "cp_busy t" "cp_pending t = cp_pending s @ [MoreReq (cp_seq s) q c]"
    by (simp_all add: t_def)
  have cur: "current t = [MoreReq (cp_seq s) q c]"
    using idle_current [OF inv n idle] by (simp add: current_def sel)
  have "flight_ok t" unfolding flight_ok_def cur by (simp add: sel n)
  moreover have "pages_ok path t" using cp_invD(1) [OF inv] by (simp add: pages_ok_def sel)
  moreover have "\<forall>r \<in> set (cp_pending t). req_gen r \<le> cp_seq s" using cp_invD(5) [OF inv] by (auto simp: sel)
  ultimately show ?thesis using cp_invD(3,4) [OF inv] by (simp add: cp_inv_def t sel)
qed

text \<open>The state once a request left the list of pending ones.\<close>

definition without :: "nat \<Rightarrow> cp_state \<Rightarrow> cp_state" where
  "without i s = s\<lparr>cp_pending := take i (cp_pending s) @ drop (Suc i) (cp_pending s)\<rparr>"

lemma without_sel [simp]:
  "cp_pages (without i s) = cp_pages s" "cp_trace (without i s) = cp_trace s" "cp_query (without i s) = cp_query s"
  "cp_next (without i s) = cp_next s" "cp_seq (without i s) = cp_seq s" "cp_inFlight (without i s) = cp_inFlight s"
  "cp_busy (without i s) = cp_busy s" "cp_aborted (without i s) = cp_aborted s"
  "cp_pending (without i s) = take i (cp_pending s) @ drop (Suc i) (cp_pending s)"
  by (simp_all add: without_def)

lemma settleReq_without: "settleReq path i ans s = answerReq path (cp_pending s ! i) ans (without i s)"
  by (simp add: settleReq_def without_def)

lemma current_without:
  assumes "i < length (cp_pending s)"
  shows "req_gen (cp_pending s ! i) \<noteq> cp_seq s \<Longrightarrow> current (without i s) = current s"
    "req_gen (cp_pending s ! i) = cp_seq s \<Longrightarrow> length (current s) \<le> 1 \<Longrightarrow>
       current (without i s) = [] \<and> current s = [cp_pending s ! i]"
proof -
  let ?r = "cp_pending s ! i" and ?P = "\<lambda>r. req_gen r = cp_seq s"
  have sp: "cp_pending s = take i (cp_pending s) @ ?r # drop (Suc i) (cp_pending s)" by (rule id_take_nth_drop [OF assms])
  have f: "current s = filter ?P (take i (cp_pending s)) @ filter ?P [?r] @ filter ?P (drop (Suc i) (cp_pending s))"
    unfolding current_def by (subst sp) simp
  show "?P ?r \<Longrightarrow> length (current s) \<le> 1 \<Longrightarrow> current (without i s) = [] \<and> current s = [?r]"
    using f by (auto simp: current_def)
  show "\<not> ?P ?r \<Longrightarrow> current (without i s) = current s" using f by (simp add: current_def)
qed

lemma pending_without: "\<forall>r \<in> set (cp_pending s). P r \<Longrightarrow> \<forall>r \<in> set (cp_pending (without i s)). P r"
  by (auto dest: in_set_takeD in_set_dropD)

lemma answerReq_dropped:
  "dropped (req_gen r) s \<Longrightarrow> answerReq path r ans s = s"
  by (cases r) (simp_all add: answerReq_def answerFirst_def answerMore_def)

lemma inv_stale:
  assumes inv: "cp_inv path s" and i: "i < length (cp_pending s)" and g: "req_gen (cp_pending s ! i) \<noteq> cp_seq s"
  shows "cp_inv path (settleReq path i ans s)"
proof -
  have "dropped (req_gen (cp_pending s ! i)) (without i s)" using g by (simp add: dropped_def)
  then have "settleReq path i ans s = without i s" by (simp add: settleReq_without answerReq_dropped)
  moreover have "flight_ok (without i s)"
    using cp_invD(2) [OF inv] by (simp add: flight_ok_def current_without(1) [OF i g])
  moreover have "pages_ok path (without i s)" using cp_invD(1) [OF inv] by (simp add: pages_ok_def)
  ultimately show ?thesis
    using cp_invD(3,4) [OF inv] pending_without [OF cp_invD(5) [OF inv], of i] by (simp add: cp_inv_def)
qed

lemma flight_idle:
  "current t = [] \<Longrightarrow> \<not> cp_inFlight t \<Longrightarrow> \<not> cp_busy t \<Longrightarrow> flight_ok t"
  by (simp add: flight_ok_def)

lemma inv_first:
  assumes inv: "cp_inv path s" and i: "i < length (cp_pending s)" and r: "cp_pending s ! i = FirstReq (cp_seq s) q"
  shows "cp_inv path (settleReq path i ans s)"
proof -
  let ?u = "without i s"
  have len: "length (current s) \<le> 1" using cp_invD(2) [OF inv] by (simp add: flight_ok_def)
  then have cur: "current ?u = []" "current s = [FirstReq (cp_seq s) q]" using current_without(2) [OF i] r by auto
  then have q: "cp_query s = Some q" "pg_query (cp_pages s) = None" and idle: "\<not> cp_inFlight s" "\<not> cp_busy s"
    using cp_invD(2) [OF inv] by (auto simp: flight_ok_def)
  have live: "\<not> dropped (cp_seq s) ?u" using cp_invD(4) [OF inv] by (auto simp: dropped_def)
  have t: "settleReq path i ans s = answerFirst path (cp_seq s) q ans ?u" by (simp add: settleReq_without r answerReq_def)
  note pend = pending_without [OF cp_invD(5) [OF inv], of i]
  show ?thesis
  proof (cases ans)
    case (Inl err)
    define v where "v = ?u\<lparr>cp_error := listErrorMessage err (SLOW_QUERY path)\<rparr>"
    have "settleReq path i ans s = v" using t live Inl by (simp add: answerFirst_def v_def)
    moreover have "flight_ok v" using cur(1) idle by (intro flight_idle) (simp_all add: v_def current_def)
    moreover have "pages_ok path v" using cp_invD(1) [OF inv] by (simp add: pages_ok_def v_def)
    ultimately show ?thesis using cp_invD(3,4) [OF inv] pend by (simp add: cp_inv_def v_def)
  next
    case (Inr body)
    define p where "p = firstPage q (rowsOf body path) (cursorOf body)"
    define v where "v = ?u\<lparr>cp_next := nextRequest p (Some q), cp_pages := p, cp_trace := [(q, [], body)]\<rparr>"
    have "settleReq path i ans s = v" using t live Inr by (simp add: answerFirst_def v_def p_def Let_def)
    moreover have "flight_ok v" using cur(1) idle by (intro flight_idle) (simp_all add: v_def current_def)
    moreover have "pages_ok path v"
      by (simp add: pages_ok_def pages_good_def v_def p_def firstPage_def walk_def traceRows_def q)
    ultimately show ?thesis using cp_invD(4) [OF inv] pend by (simp add: cp_inv_def v_def q)
  qed
qed

lemma walk_snoc:
  assumes "walk q tr" "cursorOf (snd (snd (last tr))) = c" "c \<noteq> []"
  shows "walk q (tr @ [(q, c, body)])"
proof -
  have ne: "tr \<noteq> []" using assms(1) by (simp add: walk_def)
  have "linked ((tr @ [(q, c, body)]) ! i) ((tr @ [(q, c, body)]) ! Suc i)" if "i < length tr" for i
  proof (cases "Suc i < length tr")
    case True
    then show ?thesis using assms(1) by (simp add: walk_def nth_append)
  next
    case False
    with that have i: "Suc i = length tr" by simp
    then have "last tr = tr ! i" using ne by (simp add: last_conv_nth flip: i)
    then show ?thesis using assms(2,3) i by (simp add: linked_def nth_append flip: i)
  qed
  then show ?thesis using assms(1) ne by (simp add: walk_def)
qed

lemma inv_more:
  assumes inv: "cp_inv path s" and i: "i < length (cp_pending s)" and r: "cp_pending s ! i = MoreReq (cp_seq s) q c"
  shows "cp_inv path (settleReq path i ans s)"
proof -
  let ?u = "without i s"
  have len: "length (current s) \<le> 1" using cp_invD(2) [OF inv] by (simp add: flight_ok_def)
  then have cur: "current ?u = []" "current s = [MoreReq (cp_seq s) q c]" using current_without(2) [OF i] r by auto
  then have n: "cp_next s = Some (q, c)" using cp_invD(2) [OF inv] by (auto simp: flight_ok_def)
  note nx = next_some [OF inv n]
  have live: "\<not> dropped (cp_seq s) ?u" using cp_invD(4) [OF inv] by (auto simp: dropped_def)
  have t: "settleReq path i ans s = answerMore path (cp_seq s) q c ans ?u" by (simp add: settleReq_without r answerReq_def)
  note pend = pending_without [OF cp_invD(5) [OF inv], of i]
  show ?thesis
  proof (cases ans)
    case (Inl err)
    define v where "v = ?u\<lparr>cp_moreError := listErrorMessage err (SLOW_QUERY path), cp_pages := afterMoreFailure (cp_pages s) (statusOf err),
        cp_next := (if statusOf err = Some 400 then None else cp_next s), cp_inFlight := False, cp_busy := False\<rparr>"
    have "settleReq path i ans s = v" using t live Inl by (simp add: answerMore_def v_def Let_def)
    moreover have "flight_ok v" using cur(1) by (intro flight_idle) (simp_all add: v_def current_def)
    moreover have "pages_ok path v"
      using cp_invD(1) [OF inv] nx(1) by (auto simp: pages_ok_def pages_good_def v_def afterMoreFailure_def)
    moreover have "cp_next v = nextRequest (cp_pages v) (cp_query v)"
      using cp_invD(3) [OF inv] nx(1) by (simp add: v_def afterMoreFailure_def nextRequest_def exposedEnd_def)
    ultimately show ?thesis using cp_invD(4) [OF inv] pend by (simp add: cp_inv_def) (simp add: v_def)
  next
    case (Inr body)
    define v where "v = ?u\<lparr>cp_pages := appended (cp_pages s) (rowsOf body path) (cursorOf body),
        cp_next := (if cursorOf body \<noteq> [] then Some (q, cursorOf body) else None), cp_inFlight := False, cp_busy := False,
        cp_trace := cp_trace s @ [(q, c, body)]\<rparr>"
    have "settleReq path i ans s = v" using t live Inr by (simp add: answerMore_def v_def Let_def)
    moreover have "flight_ok v" using cur(1) by (intro flight_idle) (simp_all add: v_def current_def)
    moreover have "walk q (cp_trace s @ [(q, c, body)])" using nx(5,7,8) by (intro walk_snoc) simp_all
    then have "pages_ok path v"
      using nx(1,2,6) by (simp add: pages_ok_def pages_good_def v_def appended_def traceRows_def)
    moreover have "cp_next v = nextRequest (cp_pages v) (cp_query v)"
      using nx(1,2) by (simp add: v_def appended_def nextRequest_def exposedEnd_def)
    ultimately show ?thesis using cp_invD(4) [OF inv] pend by (simp add: cp_inv_def) (simp add: v_def)
  qed
qed

lemma inv_settle:
  assumes "cp_inv path s" "i < length (cp_pending s)"
  shows "cp_inv path (settleReq path i ans s)"
  using assms inv_stale [OF assms] inv_first [OF assms] inv_more [OF assms]
  by (cases "cp_pending s ! i") fastforce+

lemma cp_inv_step: "cp_step path s t \<Longrightarrow> cp_inv path s \<Longrightarrow> cp_inv path t"
  by (erule cp_stepE) (auto intro: inv_newQuery inv_loadMore inv_settle dest: cp_invD)

lemma cp_reach_inv: "cp_reach path s \<Longrightarrow> cp_inv path s"
proof (induction rule: cp_reach.induct)
  case (mounted q)
  show ?case by (rule inv_newQuery) (simp_all add: cpBlank_def)
next
  case (moved s t)
  then show ?case by (blast intro: cp_inv_step)
qed

section \<open>What the table shows\<close>

lemma exposed_rows:
  assumes "cp_inv path s" "exposedEnd (cp_pages s) (cp_query s) \<noteq> None"
  obtains q where "cp_query s = Some q" "walk q (cp_trace s)" "pg_rows (cp_pages s) = traceRows path (cp_trace s)"
  using assms cp_invD(1) [OF assms(1)] by (auto simp: exposedEnd_def pages_ok_def pages_good_def split: if_splits option.splits)

lemma refused_no_request:
  assumes "cp_inv path s" "pg_end (cp_pages s) = RefusedEnd"
  shows "loadMore s = s"
proof -
  have "cp_next s = None" using cp_invD(3) [OF assms(1)] assms(2) by (simp add: nextRequest_def exposedEnd_def split: option.splits)
  then show ?thesis by (simp add: loadMore_def)
qed

lemma settle_stale:
  assumes "req_gen (cp_pending s ! i) \<noteq> cp_seq s"
  shows "settleReq path i ans s = without i s"
  using assms by (simp add: settleReq_without answerReq_dropped dropped_def)

section \<open>Properties\<close>

text \<open>
  In every reachable state of the paging hook, rows shown as those of the current query are exactly
  the rows of a walk of that query: its first page, then each page asked for with the cursor the
  page before answered.
\<close>

theorem rows_are_the_pages_of_the_query:
  assumes "cp_reach path s" "exposedEnd (cp_pages s) (cp_query s) \<noteq> None"
  shows "\<exists>q. cp_query s = Some q \<and> walk q (cp_trace s) \<and> pg_rows (cp_pages s) = traceRows path (cp_trace s)"
  using exposed_rows [OF cp_reach_inv [OF assms(1)] assms(2)] by metis

theorem rows_are_the_pages_of_the_query_witness:
  "let s = settleReq LogsPath 0 (Inr [(js ''logs'', JArr [JNull])]) (newQuery (Some (js ''q'')) cpBlank)
   in pg_rows (cp_pages s) = [JNull] \<and> (\<exists>q. cp_query s = Some q \<and> walk q (cp_trace s) \<and> pg_rows (cp_pages s) = traceRows LogsPath (cp_trace s))"
proof -
  let ?b = "[(js ''logs'', JArr [JNull])]"
  let ?m = "newQuery (Some (js ''q'')) cpBlank"
  let ?s = "settleReq LogsPath 0 (Inr ?b) ?m"
  have "0 < length (cp_pending ?m)" by code_simp
  then have r: "cp_reach LogsPath ?s" by (blast intro: cp_reach.intros cp_step.answered)
  have "exposedEnd (cp_pages ?s) (cp_query ?s) \<noteq> None \<and> pg_rows (cp_pages ?s) = [JNull]" by code_simp
  with rows_are_the_pages_of_the_query [OF r] show ?thesis by (simp add: Let_def)
qed



end
