(* ===== verification/UpstreamAuth.thy ===== *)
theory UpstreamAuth
  imports Api
begin

text \<open>
  What an upstream's row says: \<open>web/src/lib/upstream-auth.ts\<close>, \<open>upstream-test.ts\<close>,
  \<open>upstream-transport.ts\<close>, \<open>placeholder.ts\<close> and the URL rules of \<open>discovery.ts\<close>.

  \<open>URL\<close> and \<open>Date.parse\<close> belong to the engine and are arguments: a parser that returns the
  parts of a URL or nothing, and a parser that returns milliseconds or nothing. The lemmas show
  that a row only reads as passed or failed when a test is on record, that every step of the
  relative time ladder stays inside its unit, and that the badge, the Connect label and the
  connected test agree about a row.
\<close>

section \<open>The Auth cell\<close>

datatype auth_tone = OkTone | NoneTone | BrokenTone | HeldTone | IdleTone

record auth_state =
  as_tone :: auth_tone
  as_label :: jstr
  as_expiresAt :: "jstr option"

datatype badge_color = BadgePink | BadgeAmber

text \<open>\<open>expires_at\<close> of an optional \<open>oauth\<close> member, \<open>''\<close> when absent, null or empty: what a
  truthiness test of it sees.\<close>

definition oauthExpiry :: "upstream_oauth option \<Rightarrow> jstr" where
  "oauthExpiry oa = (case oa of None \<Rightarrow> [] | Some a \<Rightarrow> orElse (oa_expires_at a) [])"

definition authState :: "jstr \<Rightarrow> jstr \<Rightarrow> upstream_oauth option \<Rightarrow> auth_state" where
  "authState auth_type auth_status oa =
     (let oauth = (auth_type = js ''oauth'') in
      if auth_status = js ''undecryptable'' then
        \<lparr>as_tone = BrokenTone, as_label = js ''Unreadable'', as_expiresAt = None\<rparr>
      else if auth_status = js ''unreadable'' then
        (if oauth then \<lparr>as_tone = IdleTone, as_label = js ''Not connected'', as_expiresAt = None\<rparr>
         else \<lparr>as_tone = BrokenTone, as_label = js ''Incomplete'', as_expiresAt = None\<rparr>)
      else if auth_status = js ''expired'' then
        \<lparr>as_tone = HeldTone, as_label = js ''Expired'', as_expiresAt = None\<rparr>
      else if auth_status = js ''none'' then
        \<lparr>as_tone = NoneTone, as_label = [], as_expiresAt = None\<rparr>
      else
        (case oa of
           Some a \<Rightarrow>
             (if oauth \<and> \<not> oa_has_refresh_token a \<and> oauthExpiry oa \<noteq> [] then
                \<lparr>as_tone = OkTone, as_label = js ''set until'', as_expiresAt = oa_expires_at a\<rparr>
              else \<lparr>as_tone = OkTone, as_label = [], as_expiresAt = None\<rparr>)
         | None \<Rightarrow> \<lparr>as_tone = OkTone, as_label = [], as_expiresAt = None\<rparr>))"

definition rowAuthState :: "upstream \<Rightarrow> auth_state" where
  "rowAuthState u = authState (u_auth_type u) (u_auth_status u) (u_oauth u)"

definition authBadge :: "auth_state \<Rightarrow> badge_color option" where
  "authBadge a = (case as_tone a of BrokenTone \<Rightarrow> Some BadgePink | HeldTone \<Rightarrow> Some BadgeAmber | IdleTone \<Rightarrow> Some BadgeAmber | _ \<Rightarrow> None)"

definition connectLabel :: "upstream_oauth option \<Rightarrow> jstr" where
  "connectLabel oa = (if oauthExpiry oa \<noteq> [] then js ''Reconnect'' else js ''Connect'')"

definition oauthConnected :: "jstr \<Rightarrow> upstream_oauth option \<Rightarrow> bool" where
  "oauthConnected auth_type oa \<longleftrightarrow> auth_type = js ''oauth'' \<and> oauthExpiry oa \<noteq> []"

section \<open>The Status cell\<close>

text \<open>\<open>Math.round(ms / 1000 / unit)\<close>, where \<open>unit\<close> is a number of seconds. A double is exact at
  every half of a unit and within far less than a millisecond's share of one elsewhere, so
  rounding the exact quotient gives the same integer.\<close>

definition roundTo :: "int \<Rightarrow> int \<Rightarrow> int" where
  "roundTo ms unit = (2 * ms + 1000 * unit) div (2000 * unit)"

definition MINUTE :: int where "MINUTE = 60"
definition HOUR :: int where "HOUR = 60 * MINUTE"
definition DAY :: int where "DAY = 24 * HOUR"
definition MONTH :: int where "MONTH = 30 * DAY"
definition YEAR :: int where "YEAR = 365 * DAY"

definition agoLabel :: "int \<Rightarrow> jstr \<Rightarrow> jstr" where
  "agoLabel n unit = showInt n @ unit @ js '' ago''"

text \<open>The ladder on the elapsed milliseconds. \<open>Date.parse\<close> is an argument; with no instant every
  comparison is with \<open>NaN\<close> and fails.\<close>

definition agoOf :: "int \<Rightarrow> jstr" where
  "agoOf ms =
     (if ms < 45000 then js ''just now''
      else if ms < 90000 then js ''1m ago''
      else if roundTo ms MINUTE < 60 then agoLabel (roundTo ms MINUTE) (js ''m'')
      else if roundTo ms HOUR < 24 then agoLabel (roundTo ms HOUR) (js ''h'')
      else if roundTo ms DAY < 30 then agoLabel (roundTo ms DAY) (js ''d'')
      else if roundTo ms MONTH < 12 then agoLabel (roundTo ms MONTH) (js ''mo'')
      else agoLabel (roundTo ms YEAR) (js ''y''))"

definition relativeTime :: "(jstr \<Rightarrow> int option) \<Rightarrow> jstr \<Rightarrow> int \<Rightarrow> jstr" where
  "relativeTime dateParse stamp nowMs =
     (case dateParse stamp of Some t \<Rightarrow> agoOf (nowMs - t) | None \<Rightarrow> js ''NaNy ago'')"

datatype test_tone = NeverTone | PassedTone | FailedTone

record test_state =
  ts_tone :: test_tone
  ts_word :: jstr
  ts_ago :: "jstr option"
  ts_at :: "jstr option"

definition testState :: "(jstr \<Rightarrow> int option) \<Rightarrow> jstr option \<Rightarrow> bool option \<Rightarrow> int \<Rightarrow> test_state" where
  "testState dateParse last_test_at last_test_ok nowMs =
     (let at = orElse last_test_at [] in
      case last_test_ok of
        Some ok \<Rightarrow>
          (if at = [] \<or> dateParse at = None then
             \<lparr>ts_tone = NeverTone, ts_word = js ''Not tested'', ts_ago = None, ts_at = None\<rparr>
           else \<lparr>ts_tone = (if ok then PassedTone else FailedTone), ts_word = (if ok then js ''Passed'' else js ''Failed''),
                  ts_ago = Some (relativeTime dateParse at nowMs), ts_at = Some at\<rparr>)
      | None \<Rightarrow> \<lparr>ts_tone = NeverTone, ts_word = js ''Not tested'', ts_ago = None, ts_at = None\<rparr>)"

section \<open>Transport, placeholders\<close>

definition transportUnsupported :: "jstr \<Rightarrow> bool" where
  "transportUnsupported t = (\<not> (t = js ''streamable-http'' \<or> t = []))"

definition LOADING :: jstr where
  "LOADING = [0xa0]"

definition ABSENT :: jstr where
  "ABSENT = js ''None''"

section \<open>URL rules\<close>

record url_parts =
  url_protocol :: jstr
  url_host :: jstr
  url_hostname :: jstr

type_synonym url_parser = "jstr \<Rightarrow> url_parts option"

definition discoverable :: "url_parser \<Rightarrow> jstr \<Rightarrow> bool" where
  "discoverable URL url =
     (case URL (trim url) of
        Some u \<Rightarrow> url_protocol u = js ''http:'' \<or> url_protocol u = js ''https:''
      | None \<Rightarrow> False)"

definition hostOf :: "url_parser \<Rightarrow> jstr \<Rightarrow> jstr" where
  "hostOf URL url = (case URL (trim url) of Some u \<Rightarrow> url_host u | None \<Rightarrow> [])"

definition LOOPBACK :: "jstr list" where
  "LOOPBACK = [js ''localhost'', js ''127.0.0.1'', js ''[::1]'']"

definition PLAIN_HTTP_NOTE :: jstr where
  "PLAIN_HTTP_NOTE = js ''This upstream uses plain http, so the credential travels unencrypted.''"

definition plainHTTPCredential :: "url_parser \<Rightarrow> jstr \<Rightarrow> jstr \<Rightarrow> bool" where
  "plainHTTPCredential URL url authType =
     (if authType = [] \<or> authType = js ''none'' then False
      else (case URL (trim url) of
              Some u \<Rightarrow> url_protocol u = js ''http:'' \<and>
                (if url_hostname u = js ''::1'' then js ''[::1]'' else url_hostname u) \<notin> set LOOPBACK
            | None \<Rightarrow> False))"

definition protocolSummary :: "discovery \<Rightarrow> jstr" where
  "protocolSummary result =
     (let version = orElse (d_protocol_version result) []; era = orElse (d_era result) [] in
      if era = [] then version
      else (let how = (if era = js ''modern'' then js ''stateless'' else js ''handshake'') in
        if version \<noteq> [] then version @ js '', '' @ how else how @ js '', no version agreed''))"

definition probeRequestLine :: "jstr option \<Rightarrow> jstr" where
  "probeRequestLine testPath = js ''GET '' @ orStr (orElse testPath []) (js ''/'')"

section \<open>Laws\<close>

text \<open>A badge is drawn exactly when the row is not ok and not none.\<close>

lemma authBadge_drawn:
  "authBadge a \<noteq> None \<longleftrightarrow> as_tone a \<in> {BrokenTone, HeldTone, IdleTone}"
  by (cases "as_tone a") (auto simp: authBadge_def)

lemma authBadge_None_iff: "authBadge a = None \<longleftrightarrow> as_tone a = OkTone \<or> as_tone a = NoneTone"
  by (cases "as_tone a") (auto simp: authBadge_def)

lemma authState_unknown:
  assumes "auth_status \<notin> {js ''undecryptable'', js ''unreadable'', js ''expired'', js ''none''}"
  shows "as_tone (authState auth_type auth_status oa) = OkTone"
  using assms by (auto simp: authState_def Let_def split: option.splits)

lemma authState_expiry:
  "as_expiresAt (authState auth_type auth_status oa) = Some e \<longleftrightarrow>
     auth_status \<notin> {js ''undecryptable'', js ''unreadable'', js ''expired'', js ''none''} \<and>
     auth_type = js ''oauth'' \<and> (\<exists>a. oa = Some a \<and> \<not> oa_has_refresh_token a \<and> oa_expires_at a = Some e) \<and> e \<noteq> []"
  by (auto simp: authState_def Let_def oauthExpiry_def orElse_def split: option.splits if_splits)

lemma authState_until_connected:
  "as_expiresAt (authState auth_type auth_status oa) \<noteq> None \<Longrightarrow> oauthConnected auth_type oa \<and> connectLabel oa = js ''Reconnect''"
  by (auto simp: authState_expiry oauthConnected_def connectLabel_def oauthExpiry_def)

lemma int_div_less: "0 < (b :: int) \<Longrightarrow> a div b < n \<longleftrightarrow> a < n * b"
proof -
  assume b: "0 < b"
  have "n \<le> a div b \<longleftrightarrow> n * b \<le> a"
  proof
    assume "n \<le> a div b"
    then have "n * b \<le> a div b * b" using b by simp
    then show "n * b \<le> a" using pos_mod_sign [OF b, of a] div_mult_mod_eq [of a b] by linarith
  next
    assume "n * b \<le> a"
    then have "n * b div b \<le> a div b" using b by (rule zdiv_mono1)
    then show "n \<le> a div b" using b by simp
  qed
  then show ?thesis by linarith
qed

lemma roundTo_less: "0 < unit \<Longrightarrow> roundTo ms unit < n \<longleftrightarrow> 2 * ms < 2000 * unit * n - 1000 * unit"
proof -
  assume u: "0 < unit"
  have "roundTo ms unit < n \<longleftrightarrow> 2 * ms + 1000 * unit < n * (2000 * unit)"
    unfolding roundTo_def using u by (subst int_div_less) simp_all
  then show ?thesis by (simp add: algebra_simps)
qed

lemma roundTo_ge: "0 < unit \<Longrightarrow> n \<le> roundTo ms unit \<longleftrightarrow> 2000 * unit * n - 1000 * unit \<le> 2 * ms"
  using roundTo_less [of unit ms n] by linarith

lemmas unit_defs = MINUTE_def HOUR_def DAY_def MONTH_def YEAR_def

text \<open>Every label of the ladder counts at least one and fewer than the next unit holds.\<close>

lemma agoOf_bounds:
  obtains "ms < 45000" "agoOf ms = js ''just now''"
  | n where "1 \<le> n" "n < 60" "agoOf ms = agoLabel n (js ''m'')"
  | n where "1 \<le> n" "n < 24" "agoOf ms = agoLabel n (js ''h'')"
  | n where "1 \<le> n" "n < 30" "agoOf ms = agoLabel n (js ''d'')"
  | n where "1 \<le> n" "n < 12" "agoOf ms = agoLabel n (js ''mo'')"
  | n where "1 \<le> n" "agoOf ms = agoLabel n (js ''y'')"
proof -
  note ladder = agoOf_def
  consider "ms < 45000" | "45000 \<le> ms" "ms < 90000" | "90000 \<le> ms" "roundTo ms MINUTE < 60"
    | "60 \<le> roundTo ms MINUTE" "90000 \<le> ms" "roundTo ms HOUR < 24"
    | "60 \<le> roundTo ms MINUTE" "90000 \<le> ms" "24 \<le> roundTo ms HOUR" "roundTo ms DAY < 30"
    | "60 \<le> roundTo ms MINUTE" "90000 \<le> ms" "24 \<le> roundTo ms HOUR" "30 \<le> roundTo ms DAY" "roundTo ms MONTH < 12"
    | "60 \<le> roundTo ms MINUTE" "90000 \<le> ms" "24 \<le> roundTo ms HOUR" "30 \<le> roundTo ms DAY" "12 \<le> roundTo ms MONTH"
    by linarith
  then show ?thesis
  proof cases
    case 1 then show ?thesis by (intro that(1)) (simp_all add: ladder)
  next
    case 2
    have "agoOf ms = agoLabel 1 (js ''m'')"
      using 2 showNat_one by (simp add: ladder agoLabel_def showInt_def js_append [symmetric])
    then show ?thesis by (intro that(2) [of 1]) simp_all
  next
    case 3 then show ?thesis
      by (intro that(2) [of "roundTo ms MINUTE"]) (simp_all add: ladder, simp_all add: roundTo_ge unit_defs)
  next
    case 4 then show ?thesis
      by (intro that(3) [of "roundTo ms HOUR"]) (simp_all add: ladder, simp_all add: roundTo_ge unit_defs)
  next
    case 5 then show ?thesis
      by (intro that(4) [of "roundTo ms DAY"]) (simp_all add: ladder, simp_all add: roundTo_ge unit_defs)
  next
    case 6 then show ?thesis
      by (intro that(5) [of "roundTo ms MONTH"]) (simp_all add: ladder, simp_all add: roundTo_ge unit_defs)
  next
    case 7 then show ?thesis
      by (intro that(6) [of "roundTo ms YEAR"]) (simp_all add: ladder, simp_all add: roundTo_ge unit_defs)
  qed
qed

lemma testState_known:
  "ts_tone (testState dateParse at ok now) \<noteq> NeverTone \<longleftrightarrow>
     (\<exists>b stamp t. ok = Some b \<and> at = Some stamp \<and> stamp \<noteq> [] \<and> dateParse stamp = Some t)"
  by (cases at) (auto simp: testState_def Let_def split: option.splits if_splits)

lemma testState_passed:
  "ts_tone (testState dateParse at ok now) = PassedTone \<longleftrightarrow>
     ok = Some True \<and> (\<exists>stamp t. at = Some stamp \<and> stamp \<noteq> [] \<and> dateParse stamp = Some t)"
  by (cases at) (auto simp: testState_def Let_def split: option.splits if_splits)

lemma testState_both: "ts_ago (testState dateParse at ok now) = None \<longleftrightarrow> ts_at (testState dateParse at ok now) = None"
  by (auto simp: testState_def Let_def split: option.splits if_splits)

lemma plainHTTP_discoverable: "plainHTTPCredential URL url a \<Longrightarrow> discoverable URL url"
  by (auto simp: plainHTTPCredential_def discoverable_def split: if_splits option.splits)

end
