(* ===== verification/ToolEntry.thy ===== *)
theory ToolEntry
  imports Api
begin

text \<open>
  Tool identities and rule entries: \<open>web/src/lib/tool-entry.ts\<close>.

  A group endpoint names a tool \<open>slug__name\<close>. A rule entry is \<open>scoped\<close> when it holds the
  separator with something before it, and then speaks of one member; otherwise it compares
  with the tool's own name on every member. \<open>matchToolEntry\<close> is the one matcher every list of
  the dashboard uses.

  The lemmas show that the first occurrence of the separator splits a scoped name back into
  the slug and the tool's own name whenever the slug is a valid one, what each entry matches,
  and which entries the API would accept. The locale \<open>entry_matcher\<close> is the interface the
  filter, the rule lists and the catalogue rely on.
\<close>

section \<open>Identities\<close>

definition TOOL_SEPARATOR :: jstr where
  "TOOL_SEPARATOR = js ''__''"

definition scopedToolName :: "jstr \<Rightarrow> jstr \<Rightarrow> jstr" where
  "scopedToolName slug name = (if slug = [] then [] else slug @ TOOL_SEPARATOR @ name)"

definition tickEntry :: "jstr \<Rightarrow> discovered_tool \<Rightarrow> jstr" where
  "tickEntry slug tool = orStr (orElse (t_scoped_name tool) []) (scopedToolName slug (t_name tool))"

record split_entry =
  se_head :: jstr
  se_rest :: jstr
  se_scoped :: bool

definition splitEntry :: "jstr \<Rightarrow> split_entry" where
  "splitEntry e =
     (let i = indexOf e TOOL_SEPARATOR in
      if i \<le> 0 then \<lparr>se_head = [], se_rest = e, se_scoped = False\<rparr>
      else \<lparr>se_head = take (nat i) e, se_rest = drop (nat i + length TOOL_SEPARATOR) e, se_scoped = True\<rparr>)"

section \<open>Clean entries\<close>

text \<open>Go's \<open>unicode.IsSpace\<close> and \<open>unicode.IsControl\<close> on a code point.\<close>

definition isSpace :: "nat \<Rightarrow> bool" where
  "isSpace cp \<longleftrightarrow>
     (cp \<ge> 0x09 \<and> cp \<le> 0x0d) \<or> cp = 0x20 \<or> cp = 0x85 \<or> cp = 0xa0 \<or> cp = 0x1680 \<or>
     (cp \<ge> 0x2000 \<and> cp \<le> 0x200a) \<or> cp = 0x2028 \<or> cp = 0x2029 \<or> cp = 0x202f \<or> cp = 0x205f \<or> cp = 0x3000"

definition isControl :: "nat \<Rightarrow> bool" where
  "isControl cp \<longleftrightarrow> cp \<le> 0x1f \<or> (cp \<ge> 0x7f \<and> cp \<le> 0x9f)"

definition cleanPoint :: "nat \<Rightarrow> bool" where
  "cleanPoint cp \<longleftrightarrow> \<not> (cp = 0xfffd \<or> (cp \<ge> 0xd800 \<and> cp \<le> 0xdfff) \<or> isSpace cp \<or> isControl cp)"

definition cleanEntry :: "jstr \<Rightarrow> bool" where
  "cleanEntry e \<longleftrightarrow> e \<noteq> [] \<and> list_all (\<lambda>ch. cleanPoint (codePointAt0 ch)) (codePoints e)"

section \<open>Matching\<close>

definition matchToolEntry :: "jstr \<Rightarrow> jstr \<Rightarrow> jstr \<Rightarrow> bool \<Rightarrow> bool" where
  "matchToolEntry entry slug name isPrefix =
     (if entry = [] then False
      else (let sp = splitEntry entry in
        if se_scoped sp \<and> se_head sp \<noteq> slug then False
        else if isPrefix then startsWith name (se_rest sp) else se_rest sp = name))"

section \<open>Slugs\<close>

text \<open>\<open>[a-z0-9_-]\<close> and \<open>[_-]\<close>.\<close>

definition isSlugSep :: "jchar \<Rightarrow> bool" where
  "isSlugSep c \<longleftrightarrow> c = 0x5f \<or> c = 0x2d"

definition isSlugUnit :: "jchar \<Rightarrow> bool" where
  "isSlugUnit c \<longleftrightarrow> isSlugAlnum c \<or> isSlugSep c"

text \<open>\<open>/^[a-z0-9]([a-z0-9_-]{0,38}[a-z0-9])?$/\<close>.\<close>

definition slugPattern :: "jstr \<Rightarrow> bool" where
  "slugPattern s \<longleftrightarrow> s \<noteq> [] \<and> isSlugAlnum (hd s) \<and>
     (length s = 1 \<or> (length s \<le> 40 \<and> list_all isSlugUnit s \<and> isSlugAlnum (last s)))"

text \<open>\<open>/[_-]{2,}/\<close>.\<close>

fun slugSepRun :: "jstr \<Rightarrow> bool" where
  "slugSepRun (c # d # cs) = ((isSlugSep c \<and> isSlugSep d) \<or> slugSepRun (d # cs))"
| "slugSepRun _ = False"

definition isHexUnit :: "jchar \<Rightarrow> bool" where
  "isHexUnit c \<longleftrightarrow> isDigit c \<or> (0x61 \<le> c \<and> c \<le> 0x66)"

text \<open>\<open>/^[0-9a-f]{8}-[0-9a-f]{4}-[0-9a-f]{4}-[0-9a-f]{4}-[0-9a-f]{12}$/\<close>.\<close>

definition uuidLike :: "jstr \<Rightarrow> bool" where
  "uuidLike s \<longleftrightarrow> length s = 36 \<and>
     list_all (\<lambda>(i, c). if i \<in> {8, 13, 18, 23} then c = 0x2d else isHexUnit c) (zip [0..<36] s)"

definition validSlug :: "jstr \<Rightarrow> bool" where
  "validSlug s \<longleftrightarrow> slugPattern s \<and> \<not> slugSepRun s \<and> \<not> uuidLike s"

section \<open>Write-side problems\<close>

datatype entry_kind = ToolKind | PrefixKind
datatype rule_side = AllowSide | DenySide

definition entryProblem :: "jstr \<Rightarrow> entry_kind \<Rightarrow> rule_side \<Rightarrow> bool \<Rightarrow> jstr" where
  "entryProblem entry kind side groupTarget =
     (let shown = quoteStr entry in
      if entry = [] then js ''An entry cannot be empty.''
      else if \<not> cleanEntry entry then
        shown @ js '' holds a space or a control character. An entry is compared with the tool name character for character.''
      else (let sp = splitEntry entry in
        if se_scoped sp then
          (if \<not> validSlug (se_head sp) then
             shown @ js '': the text before '' @ TOOL_SEPARATOR @ js '' must be an upstream's slug.''
           else if se_rest sp = [] \<and> kind = ToolKind then
             shown @ js '': nothing follows '' @ TOOL_SEPARATOR @
               js '', so it names no tool. Add it as a prefix to cover every tool on that upstream.''
           else [])
        else if side = AllowSide \<and> groupTarget then
          shown @ js '' names no member, so it admits nothing. Write it as slug'' @ TOOL_SEPARATOR @ entry @ js ''.''
        else []))"

section \<open>What a group's filter lets through\<close>

definition filterPermits :: "jstr \<Rightarrow> jstr list \<Rightarrow> jstr list \<Rightarrow> jstr \<Rightarrow> jstr \<Rightarrow> bool" where
  "filterPermits mode tools prefixes slug name =
     (if mode \<noteq> js ''allow'' \<and> mode \<noteq> js ''deny'' then True
      else (let allow = (mode = js ''allow'');
                usable = (\<lambda>e. \<not> allow \<or> se_scoped (splitEntry e));
                listed = list_ex (\<lambda>e. matchToolEntry e slug name False) (filter usable tools) \<or>
                         list_ex (\<lambda>e. matchToolEntry e slug name True) (filter usable prefixes)
            in if allow then listed else \<not> listed))"

section \<open>Splitting\<close>

lemma TOOL_SEPARATOR_units: "TOOL_SEPARATOR = [0x5f, 0x5f]"
  by (simp add: TOOL_SEPARATOR_def js_def)

lemma splitEntry_parts:
  assumes "se_scoped (splitEntry e)"
  shows "e = se_head (splitEntry e) @ TOOL_SEPARATOR @ se_rest (splitEntry e)"
    and "se_head (splitEntry e) \<noteq> []"
proof -
  from assms obtain k where k: "findSub 0 e TOOL_SEPARATOR = Some k" "0 < k"
    by (auto simp: splitEntry_def indexOf_def Let_def split: option.splits if_splits)
  then have sp: "splitEntry e = \<lparr>se_head = take k e, se_rest = drop (k + length TOOL_SEPARATOR) e, se_scoped = True\<rparr>"
    by (simp add: splitEntry_def indexOf_def)
  have sub: "take (length TOOL_SEPARATOR) (drop k e) = TOOL_SEPARATOR"
    using findSub_Some [OF k(1)] by simp
  have "e = take k e @ take (length TOOL_SEPARATOR) (drop k e) @ drop (length TOOL_SEPARATOR) (drop k e)"
    by (metis append_take_drop_id)
  then show "e = se_head (splitEntry e) @ TOOL_SEPARATOR @ se_rest (splitEntry e)"
    using sub sp by (simp add: add.commute)
  have "drop k e \<noteq> []" using sub by (auto simp: TOOL_SEPARATOR_units)
  with k(2) sp show "se_head (splitEntry e) \<noteq> []" by auto
qed

lemma splitEntry_unscoped:
  "\<not> se_scoped (splitEntry e) \<Longrightarrow> splitEntry e = \<lparr>se_head = [], se_rest = e, se_scoped = False\<rparr>"
  by (auto simp: splitEntry_def Let_def split: if_splits)

text \<open>Where the separator first occurs at the end of a head that does not itself hold it, the
  split finds that head. A slug qualifies: it ends in a letter or digit and holds no two
  separators in a row.\<close>

lemma sepRun_at:
  assumes "\<not> slugSepRun s" "j < length s"
  shows "take 2 (drop j s) \<noteq> [0x5f, 0x5f]"
  using assms
proof (induction s arbitrary: j rule: slugSepRun.induct)
  case (1 c d cs)
  show ?case
  proof (cases j)
    case 0
    with "1.prems"(1) show ?thesis by (auto simp: isSlugSep_def numeral_2_eq_2)
  next
    case (Suc i)
    with "1.prems" have "take 2 (drop i (d # cs)) \<noteq> [0x5f, 0x5f]"
      by (intro "1.IH") auto
    with Suc show ?thesis by simp
  qed
qed (auto simp: numeral_2_eq_2)

lemma isSlugAlnum_not_sep: "isSlugAlnum c \<Longrightarrow> \<not> isSlugSep c"
  by (auto simp: isSlugAlnum_def isLowerAZ_def isDigit_def isSlugSep_def)

lemma findSub_scoped:
  assumes "s \<noteq> []" "isSlugAlnum (last s)" "\<not> slugSepRun s"
  shows "findSub 0 (s @ TOOL_SEPARATOR @ name) TOOL_SEPARATOR = Some (length s)"
proof -
  have "findSub 0 (s @ TOOL_SEPARATOR @ name) TOOL_SEPARATOR =
        findSub (0 + length s) (TOOL_SEPARATOR @ name) TOOL_SEPARATOR"
  proof (rule findSub_skip)
    fix j assume j: "j < length s"
    show "take (length TOOL_SEPARATOR) (drop j (s @ TOOL_SEPARATOR @ name)) \<noteq> TOOL_SEPARATOR"
    proof (cases "Suc j < length s")
      case True
      then have "take 2 (drop j (s @ TOOL_SEPARATOR @ name)) = take 2 (drop j s)" by simp
      then have "take 2 (drop j (s @ TOOL_SEPARATOR @ name)) \<noteq> [0x5f, 0x5f]"
        using sepRun_at [OF assms(3) j] by (simp only: not_False_eq_True)
      then show ?thesis unfolding TOOL_SEPARATOR_units by (simp only: list.size) (simp add: numeral_2_eq_2)
    next
      case False
      with j have "j = length s - 1" by simp
      with assms(1) have "drop j s = [last s]"
        by (metis append_butlast_last_id append_eq_conv_conj length_butlast)
      with j have "drop j (s @ TOOL_SEPARATOR @ name) = last s # TOOL_SEPARATOR @ name" by simp
      moreover have "last s \<noteq> 0x5f"
        using isSlugAlnum_not_sep [OF assms(2)] by (auto simp: isSlugSep_def)
      ultimately show ?thesis by (simp add: TOOL_SEPARATOR_units)
    qed
  qed
  also have "\<dots> = Some (length s)"
    by (simp add: findSub_here)
  finally show ?thesis .
qed

lemma validSlug_ends:
  assumes "validSlug s"
  shows "s \<noteq> []" "isSlugAlnum (hd s)" "isSlugAlnum (last s)" "\<not> slugSepRun s" "length s \<le> 40"
  using assms by (auto simp: validSlug_def slugPattern_def length_Suc_conv)

lemma splitEntry_scopedToolName:
  assumes "validSlug slug"
  shows "splitEntry (scopedToolName slug name) = \<lparr>se_head = slug, se_rest = name, se_scoped = True\<rparr>"
  using assms findSub_scoped [of slug name] validSlug_ends [OF assms]
  by (simp add: scopedToolName_def splitEntry_def indexOf_def)

section \<open>Matching laws\<close>

lemma matchToolEntry_scoped:
  "se_scoped (splitEntry e) \<Longrightarrow>
     matchToolEntry e slug name p \<longleftrightarrow>
     slug = se_head (splitEntry e) \<and>
     (if p then startsWith name (se_rest (splitEntry e)) else name = se_rest (splitEntry e))"
  using splitEntry_parts [of e]
  by (auto simp: matchToolEntry_def Let_def)

lemma matchToolEntry_unscoped:
  "\<not> se_scoped (splitEntry e) \<Longrightarrow>
     matchToolEntry e slug name p \<longleftrightarrow> e \<noteq> [] \<and> (if p then startsWith name e else name = e)"
  using splitEntry_unscoped [of e]
  by (auto simp: matchToolEntry_def Let_def)

lemma matchToolEntry_own:
  assumes "validSlug slug"
  shows "matchToolEntry (scopedToolName slug name) slug' name' p \<longleftrightarrow>
     slug' = slug \<and> (if p then startsWith name' name else name' = name)"
  using matchToolEntry_scoped [of "scopedToolName slug name" slug' name' p]
  by (simp add: splitEntry_scopedToolName [OF assms])

text \<open>The interface of a rule list. \<open>matches e t\<close> says that an entry names a tool, \<open>skipped e\<close>
  that the proxy leaves the entry out; \<open>lists\<close> is the verdict of a whole list.\<close>

locale entry_matcher =
  fixes matches :: "'e \<Rightarrow> 't \<Rightarrow> bool"
    and skipped :: "'e \<Rightarrow> bool"
    and lists :: "'e list \<Rightarrow> 't \<Rightarrow> bool"
  assumes lists_iff: "lists es t \<longleftrightarrow> (\<exists>e \<in> set es. \<not> skipped e \<and> matches e t)"
begin

lemma lists_set_cong: "set es = set es' \<Longrightarrow> lists es t = lists es' t"
  by (simp add: lists_iff)

lemma lists_Nil: "\<not> lists [] t"
  by (simp add: lists_iff)

lemma lists_mono: "set es \<subseteq> set es' \<Longrightarrow> lists es t \<Longrightarrow> lists es' t"
  by (auto simp: lists_iff)

lemma lists_all_skipped: "\<forall>e \<in> set es. skipped e \<Longrightarrow> \<not> lists es t"
  by (auto simp: lists_iff)

lemma lists_append: "lists (es @ es') t \<longleftrightarrow> lists es t \<or> lists es' t"
  by (auto simp: lists_iff)

end

text \<open>The two lists of a group filter, on the two sides.\<close>

definition listedBy :: "bool \<Rightarrow> bool \<Rightarrow> jstr list \<Rightarrow> jstr \<times> jstr \<Rightarrow> bool" where
  "listedBy isPrefix allow es t =
     list_ex (\<lambda>e. matchToolEntry e (fst t) (snd t) isPrefix) (filter (\<lambda>e. \<not> allow \<or> se_scoped (splitEntry e)) es)"

interpretation filter_list: entry_matcher
  "\<lambda>e t. matchToolEntry e (fst t) (snd t) isPrefix" "\<lambda>e. allow \<and> \<not> se_scoped (splitEntry e)" "listedBy isPrefix allow"
  for isPrefix allow
  by unfold_locales (auto simp: listedBy_def list_ex_iff)

lemma listedBy_Nil [simp]: "\<not> listedBy isPrefix allow [] t"
  by (simp add: listedBy_def)

lemma filterPermits_listed:
  "filterPermits (js ''allow'') tools prefixes slug name \<longleftrightarrow>
     listedBy False True tools (slug, name) \<or> listedBy True True prefixes (slug, name)"
  "filterPermits (js ''deny'') tools prefixes slug name \<longleftrightarrow>
     \<not> (listedBy False False tools (slug, name) \<or> listedBy True False prefixes (slug, name))"
  "mode \<noteq> js ''allow'' \<Longrightarrow> mode \<noteq> js ''deny'' \<Longrightarrow> filterPermits mode tools prefixes slug name"
  by (simp_all add: filterPermits_def listedBy_def Let_def)

lemma filterPermits_set_cong:
  assumes "set tools = set tools'" "set prefixes = set prefixes'"
  shows "filterPermits mode tools prefixes slug name = filterPermits mode tools' prefixes' slug name"
proof -
  have *: "listedBy False a tools t = listedBy False a tools' t"
    "listedBy True a prefixes t = listedBy True a prefixes' t" for a t
    using filter_list.lists_set_cong [OF assms(1)] filter_list.lists_set_cong [OF assms(2)] by auto
  consider "mode = js ''allow''" | "mode = js ''deny''" | "mode \<noteq> js ''allow''" "mode \<noteq> js ''deny''" by blast
  then show ?thesis by cases (simp_all add: filterPermits_listed *)
qed

section \<open>Accepted entries\<close>

lemma quoteStr_neq_Nil [simp]: "quoteStr s \<noteq> []"
  by (simp add: quoteStr_def)

lemma entryProblem_none_iff:
  "entryProblem entry kind side groupTarget = [] \<longleftrightarrow>
     cleanEntry entry \<and>
     (if se_scoped (splitEntry entry)
      then validSlug (se_head (splitEntry entry)) \<and> (kind = ToolKind \<longrightarrow> se_rest (splitEntry entry) \<noteq> [])
      else \<not> (side = AllowSide \<and> groupTarget))"
  by (auto simp: entryProblem_def Let_def cleanEntry_def)

text \<open>Evaluation of \<open>cleanEntry\<close> on literals by the simplifier, which keeps code points as numerals.\<close>

lemmas clean_eval = cleanEntry_def cleanPoint_def isSpace_def isControl_def isHighSurrogate_def isLowSurrogate_def js_eval

section \<open>Properties\<close>

text \<open>
  The entry the dashboard writes for a tool of a member with a valid slug is split back into that
  slug and that name, whatever characters the name holds.
\<close>

theorem scoped_entry_round_trip:
  assumes "validSlug slug"
  shows "splitEntry (scopedToolName slug name) = \<lparr>se_head = slug, se_rest = name, se_scoped = True\<rparr>"
  using assms by (rule splitEntry_scopedToolName)

theorem scoped_entry_round_trip_witness:
  "validSlug (js ''git_hub'') \<and>
   splitEntry (scopedToolName (js ''git_hub'') (js ''a__b'')) = \<lparr>se_head = js ''git_hub'', se_rest = js ''a__b'', se_scoped = True\<rparr>"
proof -
  have "validSlug (js ''git_hub'')" by code_simp
  with scoped_entry_round_trip [OF this] show ?thesis by blast
qed

text \<open>
  The scoped entry of a tool, used as a name and not as a prefix, matches that tool of that
  upstream and no other.
\<close>

theorem own_entry_matches_one_tool:
  assumes "validSlug slug"
  shows "matchToolEntry (scopedToolName slug name) slug' name' False \<longleftrightarrow> slug' = slug \<and> name' = name"
  using matchToolEntry_own [OF assms, of name slug' name' False] by simp

theorem own_entry_matches_one_tool_witness:
  "validSlug (js ''github'') \<and> matchToolEntry (scopedToolName (js ''github'') (js ''read'')) (js ''github'') (js ''read'') False \<and>
   \<not> matchToolEntry (scopedToolName (js ''github'') (js ''read'')) (js ''gitlab'') (js ''read'') False"
proof -
  have "validSlug (js ''github'')" by code_simp
  with own_entry_matches_one_tool [OF this] show ?thesis by simp
qed



end
