(* ===== verification/Slug.thy ===== *)
theory Slug
  imports ToolEntry
begin

text \<open>
  Slugs from names: \<open>web/src/lib/slug.ts\<close>, \<open>plural.ts\<close>, and \<open>slugName\<close> of \<open>clients.ts\<close>.

  \<open>deriveSlug\<close> previews the slug the server derives. The lemmas show that a derived slug is
  either empty or one \<open>validSlug\<close> accepts, that deriving is idempotent, and that the result
  does not depend on how the case table treats letters outside ASCII.
\<close>

section \<open>Definitions\<close>

text \<open>\<open>replace(/[^...]+/g, sep)\<close>: each maximal run of units outside \<open>P\<close> becomes one separator.\<close>

function collapse :: "(jchar \<Rightarrow> bool) \<Rightarrow> jchar \<Rightarrow> jstr \<Rightarrow> jstr" where
  "collapse P sep [] = []"
| "collapse P sep (c # cs) =
     (if P c then c # collapse P sep cs else sep # collapse P sep (dropWhile (\<lambda>d. \<not> P d) cs))"
  by pat_completeness auto
termination
  by (relation "measure (\<lambda>(P, sep, s). length s)") (auto simp: le_imp_less_Suc length_dropWhile_le)

definition isUnderscore :: "jchar \<Rightarrow> bool" where
  "isUnderscore c \<longleftrightarrow> c = 0x5f"

text \<open>\<open>deriveSlug\<close> over a given lower-casing function.\<close>

definition deriveSlugWith :: "(jstr \<Rightarrow> jstr) \<Rightarrow> jstr \<Rightarrow> jstr" where
  "deriveSlugWith lower name =
     (let s = map (\<lambda>c. if c = 0x130 then 0x69 else c) name;
          s = collapse isSlugAlnum 0x5f (lower (trim s));
          s = dropEndWhile isUnderscore (dropWhile isUnderscore s)
      in if length s > 40 then dropEndWhile isSlugSep (take 40 s) else s)"

definition deriveSlug :: "jstr \<Rightarrow> jstr" where
  "deriveSlug = deriveSlugWith toLowerCase"

text \<open>\<open>/^-|-$/g\<close> removes one hyphen at each end.\<close>

definition stripHyphens :: "jstr \<Rightarrow> jstr" where
  "stripHyphens s =
     (let t = (case s of c # cs \<Rightarrow> if c = 0x2d then cs else s | [] \<Rightarrow> [])
      in if t \<noteq> [] \<and> last t = 0x2d then butlast t else t)"

definition slugName :: "jstr \<Rightarrow> jstr" where
  "slugName name = orStr (stripHyphens (collapse isSlugAlnum 0x2d (toLowerCase name))) (js ''porymcp'')"

definition plural :: "nat \<Rightarrow> jstr \<Rightarrow> jstr" where
  "plural n noun = showNat n @ js '' '' @ noun @ (if n = 1 then [] else js ''s'')"

section \<open>The collapsed string\<close>

text \<open>Only letters, digits and the separator, and never two separators in a row.\<close>

definition slugBody :: "jstr \<Rightarrow> bool" where
  "slugBody s \<longleftrightarrow> (\<forall>c \<in> set s. isSlugAlnum c \<or> c = 0x5f) \<and> \<not> slugSepRun s"

lemma slugSepRun_Cons: "slugSepRun (c # cs) \<longleftrightarrow> (cs \<noteq> [] \<and> isSlugSep c \<and> isSlugSep (hd cs)) \<or> slugSepRun cs"
  by (cases cs) auto

lemma slugSepRun_append1: "slugSepRun s \<Longrightarrow> slugSepRun (s @ t)"
  by (induction s rule: slugSepRun.induct) auto

lemma slugSepRun_append2: "slugSepRun t \<Longrightarrow> slugSepRun (s @ t)"
  by (induction s) (auto simp: slugSepRun_Cons)

lemma slugBody_append: "slugBody (s @ t) \<Longrightarrow> slugBody s \<and> slugBody t"
  by (auto simp: slugBody_def dest: slugSepRun_append1 slugSepRun_append2)

lemma slugBody_take: "slugBody s \<Longrightarrow> slugBody (take n s)"
  by (metis append_take_drop_id slugBody_append)

lemma slugBody_dropWhile: "slugBody s \<Longrightarrow> slugBody (dropWhile P s)"
  by (metis slugBody_append takeWhile_dropWhile_id)

lemma slugBody_dropEndWhile: "slugBody s \<Longrightarrow> slugBody (dropEndWhile P s)"
  using dropEndWhile_split [of s P] slugBody_append by metis

lemma collapse_hd_alnum:
  "collapse P sep (dropWhile (\<lambda>d. \<not> P d) cs) = [] \<or> P (hd (collapse P sep (dropWhile (\<lambda>d. \<not> P d) cs)))"
proof (cases "dropWhile (\<lambda>d. \<not> P d) cs")
  case (Cons x xs)
  then have "P x" by (metis hd_dropWhile list.distinct(1) list.sel(1))
  with Cons show ?thesis by simp
next
  case Nil
  show ?thesis unfolding Nil by simp
qed

lemma slugBody_collapse: "slugBody (collapse isSlugAlnum 0x5f s)"
proof (induction isSlugAlnum "0x5f :: jchar" s rule: collapse.induct)
  case 1
  show ?case by (simp add: slugBody_def)
next
  case (2 c cs)
  show ?case
  proof (cases "isSlugAlnum c")
    case True
    with 2 show ?thesis using isSlugAlnum_not_sep by (auto simp: slugBody_def slugSepRun_Cons)
  next
    case False
    with 2 collapse_hd_alnum [of isSlugAlnum "0x5f" cs] show ?thesis
      by (auto simp: slugBody_def slugSepRun_Cons dest: isSlugAlnum_not_sep)
  qed
qed

lemma collapse_slugBody_id: "slugBody s \<Longrightarrow> collapse isSlugAlnum 0x5f s = s"
proof (induction s)
  case (Cons c cs)
  then have cs: "slugBody cs" using slugBody_append [of "[c]" cs] by simp
  show ?case
  proof (cases "isSlugAlnum c")
    case True
    with Cons cs show ?thesis by simp
  next
    case False
    with Cons.prems have c: "c = 0x5f" by (auto simp: slugBody_def)
    have "cs = [] \<or> isSlugAlnum (hd cs)"
      using Cons.prems c by (cases cs) (auto simp: slugBody_def isSlugSep_def)
    then have "dropWhile (\<lambda>d. \<not> isSlugAlnum d) cs = cs" by (simp add: dropWhile_id)
    with False c Cons.IH cs show ?thesis by simp
  qed
qed simp

section \<open>A derived slug is a slug\<close>

definition slugCore :: "jstr \<Rightarrow> bool" where
  "slugCore s \<longleftrightarrow> slugBody s \<and> length s \<le> 40 \<and> (s \<noteq> [] \<longrightarrow> isSlugAlnum (hd s) \<and> isSlugAlnum (last s))"

lemma slugBody_end_alnum: "slugBody s \<Longrightarrow> c \<in> set s \<Longrightarrow> \<not> isUnderscore c \<Longrightarrow> isSlugAlnum c"
  by (auto simp: slugBody_def isUnderscore_def)

lemma deriveSlugWith_core: "slugCore (deriveSlugWith lower name)"
proof -
  define b where "b = collapse isSlugAlnum 0x5f (lower (trim (map (\<lambda>c. if c = 0x130 then 0x69 else c) name)))"
  define d where "d = dropWhile isUnderscore b"
  define e where "e = dropEndWhile isUnderscore d"
  have body: "slugBody b" "slugBody d" "slugBody e"
    by (simp_all add: b_def d_def e_def slugBody_collapse slugBody_dropWhile slugBody_dropEndWhile)
  have d_hd: "d \<noteq> [] \<Longrightarrow> \<not> isUnderscore (hd d)"
    unfolding d_def by (rule hd_dropWhile)
  have e_d: "e \<noteq> [] \<Longrightarrow> hd e = hd d \<and> d \<noteq> []"
    unfolding e_def using hd_dropEndWhile by fastforce
  have e_last: "e \<noteq> [] \<Longrightarrow> \<not> isUnderscore (last e)"
    unfolding e_def by (rule last_dropEndWhile)
  have ends: "e \<noteq> [] \<Longrightarrow> isSlugAlnum (hd e) \<and> isSlugAlnum (last e)"
    using slugBody_end_alnum [OF body(3)] d_hd e_d e_last by (metis hd_in_set last_in_set)
  show ?thesis
  proof (cases "length e > 40")
    case False
    then have "deriveSlugWith lower name = e"
      by (simp add: deriveSlugWith_def b_def d_def e_def Let_def)
    with False body(3) ends show ?thesis by (simp add: slugCore_def)
  next
    case True
    define g where "g = dropEndWhile isSlugSep (take 40 e)"
    from True have r: "deriveSlugWith lower name = g"
      by (simp add: deriveSlugWith_def b_def d_def e_def g_def Let_def)
    have gb: "slugBody g" by (simp add: g_def slugBody_take slugBody_dropEndWhile body(3))
    have len: "length g \<le> 40"
      using length_dropEndWhile [of isSlugSep "take 40 e"] by (simp add: g_def)
    have "isSlugAlnum (hd g) \<and> isSlugAlnum (last g)" if ne: "g \<noteq> []"
    proof -
      have "hd g = hd e"
        using ne hd_dropEndWhile [of isSlugSep "take 40 e"] by (simp add: g_def hd_take)
      moreover have "e \<noteq> []" using ne by (auto simp: g_def)
      moreover have "\<not> isSlugSep (last g)" using ne unfolding g_def by (rule last_dropEndWhile)
      then have "isSlugAlnum (last g)"
        using gb ne by (auto simp: slugBody_def isSlugSep_def)
      ultimately show ?thesis using ends by simp
    qed
    with r gb len show ?thesis by (simp add: slugCore_def)
  qed
qed

lemma slugCore_valid:
  assumes "slugCore s" "s \<noteq> []"
  shows "validSlug s"
proof -
  have units: "\<forall>c \<in> set s. isSlugAlnum c \<or> c = 0x5f" and run: "\<not> slugSepRun s"
    and ends: "isSlugAlnum (hd s)" "isSlugAlnum (last s)" and len: "length s \<le> 40"
    using assms by (auto simp: slugCore_def slugBody_def)
  have "list_all isSlugUnit s"
    using units by (auto simp: list_all_iff isSlugUnit_def isSlugSep_def)
  with assms(2) ends len have "slugPattern s" by (simp add: slugPattern_def)
  moreover have "\<not> uuidLike s"
  proof
    assume "uuidLike s"
    then have l: "length s = 36"
      and all: "\<forall>p \<in> set (zip [0..<36] s). case p of (i, c) \<Rightarrow> if i \<in> {8, 13, 18, 23} then c = 0x2d else isHexUnit c"
      by (auto simp: uuidLike_def list_all_iff)
    have "(8, s ! 8) \<in> set (zip [0..<36] s)"
      using l by (auto simp: in_set_zip intro!: exI [of _ 8])
    with all have "s ! 8 = 0x2d" by auto
    moreover have "s ! 8 \<in> set s" using l by simp
    ultimately show False
      using units by (auto simp: isSlugAlnum_def isLowerAZ_def isDigit_def)
  qed
  ultimately show ?thesis using run by (simp add: validSlug_def)
qed

section \<open>Idempotence\<close>

lemma slugUnit_plain:
  assumes "isSlugAlnum c \<or> c = 0x5f"
  shows "\<not> isWhite c" "lowerUnit c = [c]" "c \<noteq> 0x130"
proof -
  have "unat c < 128" "\<not> (65 \<le> unat c \<and> unat c \<le> 90)" "33 \<le> unat c"
    using assms by (auto simp: isSlugAlnum_def isLowerAZ_def isDigit_def word_le_nat_alt)
  then show "\<not> isWhite c" "lowerUnit c = [c]" "c \<noteq> 0x130"
    by (auto simp: isWhite_def lowerUnit_def word_le_nat_alt)
qed

lemma slugBody_map_id: "slugBody s \<Longrightarrow> map (\<lambda>c. if c = 0x130 then 0x69 else c) s = s"
  using slugUnit_plain(3) by (intro map_idI) (auto simp: slugBody_def)

lemma slugBody_trim_id: "slugBody s \<Longrightarrow> trim s = s"
proof (cases "s = []")
  case False
  assume "slugBody s"
  then have "\<not> isWhite (hd s)" "\<not> isWhite (last s)"
    using False slugUnit_plain(1) by (auto simp: slugBody_def)
  then show ?thesis by (simp add: trim_def dropWhile_id dropEndWhile_id)
qed simp

lemma slugBody_lower_id: "slugBody s \<Longrightarrow> toLowerCase s = s"
proof -
  assume "slugBody s"
  then have "\<forall>c \<in> set s. lowerUnit c = [c]"
    using slugUnit_plain(2) by (auto simp: slugBody_def)
  then show ?thesis by (induction s) (simp_all add: toLowerCase_def)
qed

lemma slugCore_fixed:
  assumes "slugCore s"
  shows "deriveSlug s = s"
proof -
  have b: "slugBody s" and l: "length s \<le> 40" and
    ends: "s \<noteq> [] \<longrightarrow> \<not> isUnderscore (hd s) \<and> \<not> isUnderscore (last s)"
    using assms isSlugAlnum_not_sep by (auto simp: slugCore_def isUnderscore_def isSlugSep_def)
  have "dropWhile isUnderscore s = s" "dropEndWhile isUnderscore s = s"
    using ends by (auto simp: dropWhile_id dropEndWhile_id)
  with l show ?thesis
    by (simp add: deriveSlug_def deriveSlugWith_def Let_def slugBody_map_id [OF b] slugBody_trim_id [OF b]
        slugBody_lower_id [OF b] collapse_slugBody_id [OF b])
qed

section \<open>Case tables\<close>

text \<open>The collapse only sees which units are letters and digits, and runs of the others. So two
  lower-casings that differ only outside ASCII collapse to the same string.\<close>

lemma lowered_piece_alnum:
  assumes "lowered_piece a b" "c \<in> set a" "c = 0x130 \<longrightarrow> False"
  shows "(\<exists>d. a = [d] \<and> b = lowerUnit d \<and> d < 0x80) \<or> (a = [0x212a] \<and> b = [0x6b]) \<or>
     (a \<noteq> [] \<and> b \<noteq> [] \<and> (\<forall>d \<in> set (toLowerCase a). 0x80 \<le> d) \<and> (\<forall>d \<in> set b. 0x80 \<le> d))"
  using assms
proof (cases rule: lowered_piece.cases)
  case other
  have "\<forall>d \<in> set (toLowerCase a). 0x80 \<le> d"
  proof
    fix d assume "d \<in> set (toLowerCase a)"
    then obtain x where x: "x \<in> set a" "d \<in> set (lowerUnit x)" by (auto simp: toLowerCase_def)
    with other have "0x80 \<le> x" "x \<noteq> 0x130" "x \<noteq> 0x212a" by auto
    then have "lowered_piece [x] (lowerUnit x)" "\<not> x < 0x80" using lowered_piece_lowerUnit by auto
    with x \<open>x \<noteq> 0x130\<close> \<open>x \<noteq> 0x212a\<close> show "0x80 \<le> d" by (auto elim!: lowered_piece.cases)
  qed
  with other show ?thesis by auto
qed auto

lemma high_not_alnum: "0x80 \<le> c \<Longrightarrow> \<not> isSlugAlnum c"
proof -
  assume "0x80 \<le> c"
  then have "128 \<le> unat c" by (simp add: word_le_nat_alt)
  then show ?thesis by (auto simp: isSlugAlnum_def isLowerAZ_def isDigit_def word_le_nat_alt)
qed

lemma dropWhile_same_tail:
  assumes "\<forall>d \<in> set x. \<not> P d"
  shows "dropWhile (\<lambda>d. \<not> P d) (x @ s) = dropWhile (\<lambda>d. \<not> P d) s"
  using assms by (induction x) auto

lemma collapse_non_run:
  assumes "x \<noteq> []" "\<forall>d \<in> set x. \<not> P d"
  shows "collapse P sep (x @ s) = sep # collapse P sep (dropWhile (\<lambda>d. \<not> P d) s)"
proof -
  obtain c cs where x: "x = c # cs" using assms(1) by (cases x) auto
  with assms(2) show ?thesis by (simp add: dropWhile_same_tail)
qed

lemma lowered_collapse:
  assumes "lowered s t" "0x130 \<notin> set s"
  shows "collapse isSlugAlnum 0x5f t = collapse isSlugAlnum 0x5f (toLowerCase s) \<and>
     collapse isSlugAlnum 0x5f (dropWhile (\<lambda>d. \<not> isSlugAlnum d) t) =
     collapse isSlugAlnum 0x5f (dropWhile (\<lambda>d. \<not> isSlugAlnum d) (toLowerCase s))"
  using assms
proof (induction rule: lowered.induct)
  case lowered_Nil
  show ?case by (simp add: toLowerCase_def)
next
  case (lowered_step a b s t)
  have split: "toLowerCase (a @ s) = toLowerCase a @ toLowerCase s" by (simp add: toLowerCase_def)
  have IH: "collapse isSlugAlnum 0x5f t = collapse isSlugAlnum 0x5f (toLowerCase s)"
    "collapse isSlugAlnum 0x5f (dropWhile (\<lambda>d. \<not> isSlugAlnum d) t) =
     collapse isSlugAlnum 0x5f (dropWhile (\<lambda>d. \<not> isSlugAlnum d) (toLowerCase s))"
    using lowered_step by auto
  have "a \<noteq> []" using lowered_step.hyps(1) by (cases rule: lowered_piece.cases) auto
  then obtain c where c: "c \<in> set a" by (cases a) auto
  with lowered_step.prems have "c \<noteq> 0x130" by auto
  then consider (same) "b = toLowerCase a" "\<exists>d. b = [d]" | (high) "a \<noteq> []" "b \<noteq> []"
    "\<forall>d \<in> set (toLowerCase a). 0x80 \<le> d" "\<forall>d \<in> set b. 0x80 \<le> d"
    using lowered_piece_alnum [OF lowered_step.hyps(1) c]
    by (auto simp: toLowerCase_def lowerUnit_def split: if_splits)
  then show ?case
  proof cases
    case same
    then obtain d where "b = [d]" "toLowerCase a = [d]" by auto
    then show ?thesis using IH by (simp add: split)
  next
    case high
    have "toLowerCase a \<noteq> []" using high(1) by (cases a) (auto simp: toLowerCase_def lowerUnit_def)
    then show ?thesis
      using high IH high_not_alnum
      by (simp add: split collapse_non_run dropWhile_same_tail)
  qed
qed

context case_table
begin

lemma deriveSlugWith_agrees: "deriveSlugWith lower name = deriveSlug name"
proof -
  let ?s = "trim (map (\<lambda>c. if c = 0x130 then 0x69 else c) name)"
  have "set ?s \<subseteq> set (map (\<lambda>c. if c = 0x130 then 0x69 else c) name)"
    unfolding trim_def by (meson set_dropEndWhile set_dropWhileD subset_iff)
  then have "0x130 \<notin> set ?s" by (auto split: if_splits)
  then have "collapse isSlugAlnum 0x5f (lower ?s) = collapse isSlugAlnum 0x5f (toLowerCase ?s)"
    using lowered_collapse [OF pieces] by blast
  then show ?thesis by (simp add: deriveSlug_def deriveSlugWith_def)
qed

end

section \<open>Client names\<close>

lemma plural_one: "plural 1 noun = js ''1 '' @ noun"
  using showNat_one by (simp add: plural_def js_def)

section \<open>Properties\<close>

text \<open>
  The slug derived from any name is empty or one validSlug accepts, and deriving a slug from a
  derived slug gives it back.
\<close>

theorem derived_slug_is_valid:
  "(deriveSlug name = [] \<or> validSlug (deriveSlug name)) \<and> deriveSlug (deriveSlug name) = deriveSlug name"
  using slugCore_valid [OF deriveSlugWith_core] slugCore_fixed [OF deriveSlugWith_core] by (auto simp: deriveSlug_def)

end
