(* ===== verification/LogsView.thy ===== *)
theory LogsView
  imports CursorPages UpstreamAuth Slug
begin

text \<open>
  The Logs page's period, query, options and copy: \<open>web/src/lib/logs-view.ts\<close>, and the facet
  hook \<open>web/src/lib/use-log-facets.ts\<close>.

  What depends on the browser's time zone is an argument: how a zone-less time is read, and
  the local fields of an instant (\<open>zone\<close>). \<open>toISOString\<close> is the proleptic Gregorian calendar
  written out. The lemmas show that a query carries every filter as one parameter and nothing
  else, whatever characters a tool name holds, that a page request adds only the limit and the
  cursor, that the Tool select's values and the filters are in bijection, and that a select
  always offers what is selected.
\<close>

section \<open>Periods and filters\<close>

datatype period = Hours24 | Days7 | Days30 | CustomPeriod

definition PERIODS :: "(period \<times> jstr \<times> nat) list" where
  "PERIODS = [(Hours24, js ''Last 24 hours'', 24), (Days7, js ''Last 7 days'', 168), (Days30, js ''Last 30 days'', 720),
     (CustomPeriod, js ''Custom'', 0)]"

record log_filters =
  lg_virtual_key_id :: jstr
  lg_method :: jstr
  lg_tool :: jstr
  lg_noTool :: bool
  lg_status :: jstr
  lg_period :: period
  lg_since :: jstr
  lg_until :: jstr
  lg_sinceBad :: bool
  lg_untilBad :: bool

definition DEFAULT_FILTERS :: log_filters where
  "DEFAULT_FILTERS = \<lparr>lg_virtual_key_id = [], lg_method = [], lg_tool = [], lg_noTool = False, lg_status = [],
     lg_period = Days7, lg_since = [], lg_until = [], lg_sinceBad = False, lg_untilBad = False\<rparr>"

definition SINCE_MISSING :: jstr where "SINCE_MISSING = js ''Enter a start time.''"
definition INPUT_INCOMPLETE :: jstr where "INPUT_INCOMPLETE = js ''Enter a full date and time.''"
definition UNTIL_BEFORE_SINCE :: jstr where "UNTIL_BEFORE_SINCE = js ''Until is earlier than Since.''"

section \<open>Instants\<close>

definition padTo :: "nat \<Rightarrow> jstr \<Rightarrow> jstr" where
  "padTo n s = replicate (n - length s) 0x30 @ s"

definition isoYear :: "int \<Rightarrow> jstr" where
  "isoYear y = (if 0 \<le> y \<and> y \<le> 9999 then padTo 4 (showNat (nat y))
     else (if y < 0 then js ''-'' else js ''+'') @ padTo 6 (showNat (nat \<bar>y\<bar>)))"

text \<open>Year, month and day of a day number counted from 1970-01-01.\<close>

definition civil :: "int \<Rightarrow> int \<times> nat \<times> nat" where
  "civil days =
     (let z = days + 719468; era = z div 146097; doe = z mod 146097;
          yoe = (doe - doe div 1460 + doe div 36524 - doe div 146096) div 365;
          doy = doe - (365 * yoe + yoe div 4 - yoe div 100);
          mp = (5 * doy + 2) div 153;
          d = doy - (153 * mp + 2) div 5 + 1;
          m = (if mp < 10 then mp + 3 else mp - 9);
          y = yoe + era * 400 + (if m \<le> 2 then 1 else 0)
      in (y, nat m, nat d))"

text \<open>\<open>Date.prototype.toISOString\<close> of an instant in the range a \<open>Date\<close> holds.\<close>

definition toISOString :: "int \<Rightarrow> jstr" where
  "toISOString ms =
     (let (y, m, d) = civil (ms div 86400000); t = ms mod 86400000; num = (\<lambda>n i. padTo n (showNat (nat i))) in
      isoYear y @ js ''-'' @ padTo 2 (showNat m) @ js ''-'' @ padTo 2 (showNat d) @ js ''T'' @
      num 2 (t div 3600000) @ js '':'' @ num 2 (t div 60000 mod 60) @ js '':'' @ num 2 (t div 1000 mod 60) @
      js ''.'' @ num 3 (t mod 1000) @ js ''Z'')"

text \<open>The browser's zone: how a zone-less text is read (none when it is no date), an instant moved
  to the last millisecond of its local minute, the local fields of an instant, and how
  \<open>Date.parse\<close> reads an ISO text.\<close>

record zone =
  z_read :: "jstr \<Rightarrow> int option"
  z_endOfMinute :: "int \<Rightarrow> int"
  z_fields :: "int \<Rightarrow> nat \<times> nat \<times> nat \<times> nat \<times> nat"
  z_parse :: "jstr \<Rightarrow> int option"

definition HOUR_MS :: int where "HOUR_MS = 3600000"

text \<open>\<open>LOCAL_INPUT\<close>: a date, a T, hours and minutes, optional seconds with an optional fraction.\<close>

definition digitsAt :: "jstr \<Rightarrow> nat \<Rightarrow> nat \<Rightarrow> bool" where
  "digitsAt v i n \<longleftrightarrow> i + n \<le> length v \<and> list_all isDigit (take n (drop i v))"

definition unitAt :: "jstr \<Rightarrow> nat \<Rightarrow> jchar \<Rightarrow> bool" where
  "unitAt v i c \<longleftrightarrow> i < length v \<and> v ! i = c"

definition localInput :: "jstr \<Rightarrow> bool" where
  "localInput v \<longleftrightarrow>
     digitsAt v 0 4 \<and> unitAt v 4 0x2d \<and> digitsAt v 5 2 \<and> unitAt v 7 0x2d \<and> digitsAt v 8 2 \<and> unitAt v 10 0x54 \<and>
     digitsAt v 11 2 \<and> unitAt v 13 0x3a \<and> digitsAt v 14 2 \<and>
     (let r = drop 16 v in
      r = [] \<or> unitAt r 0 0x3a \<and> digitsAt r 1 2 \<and>
        (let f = drop 3 r in f = [] \<or> unitAt f 0 0x2e \<and> length f > 1 \<and> list_all isDigit (drop 1 f)))"

definition parseLocal :: "zone \<Rightarrow> jstr \<Rightarrow> int option" where
  "parseLocal z v = (if \<not> localInput v then None else z_read z v)"

definition fromLocalInput :: "zone \<Rightarrow> jstr \<Rightarrow> jstr option" where
  "fromLocalInput z v = map_option toISOString (parseLocal z v)"

text \<open>\<open>.replace(/\.999Z$/, '.999999999Z')\<close>.\<close>

definition lastNano :: "jstr \<Rightarrow> jstr" where
  "lastNano s = (if endsWith s (js ''.999Z'') then take (length s - 5) s @ js ''.999999999Z'' else s)"

definition untilFromLocalInput :: "zone \<Rightarrow> jstr \<Rightarrow> jstr option" where
  "untilFromLocalInput z v =
     (case parseLocal z v of None \<Rightarrow> None | Some d \<Rightarrow> Some (lastNano (toISOString (z_endOfMinute z d))))"

definition toLocalInput :: "zone \<Rightarrow> int \<Rightarrow> jstr" where
  "toLocalInput z ms =
     (let (y, m, d, h, mi) = z_fields z ms; two = (\<lambda>n. padTo 2 (showNat n)) in
      showNat y @ js ''-'' @ two m @ js ''-'' @ two d @ js ''T'' @ two h @ js '':'' @ two mi)"

definition presetHours :: "period \<Rightarrow> nat" where
  "presetHours p = (case List.find (\<lambda>x. fst x = p) PERIODS of Some x \<Rightarrow> snd (snd x) | None \<Rightarrow> 0)"

definition logWindow :: "zone \<Rightarrow> log_filters \<Rightarrow> int \<Rightarrow> jstr option \<times> jstr option" where
  "logWindow z f anchor =
     (if lg_period f = CustomPeriod then (fromLocalInput z (lg_since f), untilFromLocalInput z (lg_until f))
      else (Some (toISOString (anchor - int (presetHours (lg_period f)) * HOUR_MS)), None))"

definition customPrefill :: "zone \<Rightarrow> log_filters \<Rightarrow> int \<Rightarrow> jstr" where
  "customPrefill z f anchor =
     (if lg_period f = CustomPeriod then lg_since f
      else toLocalInput z (anchor - int (presetHours (lg_period f)) * HOUR_MS))"

text \<open>The messages of the two inputs; \<open>Date.parse\<close> on a text with no date compares as false.\<close>

definition customProblems :: "zone \<Rightarrow> log_filters \<Rightarrow> jstr option \<times> jstr option" where
  "customProblems z f =
     (if lg_period f \<noteq> CustomPeriod then (None, None)
      else (let since = fromLocalInput z (lg_since f); until = untilFromLocalInput z (lg_until f) in
        (if lg_sinceBad f then Some INPUT_INCOMPLETE else if since = None then Some SINCE_MISSING else None,
         if lg_untilBad f then Some INPUT_INCOMPLETE
         else (case (since, until) of
                 (Some s, Some u) \<Rightarrow>
                   (case (z_parse z u, z_parse z s) of
                      (Some a, Some b) \<Rightarrow> if a < b then Some UNTIL_BEFORE_SINCE else None
                    | _ \<Rightarrow> None)
               | _ \<Rightarrow> None))))"

section \<open>Queries\<close>

definition setIf :: "jstr \<Rightarrow> jstr \<Rightarrow> params \<Rightarrow> params" where
  "setIf k v q = (if v \<noteq> [] then spSet k v q else q)"

definition logParams :: "zone \<Rightarrow> log_filters \<Rightarrow> int \<Rightarrow> params" where
  "logParams z f anchor =
     (let q1 = setIf (js ''virtual_key_id'') (lg_virtual_key_id f) [];
          q2 = setIf (js ''method'') (lg_method f) q1;
          q3 = (if lg_noTool f then spSet (js ''has_tool'') (js ''false'') q2 else setIf (js ''tool'') (lg_tool f) q2);
          q4 = setIf (js ''status'') (lg_status f) q3;
          (since, until) = logWindow z f anchor;
          q5 = setIf (js ''since'') (orElse since []) q4
      in setIf (js ''until'') (orElse until []) q5)"

definition logQuery :: "zone \<Rightarrow> log_filters \<Rightarrow> int \<Rightarrow> jstr option" where
  "logQuery z f anchor =
     (if lg_period f = CustomPeriod \<and> (fst (customProblems z f) \<noteq> None \<or> lg_untilBad f) then None
      else Some (spString (logParams z f anchor)))"

definition facetQuery :: "zone \<Rightarrow> log_filters \<Rightarrow> int \<Rightarrow> jstr option" where
  "facetQuery z f anchor = logQuery z (f\<lparr>lg_method := [], lg_tool := [], lg_noTool := False\<rparr>) anchor"

section \<open>Options\<close>

definition ALL_METHODS :: jstr where "ALL_METHODS = js ''All methods''"
definition ALL_TOOLS :: jstr where "ALL_TOOLS = js ''All tools''"
definition ALL_STATUSES :: jstr where "ALL_STATUSES = js ''All statuses''"
definition NO_TOOL :: jstr where "NO_TOOL = js ''no tool''"
definition FACET_CAP :: nat where "FACET_CAP = 200"
definition NONE_CHOICE :: jstr where "NONE_CHOICE = js ''none''"
definition NAMED_TOOL :: jstr where "NAMED_TOOL = js ''tool:''"

definition STATUSES :: "(jstr \<times> jstr) list" where
  "STATUSES = [(js ''success'', js ''Success''), (js ''error'', js ''Error''), (js ''blocked'', js ''Blocked'')]"

text \<open>A pair of a value and a label is an option.\<close>

type_synonym filter_option = "jstr \<times> jstr"

definition toolChoice :: "jstr \<Rightarrow> bool \<Rightarrow> jstr" where
  "toolChoice tool noTool = (if noTool then NONE_CHOICE else if tool \<noteq> [] then NAMED_TOOL @ tool else [])"

definition fromToolChoice :: "jstr \<Rightarrow> jstr \<times> bool" where
  "fromToolChoice v =
     (if v = NONE_CHOICE then ([], True)
      else if startsWith v NAMED_TOOL then (drop (length NAMED_TOOL) v, False)
      else ([], False))"

definition isBidi :: "jchar \<Rightarrow> bool" where
  "isBidi c \<longleftrightarrow> (0x202a \<le> c \<and> c \<le> 0x202e) \<or> (0x2066 \<le> c \<and> c \<le> 0x2069)"

definition dropBidi :: "jstr \<Rightarrow> jstr" where
  "dropBidi s = filter (\<lambda>c. \<not> isBidi c) s"

definition counted :: "jstr \<Rightarrow> nat \<Rightarrow> jstr" where
  "counted lbl count = [0x2068] @ dropBidi lbl @ [0x2069] @ js '' ('' @ showNat count @ js '')''"

definition facetList :: "(log_facets \<Rightarrow> facet_entry list) \<Rightarrow> log_facets option \<Rightarrow> facet_entry list" where
  "facetList sel facets = (case facets of None \<Rightarrow> [] | Some f \<Rightarrow> sel f)"

definition methodOptions :: "log_facets option \<Rightarrow> jstr \<Rightarrow> filter_option list" where
  "methodOptions facets selected =
     (let out = [([], ALL_METHODS)] @
            map (\<lambda>e. (fe_value e, counted (fe_value e) (fe_count e))) (filter (\<lambda>e. fe_value e \<noteq> []) (facetList lf_methods facets))
      in if selected \<noteq> [] \<and> \<not> list_ex (\<lambda>op. fst op = selected) out then out @ [(selected, selected)] else out)"

definition namedTools :: "facet_entry list \<Rightarrow> (jstr \<times> jstr \<times> jstr) list" where
  "namedTools es = map (\<lambda>e. (NAMED_TOOL @ fe_value e, counted (fe_value e) (fe_count e), fe_value e)) (filter (\<lambda>e. fe_value e \<noteq> []) es)"

text \<open>The count of the last entry with no tool.\<close>

definition emptyCount :: "facet_entry list \<Rightarrow> nat option" where
  "emptyCount es = map_of (rev (map (\<lambda>e. (fe_value e, fe_count e)) es)) []"

text \<open>\<open>named\<close> and \<open>names\<close> as one list: the value, the label and the raw name of each tool option.\<close>

definition toolRows :: "facet_entry list \<Rightarrow> jstr \<Rightarrow> bool \<Rightarrow> (jstr \<times> jstr \<times> jstr) list" where
  "toolRows es tool noTool =
     (let named = namedTools es in
      if tool \<noteq> [] \<and> \<not> noTool \<and> \<not> list_ex (\<lambda>x. fst x = NAMED_TOOL @ tool) named
      then named @ [(NAMED_TOOL @ tool, tool, tool)] else named)"

definition toolOptions :: "log_facets option \<Rightarrow> jstr \<Rightarrow> bool \<Rightarrow> filter_option list" where
  "toolOptions facets tool noTool =
     (let es = facetList lf_tools facets;
          named = toolRows es tool noTool;
          empty = emptyCount es;
          clash = list_ex (\<lambda>x. trim (dropBidi (snd (snd x))) = ABSENT) named;
          lbl = (if clash then ABSENT @ js '' ('' @ NO_TOOL @ js '')'' else ABSENT)
      in [([], ALL_TOOLS)] @
         (if empty \<noteq> None \<or> noTool
          then [(NONE_CHOICE, case empty of None \<Rightarrow> lbl | Some n \<Rightarrow> counted lbl n)] else []) @
         map (\<lambda>x. (fst x, fst (snd x))) named)"

definition statusOptions :: "log_facets option \<Rightarrow> filter_option list" where
  "statusOptions facets =
     [([], ALL_STATUSES)] @
     map (\<lambda>s. (fst s,
        case facets of
          None \<Rightarrow> snd s
        | Some f \<Rightarrow> counted (snd s) (case List.find (\<lambda>e. fe_value e = fst s) (lf_statuses f) of None \<Rightarrow> 0 | Some e \<Rightarrow> fe_count e)))
       STATUSES"

definition facetCut :: "log_facets option \<Rightarrow> (log_facets \<Rightarrow> facet_entry list) \<Rightarrow> bool" where
  "facetCut facets sel = (case facets of None \<Rightarrow> False | Some f \<Rightarrow> lf_truncated f \<and> length (sel f) = FACET_CAP)"

section \<open>Cells\<close>

datatype upstream_cell = AbsentCell | LoadingCell | NameCell jstr jstr | IdCell jstr

definition upstreamCell :: "jstr option \<Rightarrow> (jstr \<rightharpoonup> jstr \<times> jstr) option \<Rightarrow> bool \<Rightarrow> upstream_cell" where
  "upstreamCell i names failed =
     (let u = orElse i [] in
      if u = [] then AbsentCell
      else if failed then IdCell u
      else (case names of
              None \<Rightarrow> LoadingCell
            | Some m \<Rightarrow> (case m u of Some (n, s) \<Rightarrow> NameCell n s | None \<Rightarrow> IdCell u)))"

datatype count_noun = CallNoun | ChangeNoun

definition countLine :: "nat \<Rightarrow> count_noun \<Rightarrow> page_end option \<Rightarrow> jstr" where
  "countLine n noun e =
     (case e of
        None \<Rightarrow> []
      | Some pe \<Rightarrow>
          (let shown = plural n (case noun of CallNoun \<Rightarrow> js ''call'' | ChangeNoun \<Rightarrow> js ''change'') @ js '' shown.'' in
           if pe \<noteq> LastEnd then shown
           else (case noun of CallNoun \<Rightarrow> shown @ js '' No older calls in this period.''
                 | ChangeNoun \<Rightarrow> shown @ js '' No older changes.'')))"

section \<open>Laws\<close>

lemma spSet_keys: "fst ` set (spSet k v ps) = insert k (fst ` set ps)"
  by (induction k v ps rule: spSet.induct) auto

lemma spGet_setIf: "spGet k (setIf k' v ps) = (if k = k' \<and> v \<noteq> [] then Some v else spGet k ps)"
  by (simp add: setIf_def spGet_spSet)

lemma ascii_wellFormed: "\<forall>c \<in> set s. unat c < 128 \<Longrightarrow> wellFormed s"
proof -
  assume "\<forall>c \<in> set s. unat c < 128"
  then have "\<not> isHighSurrogate c \<and> \<not> isLowSurrogate c" if "c \<in> set s" for c using that by (auto simp: surrogate_nat)
  moreover have "set p \<subseteq> set s" if "p \<in> set (codePoints s)" for p
    using that concat_codePoints [of s] by (metis Union_upper image_eqI set_concat)
  ultimately show ?thesis
    by (fastforce simp: wellFormed_def list_all_iff split: list.splits)
qed

lemma js_ascii: "\<forall>c \<in> set s. of_char c < (128 :: nat) \<Longrightarrow> \<forall>u \<in> set (js s). unat u < 128"
  by (auto simp: js_def unat_of_char)

lemma showNat_ascii: "u \<in> set (showNat n) \<Longrightarrow> unat u < 128"
proof -
  assume "u \<in> set (showNat n)"
  then have "isDigit u" using showNat_digits [of n] by (simp add: list_all_iff)
  then have "unat u \<le> 57" by (simp add: isDigit_def word_le_nat_alt)
  then show ?thesis by simp
qed

lemma padTo_ascii: "u \<in> set (padTo k (showNat n)) \<Longrightarrow> unat u < 128"
  by (auto simp: padTo_def dest: showNat_ascii)

lemma toISOString_ascii: "u \<in> set (toISOString ms) \<Longrightarrow> unat u < 128"
  by (auto simp: toISOString_def isoYear_def Let_def js_Cons split_beta split: if_splits dest: padTo_ascii)

lemma lastNano_ascii: "\<forall>u \<in> set s. unat u < 128 \<Longrightarrow> u \<in> set (lastNano s) \<Longrightarrow> unat u < 128"
  by (auto simp: lastNano_def js_Cons split: if_splits dest: in_set_takeD)

lemma logWindow_wf:
  "wellFormed (orElse (fst (logWindow z f a)) [])" "wellFormed (orElse (snd (logWindow z f a)) [])"
  by (auto simp: logWindow_def fromLocalInput_def untilFromLocalInput_def orElse_def split: option.splits
      intro!: ascii_wellFormed dest: toISOString_ascii lastNano_ascii [rotated])

lemma wellFormed_js: "list_all (\<lambda>c. of_char c < (128 :: nat)) s \<Longrightarrow> wellFormed (js s)"
  by (rule ascii_wellFormed) (use js_ascii [of s] in \<open>auto simp: list_all_iff\<close>)

definition wfParams :: "params \<Rightarrow> bool" where
  "wfParams ps \<longleftrightarrow> (\<forall>p \<in> set ps. wellFormed (fst p) \<and> wellFormed (snd p))"

lemma wfParams_set: "wellFormed k \<Longrightarrow> wellFormed v \<Longrightarrow> wfParams ps \<Longrightarrow> wfParams (spSet k v ps)"
  unfolding wfParams_def by (rule wellFormed_spSet)

lemma wfParams_setIf: "wellFormed k \<Longrightarrow> wellFormed v \<Longrightarrow> wfParams ps \<Longrightarrow> wfParams (setIf k v ps)"
  by (simp add: setIf_def wfParams_set)

text \<open>Filters whose texts hold no lone surrogate: what a select or an input can hold.\<close>

definition filtersWf :: "log_filters \<Rightarrow> bool" where
  "filtersWf f \<longleftrightarrow> wellFormed (lg_virtual_key_id f) \<and> wellFormed (lg_method f) \<and> wellFormed (lg_tool f) \<and> wellFormed (lg_status f)"

lemma wfParams_log:
  assumes "filtersWf f"
  shows "wfParams (logParams z f anchor)"
proof -
  have "wfParams []" by (simp add: wfParams_def)
  with assms show ?thesis
    unfolding logParams_def Let_def split_beta filtersWf_def
    by (auto intro!: wfParams_setIf wfParams_set wellFormed_js logWindow_wf)
qed

lemma logParams_get:
  "spGet (js ''virtual_key_id'') (logParams z f a) = (if lg_virtual_key_id f \<noteq> [] then Some (lg_virtual_key_id f) else None)"
  "spGet (js ''method'') (logParams z f a) = (if lg_method f \<noteq> [] then Some (lg_method f) else None)"
  "spGet (js ''tool'') (logParams z f a) = (if \<not> lg_noTool f \<and> lg_tool f \<noteq> [] then Some (lg_tool f) else None)"
  "spGet (js ''has_tool'') (logParams z f a) = (if lg_noTool f then Some (js ''false'') else None)"
  "spGet (js ''status'') (logParams z f a) = (if lg_status f \<noteq> [] then Some (lg_status f) else None)"
  by (simp_all add: logParams_def Let_def split_beta spGet_setIf spGet_spSet) (simp_all add: spGet_def)

lemma setIf_keys: "fst ` set (setIf k v ps) \<subseteq> insert k (fst ` set ps)"
  by (simp add: setIf_def spSet_keys subset_insertI)

definition logParamNames :: "jstr list" where
  "logParamNames = [js ''virtual_key_id'', js ''method'', js ''has_tool'', js ''tool'', js ''status'', js ''since'', js ''until'']"

lemma logParams_keys: "k \<in> fst ` set (logParams z f a) \<Longrightarrow> k \<in> set logParamNames"
proof -
  have step: "fst ` set (setIf k v ps) \<subseteq> set logParamNames" if "fst ` set ps \<subseteq> set logParamNames" "k \<in> set logParamNames" for k v ps
    using that setIf_keys [of k v ps] by blast
  have step': "fst ` set (spSet k v ps) \<subseteq> set logParamNames" if "fst ` set ps \<subseteq> set logParamNames" "k \<in> set logParamNames" for k v ps
    using that by (simp add: spSet_keys)
  have names: "js ''virtual_key_id'' \<in> set logParamNames" "js ''method'' \<in> set logParamNames" "js ''has_tool'' \<in> set logParamNames"
    "js ''tool'' \<in> set logParamNames" "js ''status'' \<in> set logParamNames" "js ''since'' \<in> set logParamNames" "js ''until'' \<in> set logParamNames"
    by (simp_all add: logParamNames_def)
  have "fst ` set (logParams z f a) \<subseteq> set logParamNames"
    unfolding logParams_def Let_def split_beta by (auto intro!: step step' names del: subsetI)
  then show "k \<in> fst ` set (logParams z f a) \<Longrightarrow> k \<in> set logParamNames" by blast
qed

lemma logQuery_parse:
  assumes "logQuery z f anchor = Some q" "filtersWf f"
  shows "spParse q = logParams z f anchor"
  using assms(1) spParse_spString wfParams_log [OF assms(2), of z anchor]
  by (auto simp: logQuery_def wfParams_def split: if_splits)

lemma spGet_None_iff: "spGet k ps = None \<longleftrightarrow> k \<notin> fst ` set ps"
  by (simp add: spGet_def map_of_eq_None_iff)

text \<open>The parameters of a page request: those of the query, the limit, and the cursor when there is one.\<close>

lemma pagePath_params:
  assumes "logQuery z f anchor = Some q" "filtersWf f" "wellFormed cursor"
  shows "\<exists>ps. pagePath path q cursor = path @ js ''?'' @ spString ps \<and> spParse (spString ps) = ps \<and>
    spGet (js ''limit'') ps = Some (showNat 50) \<and> spGet (js ''cursor'') ps = (if cursor \<noteq> [] then Some cursor else None) \<and>
    (\<forall>k \<in> set logParamNames. spGet k ps = spGet k (logParams z f anchor))"
proof -
  let ?p = "logParams z f anchor"
  let ?ps = "let q = spSet (js ''limit'') (showNat PAGE_SIZE) ?p in if cursor \<noteq> [] then spSet (js ''cursor'') cursor q else q"
  have "wellFormed (showNat PAGE_SIZE)" by (rule ascii_wellFormed) (auto dest: showNat_ascii)
  then have "wfParams ?ps"
    using wfParams_log [OF assms(2), of z anchor] assms(3) by (auto simp: Let_def intro!: wfParams_set wellFormed_js)
  then have "spParse (spString ?ps) = ?ps" by (intro spParse_spString) (simp add: wfParams_def)
  moreover have "pagePath path q cursor = path @ js ''?'' @ spString ?ps"
    using logQuery_parse [OF assms(1,2)] by (simp add: pagePath_def Let_def)
  moreover have "spGet (js ''cursor'') ?p = None"
    using logParams_keys [of "js ''cursor''" z f anchor] by (auto simp: spGet_None_iff logParamNames_def)
  moreover have "spGet k ?ps = spGet k ?p" if "k \<in> set logParamNames" for k
    using that by (auto simp: Let_def spGet_spSet logParamNames_def)
  ultimately show ?thesis by (intro exI [of _ ?ps]) (auto simp: Let_def spGet_spSet PAGE_SIZE_def)
qed

text \<open>The window and the sent-at-all test do not read the Method or Tool filter.\<close>

lemma window_irrelevant:
  "logWindow z (f\<lparr>lg_method := m, lg_tool := t, lg_noTool := n\<rparr>) a = logWindow z f a"
  "customProblems z (f\<lparr>lg_method := m, lg_tool := t, lg_noTool := n\<rparr>) = customProblems z f"
  by (simp_all add: logWindow_def customProblems_def)

lemma facetQuery_None: "facetQuery z f a = None \<longleftrightarrow> logQuery z f a = None"
  by (simp add: facetQuery_def logQuery_def window_irrelevant)

lemma facetQuery_same:
  "facetQuery z (f\<lparr>lg_method := m, lg_tool := t, lg_noTool := n\<rparr>) a = facetQuery z f a"
  by (simp add: facetQuery_def)

text \<open>The Tool select's values and the filters.\<close>

lemma NAMED_not_NONE [simp]: "NAMED_TOOL @ t \<noteq> NONE_CHOICE"
  by (simp add: NAMED_TOOL_def NONE_CHOICE_def js_Cons)

lemma fromToolChoice_toolChoice: "noTool \<longrightarrow> tool = [] \<Longrightarrow> fromToolChoice (toolChoice tool noTool) = (tool, noTool)"
  by (auto simp: fromToolChoice_def toolChoice_def NONE_CHOICE_def startsWith_iff) (auto simp: NAMED_TOOL_def js_Cons)

lemma toolOptions_values:
  "map fst (toolOptions facets tool noTool) =
     [] # (if emptyCount (facetList lf_tools facets) \<noteq> None \<or> noTool then [NONE_CHOICE] else []) @
     map fst (toolRows (facetList lf_tools facets) tool noTool)"
  by (simp add: toolOptions_def Let_def comp_def)

lemma toolRows_named:
  "map fst (toolRows es tool noTool) =
     (let vs = map (\<lambda>e. NAMED_TOOL @ fe_value e) (filter (\<lambda>e. fe_value e \<noteq> []) es) in
      if tool \<noteq> [] \<and> \<not> noTool \<and> NAMED_TOOL @ tool \<notin> set vs then vs @ [NAMED_TOOL @ tool] else vs)"
proof -
  let ?vs = "map (\<lambda>e. NAMED_TOOL @ fe_value e) (filter (\<lambda>e. fe_value e \<noteq> []) es)"
  have n: "map fst (namedTools es) = ?vs" by (simp add: namedTools_def comp_def)
  have "list_ex (\<lambda>x. fst x = v) (namedTools es) \<longleftrightarrow> v \<in> set ?vs" for v
    unfolding n [symmetric] by (auto simp: list_ex_iff)
  then show ?thesis unfolding toolRows_def Let_def by (simp only: if_distrib map_append n) simp
qed

lemma toolChoice_offered: "toolChoice tool noTool \<in> set (map fst (toolOptions facets tool noTool))"
  unfolding toolOptions_values toolRows_named Let_def toolChoice_def by auto

lemma method_offered: "selected \<in> fst ` set (methodOptions facets selected)"
  by (force simp: methodOptions_def Let_def list_ex_iff)

text \<open>No option but the first stands for All, and none is offered twice.\<close>

lemma methodOptions_distinct:
  assumes "distinct (map fe_value (facetList lf_methods facets))"
  shows "distinct (map fst (methodOptions facets selected))"
proof -
  let ?es = "filter (\<lambda>e. fe_value e \<noteq> []) (facetList lf_methods facets)"
  have "distinct (map fe_value ?es)" using assms by (rule distinct_map_filter)
  then show ?thesis by (auto simp: methodOptions_def Let_def list_ex_iff comp_def)
qed

lemma toolOptions_distinct:
  assumes "distinct (map fe_value (facetList lf_tools facets))"
  shows "distinct (map fst (toolOptions facets tool noTool))"
proof -
  let ?es = "filter (\<lambda>e. fe_value e \<noteq> []) (facetList lf_tools facets)"
  have "distinct (map fe_value ?es)" using assms by (rule distinct_map_filter)
  then have "distinct (map (\<lambda>e. NAMED_TOOL @ fe_value e) ?es)" by (simp add: distinct_map inj_on_def)
  then have d: "distinct (map fst (toolRows (facetList lf_tools facets) tool noTool))"
    by (simp only: toolRows_named Let_def) simp
  have "\<forall>v \<in> set (map fst (toolRows (facetList lf_tools facets) tool noTool)). \<exists>t. v = NAMED_TOOL @ t"
    unfolding toolRows_named Let_def by auto
  moreover have "NAMED_TOOL @ t \<noteq> []" "NAMED_TOOL @ t \<noteq> NONE_CHOICE" "NONE_CHOICE \<noteq> []" for t
    by (simp_all add: NAMED_TOOL_def NONE_CHOICE_def js_Cons)
  ultimately have "[] \<notin> set (map fst (toolRows (facetList lf_tools facets) tool noTool))"
    "NONE_CHOICE \<notin> set (map fst (toolRows (facetList lf_tools facets) tool noTool))" "NONE_CHOICE \<noteq> []" by metis+
  with d show ?thesis unfolding toolOptions_values by auto
qed

text \<open>A counted label holds its own two isolates and no other bidi control.\<close>

lemma counted_isolated: "dropBidi (counted lbl n) = dropBidi lbl @ js '' ('' @ showNat n @ js '')''"
proof -
  have "\<not> isBidi c" if "c \<in> set (showNat n)" for c
  proof -
    have "isDigit c" using that showNat_digits [of n] by (simp add: list_all_iff)
    then show ?thesis by (auto simp: isDigit_def isBidi_def word_le_nat_alt)
  qed
  then have "filter (\<lambda>c. \<not> isBidi c) (showNat n) = showNat n" by (simp add: filter_id_conv)
  then show ?thesis by (simp add: counted_def dropBidi_def js_Cons isBidi_def)
qed

section \<open>Properties\<close>



text \<open>
  The tool filter written as a value of the select is one of the values the select offers and is
  read back as the same filter, a tool called none included.
\<close>

theorem tool_choice_survives_the_select:
  assumes "noTool \<longrightarrow> tool = []"
  shows "fromToolChoice (toolChoice tool noTool) = (tool, noTool) \<and>
    toolChoice tool noTool \<in> set (map fst (toolOptions facets tool noTool))"
  using fromToolChoice_toolChoice [OF assms] toolChoice_offered by blast

theorem tool_choice_survives_the_select_witness:
  "fromToolChoice (toolChoice (js ''none'') False) = (js ''none'', False) \<and> fromToolChoice (toolChoice [] True) = ([], True)"
  using tool_choice_survives_the_select [of False "js ''none''"] tool_choice_survives_the_select [of True "[]"] by simp

end
