(* ===== verification/FacetHook.thy ===== *)
theory FacetHook
  imports LogsView
begin

text \<open>
  The facet lists of the Logs page: \<open>facetFetchDue\<close> and \<open>facetsFor\<close> of \<open>web/src/lib/logs-view.ts\<close>
  and the hook \<open>web/src/lib/use-log-facets.ts\<close>.

  The hook is a state machine over its two refs, its two states, the timer and the requests in
  flight. \<open>changeFq\<close> is a render under a new facet query: the cleanup of the first effect, then
  both effects; \<open>listChange\<close> and \<open>timerFires\<close> run the second effect again. A request is named by
  its controller. \<open>fh_sent\<close> counts the requests sent since the facet query last changed, \<open>fh_log\<close>
  holds the facet queries of all requests sent; no operation reads them.

  The invariant: one facet query sends at most one request, it is sent as soon as it is due, at
  most one live request is in flight and it is for the current facet query.
\<close>

record facet_answer =
  fa_fq :: jstr
  fa_facets :: "log_facets option"
  fa_error :: jstr

definition facetFetchDue :: "jstr option \<Rightarrow> jstr option \<Rightarrow> bool \<Rightarrow> bool \<Rightarrow> bool" where
  "facetFetchDue heldFq fq listAnswered waited \<longleftrightarrow> fq \<noteq> None \<and> heldFq \<noteq> fq \<and> (listAnswered \<or> waited)"

definition facetsFor :: "facet_answer option \<Rightarrow> jstr option \<Rightarrow> log_facets option \<times> jstr" where
  "facetsFor answer fq =
     (case answer of
        Some a \<Rightarrow> if fq = Some (fa_fq a) then (fa_facets a, fa_error a) else (None, [])
      | None \<Rightarrow> (None, []))"

record fh_state =
  fh_fq :: "jstr option"
  fh_listAnswered :: bool
  fh_held :: "(jstr \<times> nat) option"
  fh_answer :: "facet_answer option"
  fh_waitedFor :: "jstr option"
  fh_timer :: "jstr option"
  fh_ctrl :: nat
  fh_aborted :: "nat set"
  fh_pending :: "(nat \<times> jstr) list"
  fh_sent :: nat
  fh_log :: "jstr list"

definition fhBlank :: fh_state where
  "fhBlank = \<lparr>fh_fq = None, fh_listAnswered = False, fh_held = None, fh_answer = None, fh_waitedFor = None, fh_timer = None,
     fh_ctrl = 0, fh_aborted = {}, fh_pending = [], fh_sent = 0, fh_log = []\<rparr>"

text \<open>The second effect, under the \<open>waited\<close> of its render.\<close>

definition fetchEffect :: "bool \<Rightarrow> fh_state \<Rightarrow> fh_state" where
  "fetchEffect waited s =
     (case fh_fq s of
        None \<Rightarrow> s
      | Some fq \<Rightarrow>
          if \<not> facetFetchDue (map_option fst (fh_held s)) (fh_fq s) (fh_listAnswered s) waited then s
          else s\<lparr>fh_held := Some (fq, fh_ctrl s), fh_ctrl := Suc (fh_ctrl s),
                 fh_pending := fh_pending s @ [(fh_ctrl s, fq)], fh_sent := Suc (fh_sent s), fh_log := fh_log s @ [fq]\<rparr>)"

definition waitedIn :: "fh_state \<Rightarrow> bool" where
  "waitedIn s \<longleftrightarrow> fh_fq s \<noteq> None \<and> fh_waitedFor s = fh_fq s"

definition abortHeld :: "fh_state \<Rightarrow> fh_state" where
  "abortHeld s = s\<lparr>fh_aborted := (case fh_held s of None \<Rightarrow> fh_aborted s | Some h \<Rightarrow> insert (snd h) (fh_aborted s)), fh_held := None\<rparr>"

definition changeFq :: "jstr option \<Rightarrow> bool \<Rightarrow> fh_state \<Rightarrow> fh_state" where
  "changeFq fq listAnswered s =
     (let rendered = s\<lparr>fh_fq := fq, fh_listAnswered := listAnswered\<rparr>;
          waited = waitedIn rendered;
          cleaned = (abortHeld rendered)\<lparr>fh_timer := fq, fh_sent := 0\<rparr>
      in (fetchEffect waited cleaned)\<lparr>fh_waitedFor := None\<rparr>)"

definition listChange :: "bool \<Rightarrow> fh_state \<Rightarrow> fh_state" where
  "listChange listAnswered s = (let t = s\<lparr>fh_listAnswered := listAnswered\<rparr> in fetchEffect (waitedIn t) t)"

definition timerFires :: "fh_state \<Rightarrow> fh_state" where
  "timerFires s =
     (case fh_timer s of
        None \<Rightarrow> s
      | Some fq \<Rightarrow> (let t = s\<lparr>fh_timer := None, fh_waitedFor := Some fq\<rparr> in fetchEffect (waitedIn t) t))"

definition answerFacets :: "nat \<Rightarrow> failure + log_facets \<Rightarrow> fh_state \<Rightarrow> fh_state" where
  "answerFacets i ans s =
     (let (c, fq) = fh_pending s ! i; t = s\<lparr>fh_pending := take i (fh_pending s) @ drop (Suc i) (fh_pending s)\<rparr> in
      if c \<in> fh_aborted s then t
      else (case ans of
              Inr facets \<Rightarrow> t\<lparr>fh_answer := Some \<lparr>fa_fq = fq, fa_facets = Some facets, fa_error = []\<rparr>\<rparr>
            | Inl err \<Rightarrow> t\<lparr>fh_answer := Some \<lparr>fa_fq = fq, fa_facets = None, fa_error = listErrorMessage err SLOW_FACETS\<rparr>\<rparr>))"

inductive fh_step :: "fh_state \<Rightarrow> fh_state \<Rightarrow> bool" where
  new_query: "fq \<noteq> fh_fq s \<Longrightarrow> fh_step s (changeFq fq la s)"
| list_turn: "fh_step s (listChange la s)"
| timer: "fh_step s (timerFires s)"
| facets_in: "i < length (fh_pending s) \<Longrightarrow> fh_step s (answerFacets i ans s)"

inductive_cases fh_stepE: "fh_step s t"

inductive fh_reach :: "fh_state \<Rightarrow> bool" where
  fh_mount: "fh_reach (changeFq fq la fhBlank)"
| fh_next: "fh_reach s \<Longrightarrow> fh_step s t \<Longrightarrow> fh_reach t"

section \<open>Invariant\<close>

definition live :: "fh_state \<Rightarrow> (nat \<times> jstr) list" where
  "live s = filter (\<lambda>p. fst p \<notin> fh_aborted s) (fh_pending s)"

text \<open>What holds whether or not the effect has run for this render.\<close>

definition fh_base :: "fh_state \<Rightarrow> bool" where
  "fh_base s \<longleftrightarrow>
     (\<forall>f c. fh_held s = Some (f, c) \<longrightarrow> fh_fq s = Some f \<and> c < fh_ctrl s \<and> c \<notin> fh_aborted s) \<and>
     (\<forall>p \<in> set (live s). fh_held s = Some (snd p, fst p)) \<and>
     distinct (map fst (fh_pending s)) \<and> (\<forall>p \<in> set (fh_pending s). fst p < fh_ctrl s) \<and>
     (\<forall>c \<in> fh_aborted s. c < fh_ctrl s) \<and>
     (\<forall>f. fh_timer s = Some f \<longrightarrow> fh_fq s = Some f) \<and>
     fh_sent s = (if fh_held s = None then 0 else 1)"

definition fh_due :: "fh_state \<Rightarrow> bool" where
  "fh_due s \<longleftrightarrow> (fh_fq s \<noteq> None \<and> (fh_listAnswered s \<or> waitedIn s) \<longrightarrow> fh_held s \<noteq> None)"

definition fh_waits :: "fh_state \<Rightarrow> bool" where
  "fh_waits s \<longleftrightarrow> fh_waitedFor s \<in> {None, fh_fq s}"

definition fh_inv :: "fh_state \<Rightarrow> bool" where
  "fh_inv s \<longleftrightarrow> fh_base s \<and> fh_due s \<and> fh_waits s"

lemma fh_invI: "fh_base s \<Longrightarrow> fh_due s \<Longrightarrow> fh_waits s \<Longrightarrow> fh_inv s"
  by (simp add: fh_inv_def)

lemma fh_invD: "fh_inv s \<Longrightarrow> fh_base s" "fh_inv s \<Longrightarrow> fh_due s" "fh_inv s \<Longrightarrow> fh_waits s"
  by (simp_all add: fh_inv_def)

lemma fh_baseD:
  assumes "fh_base s"
  shows "fh_held s = Some (f, c) \<Longrightarrow> fh_fq s = Some f \<and> c < fh_ctrl s \<and> c \<notin> fh_aborted s"
    "p \<in> set (live s) \<Longrightarrow> fh_held s = Some (snd p, fst p)"
    "distinct (map fst (fh_pending s))" "p \<in> set (fh_pending s) \<Longrightarrow> fst p < fh_ctrl s" "i \<in> fh_aborted s \<Longrightarrow> i < fh_ctrl s"
    "fh_timer s = Some f \<Longrightarrow> fh_fq s = Some f" "fh_sent s = (if fh_held s = None then 0 else 1)"
  using assms unfolding fh_base_def by blast+

text \<open>The effect sends when nothing is held and the fetch is due, and does nothing otherwise.\<close>

lemma fetchEffect_cases:
  assumes "fh_base s"
  obtains "fetchEffect w s = s" "fh_fq s \<noteq> None \<and> (fh_listAnswered s \<or> w) \<longrightarrow> fh_held s \<noteq> None"
  | fq where "fh_fq s = Some fq" "fh_held s = None" "fetchEffect w s = s\<lparr>fh_held := Some (fq, fh_ctrl s), fh_ctrl := Suc (fh_ctrl s),
      fh_pending := fh_pending s @ [(fh_ctrl s, fq)], fh_sent := Suc (fh_sent s), fh_log := fh_log s @ [fq]\<rparr>"
proof (cases "fh_held s")
  case None
  show ?thesis
  proof (cases "fh_fq s \<noteq> None \<and> (fh_listAnswered s \<or> w)")
    case True
    then obtain fq where "fh_fq s = Some fq" by auto
    with True None show ?thesis by (intro that(2)) (auto simp: fetchEffect_def facetFetchDue_def)
  next
    case False
    with None show ?thesis by (intro that(1)) (auto simp: fetchEffect_def facetFetchDue_def split: option.splits)
  qed
next
  case (Some h)
  then have "fh_fq s = Some (fst h)" using fh_baseD(1) [OF assms, of "fst h" "snd h"] by simp
  with Some show ?thesis by (intro that(1)) (simp_all add: fetchEffect_def facetFetchDue_def)
qed

lemma fh_base_send:
  assumes b: "fh_base s" and fq: "fh_fq s = Some fq" and h: "fh_held s = None"
  shows "fh_base (s\<lparr>fh_held := Some (fq, fh_ctrl s), fh_ctrl := Suc (fh_ctrl s),
      fh_pending := fh_pending s @ [(fh_ctrl s, fq)], fh_sent := Suc (fh_sent s), fh_log := fh_log s @ [fq]\<rparr>)"
proof -
  have nolive: "live s = []" using fh_baseD(2) [OF b] h by (metis list.set_intros(1) neq_Nil_conv option.distinct(1))
  have fresh: "fh_ctrl s \<notin> fh_aborted s" using fh_baseD(5) [OF b] by blast
  have "\<forall>p \<in> set (fh_pending s). fst p \<noteq> fh_ctrl s" using fh_baseD(4) [OF b] by fastforce
  moreover have "filter (\<lambda>p. fst p \<notin> fh_aborted s) (fh_pending s) = []" using nolive by (simp add: live_def)
  moreover have "fh_sent s = 0" using fh_baseD(7) [OF b] h by simp
  ultimately show ?thesis
    using fh_baseD(3,4,5,6) [OF b] fq fresh by (auto simp: fh_base_def live_def less_SucI)
qed

lemma fetchEffect_base: "fh_base s \<Longrightarrow> fh_base (fetchEffect w s)"
  by (rule fetchEffect_cases [of s w]) (simp_all add: fh_base_send)

lemma fetchEffect_sel:
  "fh_fq (fetchEffect w s) = fh_fq s" "fh_listAnswered (fetchEffect w s) = fh_listAnswered s"
  "fh_waitedFor (fetchEffect w s) = fh_waitedFor s" "fh_timer (fetchEffect w s) = fh_timer s" "fh_answer (fetchEffect w s) = fh_answer s"
  by (simp_all add: fetchEffect_def split: option.splits)

lemma fetchEffect_sends:
  "fh_base s \<Longrightarrow> fh_fq s \<noteq> None \<and> (fh_listAnswered s \<or> w) \<Longrightarrow> fh_held (fetchEffect w s) \<noteq> None"
  by (rule fetchEffect_cases [of s w]) auto

lemma fetchEffect_due: "fh_base s \<Longrightarrow> fh_due (fetchEffect (waitedIn s) s)"
  using fetchEffect_sends [of s "waitedIn s"] by (auto simp: fh_due_def fetchEffect_sel waitedIn_def)

lemma abort_base:
  assumes "fh_base s"
  shows "fh_base ((abortHeld (s\<lparr>fh_fq := fq, fh_listAnswered := la\<rparr>))\<lparr>fh_timer := fq, fh_sent := 0\<rparr>)" (is "fh_base ?t")
proof -
  have "live ?t = []"
  proof -
    have "fst p \<in> fh_aborted ?t" if p: "p \<in> set (fh_pending s)" for p
    proof (cases "fst p \<in> fh_aborted s")
      case False
      with p have "fh_held s = Some (snd p, fst p)" using fh_baseD(2) [OF assms, of p] by (simp add: live_def)
      then show ?thesis by (simp add: abortHeld_def)
    qed (simp add: abortHeld_def split: option.splits)
    then show ?thesis by (auto simp: live_def filter_empty_conv abortHeld_def)
  qed
  then show ?thesis
    unfolding fh_base_def using fh_baseD(3,4,5) [OF assms] fh_baseD(1) [OF assms]
    by (auto simp: abortHeld_def split: option.splits)
qed

lemma fh_base_cong:
  assumes b: "fh_base s" and eqs: "fh_fq t = fh_fq s" "fh_held t = fh_held s" "fh_pending t = fh_pending s"
      "fh_aborted t = fh_aborted s" "fh_ctrl t = fh_ctrl s" "fh_sent t = fh_sent s"
    and timer: "\<And>f. fh_timer t = Some f \<Longrightarrow> fh_fq s = Some f"
  shows "fh_base t"
  using b [unfolded fh_base_def live_def] timer unfolding fh_base_def live_def eqs by blast

lemma inv_changeFq:
  assumes b: "fh_base s" and w: "fh_waits s" and n: "fq \<noteq> fh_fq s \<or> fh_waitedFor s = None"
  shows "fh_inv (changeFq fq la s)"
proof -
  let ?c = "(abortHeld (s\<lparr>fh_fq := fq, fh_listAnswered := la\<rparr>))\<lparr>fh_timer := fq, fh_sent := 0\<rparr>"
  have notw: "\<not> waitedIn (s\<lparr>fh_fq := fq, fh_listAnswered := la\<rparr>)" using w n by (auto simp: waitedIn_def fh_waits_def)
  define t where "t = fetchEffect False ?c"
  have t: "changeFq fq la s = t\<lparr>fh_waitedFor := None\<rparr>" using notw by (simp add: changeFq_def Let_def t_def)
  have c: "fh_base ?c" by (rule abort_base [OF b])
  have bt: "fh_base t" unfolding t_def by (rule fetchEffect_base [OF c])
  have sent: "fh_fq t \<noteq> None \<and> fh_listAnswered t \<Longrightarrow> fh_held t \<noteq> None"
    using fetchEffect_sends [OF c, of False] by (simp add: t_def fetchEffect_sel)
  show ?thesis unfolding t
  proof (rule fh_invI)
    show "fh_base (t\<lparr>fh_waitedFor := None\<rparr>)" by (rule fh_base_cong [OF bt]) (simp_all add: fh_baseD(6) [OF bt])
    show "fh_due (t\<lparr>fh_waitedFor := None\<rparr>)" using sent by (auto simp: fh_due_def waitedIn_def)
  qed (simp add: fh_waits_def)
qed

lemma inv_listChange:
  assumes "fh_inv s"
  shows "fh_inv (listChange la s)"
proof -
  let ?t = "s\<lparr>fh_listAnswered := la\<rparr>"
  have b: "fh_base ?t" by (rule fh_base_cong [OF fh_invD(1) [OF assms]]) (simp_all add: fh_baseD(6) [OF fh_invD(1) [OF assms]])
  have "fh_waits (fetchEffect (waitedIn ?t) ?t)" using fh_invD(3) [OF assms] by (simp add: fh_waits_def fetchEffect_sel)
  then show ?thesis unfolding listChange_def Let_def by (intro fh_invI fetchEffect_base fetchEffect_due b)
qed

lemma inv_timerFires:
  assumes "fh_inv s"
  shows "fh_inv (timerFires s)"
proof (cases "fh_timer s")
  case None
  with assms show ?thesis by (simp add: timerFires_def)
next
  case (Some fq)
  let ?t = "s\<lparr>fh_timer := None, fh_waitedFor := Some fq\<rparr>"
  have b: "fh_base ?t" by (rule fh_base_cong [OF fh_invD(1) [OF assms]]) simp_all
  have "fh_fq s = Some fq" by (rule fh_baseD(6) [OF fh_invD(1) [OF assms] Some])
  then have "fh_waits (fetchEffect (waitedIn ?t) ?t)" by (simp add: fh_waits_def fetchEffect_sel)
  then show ?thesis unfolding timerFires_def Some option.case Let_def by (intro fh_invI fetchEffect_base fetchEffect_due b)
qed

lemma answerFacets_sel:
  "fh_fq (answerFacets i ans s) = fh_fq s" "fh_listAnswered (answerFacets i ans s) = fh_listAnswered s"
  "fh_held (answerFacets i ans s) = fh_held s" "fh_waitedFor (answerFacets i ans s) = fh_waitedFor s"
  "fh_timer (answerFacets i ans s) = fh_timer s" "fh_ctrl (answerFacets i ans s) = fh_ctrl s"
  "fh_aborted (answerFacets i ans s) = fh_aborted s" "fh_sent (answerFacets i ans s) = fh_sent s"
  "fh_pending (answerFacets i ans s) = take i (fh_pending s) @ drop (Suc i) (fh_pending s)"
  by (simp_all add: answerFacets_def Let_def split_beta split: sum.splits)

lemma inv_answerFacets:
  assumes inv: "fh_inv s" and i: "i < length (fh_pending s)"
  shows "fh_inv (answerFacets i ans s)"
proof -
  let ?t = "answerFacets i ans s" and ?rest = "take i (fh_pending s) @ drop (Suc i) (fh_pending s)"
  have b: "fh_base s" using inv by (simp add: fh_inv_def)
  have sub: "set ?rest \<subseteq> set (fh_pending s)" by (auto dest: in_set_takeD in_set_dropD)
  have "distinct (map fst (take i (fh_pending s) @ fh_pending s ! i # drop (Suc i) (fh_pending s)))"
    using fh_baseD(3) [OF b] id_take_nth_drop [OF i] by simp
  then have "distinct (map fst ?rest)" by simp
  moreover have "\<forall>p \<in> set (live ?t). p \<in> set (live s)" using sub by (auto simp: live_def answerFacets_sel)
  ultimately have "fh_base ?t"
    using b sub unfolding fh_base_def answerFacets_sel by blast
  moreover have "fh_due ?t" using fh_invD(2) [OF inv] unfolding fh_due_def waitedIn_def answerFacets_sel .
  moreover have "fh_waits ?t" using fh_invD(3) [OF inv] unfolding fh_waits_def answerFacets_sel .
  ultimately show ?thesis by (rule fh_invI)
qed

lemma fh_inv_step: "fh_step s t \<Longrightarrow> fh_inv s \<Longrightarrow> fh_inv t"
  by (erule fh_stepE) (blast intro: inv_changeFq inv_listChange inv_timerFires inv_answerFacets dest: fh_invD)+

lemma fh_reach_inv: "fh_reach s \<Longrightarrow> fh_inv s"
proof (induction rule: fh_reach.induct)
  case (fh_mount fq la)
  have "fh_base fhBlank" by (simp add: fh_base_def fhBlank_def live_def)
  then show ?case by (rule inv_changeFq) (simp_all add: fhBlank_def fh_waits_def)
next
  case (fh_next s t)
  then show ?case by (blast intro: fh_inv_step)
qed

lemma live_at_most_one:
  assumes "fh_inv s"
  shows "length (live s) \<le> 1"
proof -
  have b: "fh_base s" using assms by (simp add: fh_inv_def)
  have "distinct (live s)"
    using fh_baseD(3) [OF b] by (auto simp: live_def distinct_map intro: distinct_filter)
  moreover have "x = y" if "x \<in> set (live s)" "y \<in> set (live s)" for x y
    using fh_baseD(2) [OF b, of x] fh_baseD(2) [OF b, of y] that by (auto simp: prod_eq_iff)
  ultimately show ?thesis
    by (metis One_nat_def card_le_Suc0_iff_eq distinct_card finite_set)
qed

section \<open>Properties\<close>



end
