(* ===== verification/AdminEvents.thy ===== *)
theory AdminEvents
  imports Api Slug
begin

text \<open>
  The Admin activity table's text: \<open>web/src/lib/admin-event.ts\<close>.

  Details arrive as an object whose known keys are composed by the server; a key a newer server
  adds is shown by its name and never by its value. The lemmas show exactly that: an unknown
  key is listed, and changing its value changes nothing on screen.
\<close>

record admin_event =
  ae_id :: jstr
  ae_timestamp :: jstr
  ae_actor :: jstr
  ae_action :: jstr
  ae_resource_type :: jstr
  ae_resource_id :: jstr
  ae_resource_name :: jstr
  ae_details :: jobj
  ae_request_id :: jstr
  ae_remote_addr :: jstr

definition VERBS :: "jstr \<rightharpoonup> jstr" where
  "VERBS = map_of [
     (js ''upstream.create'', js ''Added upstream''), (js ''upstream.update'', js ''Changed upstream''),
     (js ''upstream.delete'', js ''Deleted upstream''), (js ''group.create'', js ''Created group''),
     (js ''group.update'', js ''Changed group''), (js ''group.delete'', js ''Deleted group''),
     (js ''virtual_key.create'', js ''Created virtual key''), (js ''virtual_key.update'', js ''Changed virtual key''),
     (js ''virtual_key.rotate'', js ''Rotated virtual key''), (js ''virtual_key.revoke'', js ''Revoked virtual key''),
     (js ''virtual_key.delete'', js ''Deleted virtual key''), (js ''upstream.oauth_connect'', js ''Connected upstream''),
     (js ''upstream.oauth_refresh'', js ''Refreshed the token for upstream''),
     (js ''upstream.oauth_revoke'', js ''Disconnected upstream'')]"

definition FIELD_LABELS :: "jstr \<rightharpoonup> jstr" where
  "FIELD_LABELS = map_of [
     (js ''auth_type'', js ''auth type''), (js ''upstream_ids'', js ''upstreams''), (js ''tool_filter'', js ''tool filter''),
     (js ''rate_limit'', js ''rate limit''), (js ''expires_at'', js ''expiry''), (js ''tool_allowlist'', js ''allowlist''),
     (js ''tool_denylist'', js ''denylist''), (js ''http_methods'', js ''allowed methods''), (js ''test_path'', js ''test path''),
     (js ''target_type'', js ''target''), (js ''target_id'', js ''target'')]"

definition KNOWN_KEYS :: "jstr list" where
  "KNOWN_KEYS = [js ''fields'', js ''cleared'', js ''slug'', js ''kind'', js ''auth_type'', js ''auth_changed'', js ''upstream_count'',
     js ''tool_filter_set'', js ''target_type'', js ''target_id'', js ''key_prefix'', js ''client'', js ''refresh_token'',
     js ''issuer'', js ''vendor_revocation'']"

definition label :: "jstr \<Rightarrow> jstr" where
  "label field = orElse (FIELD_LABELS field) field"

definition strings :: "jval option \<Rightarrow> jstr list" where
  "strings v = (case v of Some (JArr xs) \<Rightarrow> concat (map (\<lambda>x. case x of JStr s \<Rightarrow> [s] | _ \<Rightarrow> []) xs) | _ \<Rightarrow> [])"

definition fromText :: "jstr \<Rightarrow> jstr \<Rightarrow> jstr" where
  "fromText actor remote_addr = orStr remote_addr actor"

definition eventSentence :: "admin_event \<Rightarrow> jstr" where
  "eventSentence e = orElse (VERBS (ae_action e)) (ae_action e) @ js '' '' @ orStr (ae_resource_name e) (ae_resource_id e)"

text \<open>\<open>typeof v === 'string' && v\<close>: the non-empty string, else \<open>''\<close>.\<close>

definition textOf :: "jval option \<Rightarrow> jstr" where
  "textOf v = (case v of Some (JStr s) \<Rightarrow> s | _ \<Rightarrow> [])"

definition numText :: "jnum \<Rightarrow> jstr" where
  "numText n = jsToString (JNum n)"

definition numOf :: "jval option \<Rightarrow> jnum option" where
  "numOf v = (case v of Some (JNum n) \<Rightarrow> Some n | _ \<Rightarrow> None)"

text \<open>\<open>plural(n, noun)\<close> at any number.\<close>

definition pluralNum :: "jnum \<Rightarrow> jstr \<Rightarrow> jstr" where
  "pluralNum n noun = numText n @ js '' '' @ noun @ (if n = IntNum 1 then [] else js ''s'')"

definition fieldText :: "jobj \<Rightarrow> jstr \<Rightarrow> jstr" where
  "fieldText d f =
     (let auth = textOf (objGet (js ''auth_type'') d); n = numOf (objGet (js ''upstream_count'') d) in
      if f = js ''upstream_ids'' \<and> n \<noteq> None then js ''upstreams ('' @ numText (orElse n (IntNum 0)) @ js '')''
      else if f = js ''auth_type'' \<and> auth \<noteq> [] then js ''auth type '' @ auth
      else label f)"

definition pushNew :: "jstr list \<Rightarrow> jstr \<Rightarrow> jstr list" where
  "pushNew labels t = (if t \<in> set labels then labels else labels @ [t])"

definition fieldLabels :: "jobj \<Rightarrow> jstr list" where
  "fieldLabels d = foldl (\<lambda>ls f. pushNew ls (fieldText d f)) [] (strings (objGet (js ''fields'') d))"

text \<open>\<open>if (typeof v === 'string' && v) parts.push(prefix + v)\<close>.\<close>

definition prefixed :: "jstr \<Rightarrow> jstr \<Rightarrow> jstr list" where
  "prefixed p v = (if v \<noteq> [] then [p @ v] else [])"

definition unknownKeys :: "jobj \<Rightarrow> jstr list" where
  "unknownKeys d = filter (\<lambda>k. k \<notin> set KNOWN_KEYS) (objKeys d)"

definition knownParts :: "bool \<Rightarrow> jobj \<Rightarrow> jstr list" where
  "knownParts create d =
     fieldLabels d @
     map (\<lambda>c. label c @ js '' cleared'') (strings (objGet (js ''cleared'') d)) @
     prefixed (js ''slug '') (textOf (objGet (js ''slug'') d)) @
     (if create then prefixed (js ''kind '') (textOf (objGet (js ''kind'') d)) else []) @
     (if create then prefixed (js ''auth type '') (textOf (objGet (js ''auth_type'') d)) else []) @
     (if objGet (js ''auth_changed'') d = Some (JBool True) then [if create then js ''credential set'' else js ''credential''] else []) @
     (case numOf (objGet (js ''upstream_count'') d) of Some n \<Rightarrow> if create then [pluralNum n (js ''upstream'')] else [] | None \<Rightarrow> []) @
     (if objGet (js ''tool_filter_set'') d = Some (JBool True) then [js ''tool filter set''] else []) @
     prefixed (js ''target '') (textOf (objGet (js ''target_type'') d)) @
     prefixed (js ''key prefix '') (textOf (objGet (js ''key_prefix'') d)) @
     prefixed (js ''client '') (textOf (objGet (js ''client'') d)) @
     (if objGet (js ''refresh_token'') d = Some (JBool False) then [js ''no refresh token''] else []) @
     prefixed (js ''issuer '') (textOf (objGet (js ''issuer'') d)) @
     (if objGet (js ''vendor_revocation'') d = Some (JStr (js ''failed'')) then [js ''vendor revocation failed''] else []) @
     (if objGet (js ''vendor_revocation'') d = Some (JStr (js ''not_offered'')) then [js ''vendor revocation not offered''] else [])"

definition changedText :: "admin_event \<Rightarrow> jstr" where
  "changedText e =
     (let d = ae_details e; create = endsWith (ae_action e) (js ''.create'') in
      joinWith (js '', '') (knownParts create d @ unknownKeys d))"

section \<open>Laws\<close>

lemma set_pushNew: "set (pushNew ls t) = insert t (set ls)"
  by (auto simp: pushNew_def)

lemma distinct_fieldLabels: "distinct (fieldLabels d)"
proof -
  have "distinct ls \<Longrightarrow> distinct (foldl (\<lambda>ls f. pushNew ls (fieldText d f)) ls fs)" for ls fs
    by (induction fs arbitrary: ls) (auto simp: pushNew_def)
  then show ?thesis by (simp add: fieldLabels_def)
qed

lemma set_fieldLabels: "set (fieldLabels d) = fieldText d ` set (strings (objGet (js ''fields'') d))"
proof -
  have "set (foldl (\<lambda>ls f. pushNew ls (fieldText d f)) ls fs) = set ls \<union> fieldText d ` set fs" for ls fs
    by (induction fs arbitrary: ls) (auto simp: set_pushNew)
  then show ?thesis by (simp add: fieldLabels_def)
qed

text \<open>An object whose unknown members were changed, and whose keys stayed.\<close>

definition sameKnown :: "jobj \<Rightarrow> jobj \<Rightarrow> bool" where
  "sameKnown d d' \<longleftrightarrow> objKeys d = objKeys d' \<and> (\<forall>k \<in> set KNOWN_KEYS. objGet k d = objGet k d')"

lemma sameKnown_fieldLabels:
  assumes "sameKnown d d'"
  shows "fieldLabels d = fieldLabels d'"
proof -
  have k: "objGet k d = objGet k d'" if "k \<in> set KNOWN_KEYS" for k using assms that by (simp add: sameKnown_def)
  have "objGet (js ''auth_type'') d = objGet (js ''auth_type'') d'" "objGet (js ''upstream_count'') d = objGet (js ''upstream_count'') d'"
    by (rule k, simp add: KNOWN_KEYS_def)+
  then have "fieldText d = fieldText d'"
    unfolding fieldText_def by simp
  moreover have "objGet (js ''fields'') d = objGet (js ''fields'') d'" by (rule k) (simp add: KNOWN_KEYS_def)
  ultimately show ?thesis unfolding fieldLabels_def by simp
qed

lemma sameKnown_parts:
  assumes "sameKnown d d'"
  shows "knownParts c d = knownParts c d'"
proof -
  have k: "objGet k d = objGet k d'" if "k \<in> set KNOWN_KEYS" for k using assms that by (simp add: sameKnown_def)
  note keys = k [of "js ''cleared''"] k [of "js ''slug''"] k [of "js ''kind''"] k [of "js ''auth_type''"]
    k [of "js ''auth_changed''"] k [of "js ''upstream_count''"] k [of "js ''tool_filter_set''"] k [of "js ''target_type''"]
    k [of "js ''key_prefix''"] k [of "js ''client''"] k [of "js ''refresh_token''"] k [of "js ''issuer''"]
    k [of "js ''vendor_revocation''"]
  show ?thesis
    unfolding knownParts_def sameKnown_fieldLabels [OF assms] using keys by (simp add: KNOWN_KEYS_def)
qed

lemma changedText_sameKnown:
  assumes "sameKnown (ae_details e) (ae_details e')" "ae_action e = ae_action e'"
  shows "changedText e = changedText e'"
proof -
  have "unknownKeys (ae_details e) = unknownKeys (ae_details e')"
    using assms(1) by (simp add: sameKnown_def unknownKeys_def)
  with assms sameKnown_parts [OF assms(1)] show ?thesis by (simp add: changedText_def Let_def)
qed

section \<open>Properties\<close>

text \<open>
  The text of an admin event depends on the details it does not know only through their names:
  changing such a value changes nothing on screen, so a value the dashboard cannot judge is never
  shown.
\<close>

theorem unknown_values_are_not_shown:
  assumes "objKeys (ae_details e) = objKeys (ae_details e')" "\<forall>k \<in> set KNOWN_KEYS. objGet k (ae_details e) = objGet k (ae_details e')"
    and "ae_action e = ae_action e'"
  shows "changedText e = changedText e'"
  using assms by (intro changedText_sameKnown) (auto simp: sameKnown_def)

theorem unknown_values_are_not_shown_witness:
  "changedText \<lparr>ae_id = [], ae_timestamp = [], ae_actor = [], ae_action = js ''group.update'', ae_resource_type = [], ae_resource_id = [],
      ae_resource_name = [], ae_details = [(js ''secret'', JStr (js ''x''))], ae_request_id = [], ae_remote_addr = []\<rparr> =
   changedText \<lparr>ae_id = [], ae_timestamp = [], ae_actor = [], ae_action = js ''group.update'', ae_resource_type = [], ae_resource_id = [],
      ae_resource_name = [], ae_details = [(js ''secret'', JNull)], ae_request_id = [], ae_remote_addr = []\<rparr>"
  by (rule unknown_values_are_not_shown) code_simp+

end
