(* ===== verification/LogsPage.thy ===== *)
theory LogsPage
  imports FacetHook AdminEvents
begin

text \<open>
  The Logs page: \<open>web/src/app/(app)/logs/page.tsx\<close>, with \<open>load-more.tsx\<close> and the query of
  \<open>admin-events.tsx\<close>.

  The page owns the filters and the anchor and composes the two hooks: the rows (\<open>useCursorPages\<close>)
  follow \<open>logQuery\<close>, the counts (\<open>useLogFacets\<close>) follow \<open>facetQuery\<close> and whether the rows' first page
  has landed. \<open>renderL\<close> is the render after a change with the effects whose dependencies moved;
  \<open>now\<close> is \<open>Date.now()\<close>, any instant. \<open>change\<close> moves the anchor, \<open>pick\<close> does not.

  The lemmas show that the page drives both hooks through their own steps only, that the rows it
  counts belong to the filters on screen, and that a Method or Tool pick keeps the window, the
  counts and the one facets request it had.
\<close>

section \<open>State\<close>

record lp_state =
  lp_filters :: log_filters
  lp_anchor :: int
  lp_pages :: cp_state
  lp_facets :: fh_state
  lp_keys :: "virtual_key list"
  lp_keysError :: jstr
  lp_names :: "(jstr \<rightharpoonup> jstr \<times> jstr) option"
  lp_namesFailed :: bool
  lp_selected :: "jval option"

definition endOf :: "cp_state \<Rightarrow> page_end option" where
  "endOf p = exposedEnd (cp_pages p) (cp_query p)"

definition answered :: "cp_state \<Rightarrow> bool" where
  "answered p \<longleftrightarrow> endOf p \<noteq> None"

text \<open>\<open>pages.error || facets.error || keysError\<close>.\<close>

definition pageError :: "lp_state \<Rightarrow> jstr" where
  "pageError s = orStr (cp_error (lp_pages s))
     (orStr (snd (facetsFor (fh_answer (lp_facets s)) (fh_fq (lp_facets s)))) (lp_keysError s))"

section \<open>Renders\<close>

text \<open>The effects of the facet hook for a render: a new facet query, a new answer of the list, or none.\<close>

definition renderFacets :: "jstr option \<Rightarrow> bool \<Rightarrow> fh_state \<Rightarrow> fh_state" where
  "renderFacets fq la h =
     (if fq \<noteq> fh_fq h then changeFq fq la h else if la \<noteq> fh_listAnswered h then listChange la h else h)"

definition renderPages :: "jstr option \<Rightarrow> cp_state \<Rightarrow> cp_state" where
  "renderPages q p = (if q \<noteq> cp_query p then newQuery q p else p)"

definition renderL :: "zone \<Rightarrow> lp_state \<Rightarrow> lp_state" where
  "renderL z s =
     (let p = renderPages (logQuery z (lp_filters s) (lp_anchor s)) (lp_pages s)
      in s\<lparr>lp_pages := p, lp_facets := renderFacets (facetQuery z (lp_filters s) (lp_anchor s)) (answered p) (lp_facets s)\<rparr>)"

definition lpMount :: "zone \<Rightarrow> int \<Rightarrow> lp_state" where
  "lpMount z now =
     (let p = newQuery (logQuery z DEFAULT_FILTERS now) cpBlank
      in \<lparr>lp_filters = DEFAULT_FILTERS, lp_anchor = now, lp_pages = p,
          lp_facets = changeFq (facetQuery z DEFAULT_FILTERS now) (answered p) fhBlank,
          lp_keys = [], lp_keysError = [], lp_names = None, lp_namesFailed = False, lp_selected = None\<rparr>)"

section \<open>Controls\<close>

definition changeL :: "zone \<Rightarrow> int \<Rightarrow> (log_filters \<Rightarrow> log_filters) \<Rightarrow> lp_state \<Rightarrow> lp_state" where
  "changeL z now patch s = renderL z (s\<lparr>lp_filters := patch (lp_filters s), lp_anchor := now\<rparr>)"

datatype log_pick = PickMethod jstr | PickTool jstr

text \<open>\<open>pick({ method })\<close> and \<open>pick(fromToolChoice(value))\<close>.\<close>

definition applyPick :: "log_pick \<Rightarrow> log_filters \<Rightarrow> log_filters" where
  "applyPick p f = (case p of
     PickMethod m \<Rightarrow> f\<lparr>lg_method := m\<rparr>
   | PickTool choice \<Rightarrow> (let (tool, noTool) = fromToolChoice choice in f\<lparr>lg_tool := tool, lg_noTool := noTool\<rparr>))"

definition pickL :: "zone \<Rightarrow> log_pick \<Rightarrow> lp_state \<Rightarrow> lp_state" where
  "pickL z p s = renderL z (s\<lparr>lp_filters := applyPick p (lp_filters s)\<rparr>)"

definition changePeriod :: "zone \<Rightarrow> int \<Rightarrow> period \<Rightarrow> lp_state \<Rightarrow> lp_state" where
  "changePeriod z now period s =
     (if period = CustomPeriod \<and> lg_period (lp_filters s) \<noteq> CustomPeriod
      then changeL z now (\<lambda>f. f\<lparr>lg_period := period, lg_since := customPrefill z (lp_filters s) (lp_anchor s),
             lg_until := [], lg_sinceBad := False, lg_untilBad := False\<rparr>) s
      else changeL z now (\<lambda>f. f\<lparr>lg_period := period\<rparr>) s)"

datatype time_field = SinceField | UntilField

definition syncInput :: "zone \<Rightarrow> int \<Rightarrow> time_field \<Rightarrow> jstr \<Rightarrow> bool \<Rightarrow> lp_state \<Rightarrow> lp_state" where
  "syncInput z now field v badInput s =
     (let f = lp_filters s;
          bad = (case field of SinceField \<Rightarrow> lg_sinceBad f | UntilField \<Rightarrow> lg_untilBad f);
          held = (case field of SinceField \<Rightarrow> lg_since f | UntilField \<Rightarrow> lg_until f)
      in if v = held \<and> badInput = bad then s
         else changeL z now (case field of
             SinceField \<Rightarrow> (\<lambda>f. f\<lparr>lg_since := v, lg_sinceBad := badInput\<rparr>)
           | UntilField \<Rightarrow> (\<lambda>f. f\<lparr>lg_until := v, lg_untilBad := badInput\<rparr>)) s)"

definition pressMoreL :: "lp_state \<Rightarrow> lp_state" where
  "pressMoreL s = s\<lparr>lp_pages := loadMore (lp_pages s)\<rparr>"

section \<open>Answers\<close>

definition pageAnswerL :: "zone \<Rightarrow> nat \<Rightarrow> failure + jobj \<Rightarrow> lp_state \<Rightarrow> lp_state" where
  "pageAnswerL z i ans s = renderL z (s\<lparr>lp_pages := settleReq LogsPath i ans (lp_pages s)\<rparr>)"

definition keysAnswerL :: "failure + virtual_key list \<Rightarrow> lp_state \<Rightarrow> lp_state" where
  "keysAnswerL ans s = (case ans of Inr ks \<Rightarrow> s\<lparr>lp_keys := ks\<rparr> | Inl err \<Rightarrow> s\<lparr>lp_keysError := requestErrorMessage err\<rparr>)"

text \<open>\<open>new Map(upstreams.map((u) => [u.id, ...]))\<close>: a later entry of the same id wins.\<close>

definition namesAnswerL :: "failure + upstream list \<Rightarrow> lp_state \<Rightarrow> lp_state" where
  "namesAnswerL ans s = (case ans of
     Inr us \<Rightarrow> s\<lparr>lp_names := Some (map_of (rev (map (\<lambda>u. (u_id u, u_name u, u_slug u)) us)))\<rparr>
   | Inl _ \<Rightarrow> s\<lparr>lp_namesFailed := True\<rparr>)"

section \<open>Under the table\<close>

definition LOADING_MORE :: jstr where "LOADING_MORE = js ''Loading'' @ [0x2026]"
definition NO_LOGS :: jstr where "NO_LOGS = js ''No matching log entries.''"

definition statusText :: "count_noun \<Rightarrow> jstr \<Rightarrow> cp_state \<Rightarrow> jstr" where
  "statusText noun emptyCopy p =
     (if showEmpty (cp_pages p) (cp_query p) then emptyCopy
      else if length (pg_rows (cp_pages p)) > 0 then countLine (length (pg_rows (cp_pages p))) noun (endOf p) else [])"

text \<open>The button while another page waits: its label and whether it is drawn as busy.\<close>

definition moreButton :: "jstr \<Rightarrow> cp_state \<Rightarrow> (jstr \<times> bool) option" where
  "moreButton press p =
     (if endOf p = Some MoreEnd then Some (if cp_busy p then LOADING_MORE else press, cp_busy p) else None)"

text \<open>The effect on a change of \<open>end\<close>: the new \<open>pressed\<close>, and whether the status line takes the focus.\<close>

definition endEffect :: "page_end option \<Rightarrow> bool \<Rightarrow> bool \<Rightarrow> bool \<times> bool" where
  "endEffect e pressed bodyFocused = (if e = Some MoreEnd \<or> \<not> pressed then (pressed, False) else (False, bodyFocused))"

definition adminQuery :: "jstr \<Rightarrow> jstr" where
  "adminQuery resourceType = (if resourceType \<noteq> [] then spString [(js ''resource_type'', resourceType)] else [])"

definition adminEmpty :: "jstr \<Rightarrow> jstr" where
  "adminEmpty resourceType = (if resourceType \<noteq> [] then js ''No matching changes.'' else js ''No changes recorded yet.'')"

section \<open>The page as a machine\<close>

inductive lp_step :: "zone \<Rightarrow> lp_state \<Rightarrow> lp_state \<Rightarrow> bool" for z where
  l_change: "lp_step z s (changeL z now patch s)"
| l_pick: "lp_step z s (pickL z p s)"
| l_period: "lp_step z s (changePeriod z now period s)"
| l_input: "lp_step z s (syncInput z now field v bad s)"
| l_more: "lp_step z s (pressMoreL s)"
| l_rows: "i < length (cp_pending (lp_pages s)) \<Longrightarrow> lp_step z s (pageAnswerL z i ans s)"
| l_timer: "lp_step z s (s\<lparr>lp_facets := timerFires (lp_facets s)\<rparr>)"
| l_facets: "i < length (fh_pending (lp_facets s)) \<Longrightarrow> lp_step z s (s\<lparr>lp_facets := answerFacets i fans (lp_facets s)\<rparr>)"
| l_keys: "lp_step z s (keysAnswerL kans s)"
| l_names: "lp_step z s (namesAnswerL nans s)"
| l_select: "lp_step z s (s\<lparr>lp_selected := r\<rparr>)"

inductive_cases lp_stepE: "lp_step z s t"

inductive lp_reach :: "zone \<Rightarrow> lp_state \<Rightarrow> bool" for z where
  lp_mounted: "lp_reach z (lpMount z now)"
| lp_moved: "lp_reach z s \<Longrightarrow> lp_step z s t \<Longrightarrow> lp_reach z t"

section \<open>The hooks follow the controls\<close>

definition lp_inv :: "zone \<Rightarrow> lp_state \<Rightarrow> bool" where
  "lp_inv z s \<longleftrightarrow>
     cp_reach LogsPath (lp_pages s) \<and> fh_reach (lp_facets s) \<and>
     cp_query (lp_pages s) = logQuery z (lp_filters s) (lp_anchor s) \<and>
     fh_fq (lp_facets s) = facetQuery z (lp_filters s) (lp_anchor s) \<and>
     fh_listAnswered (lp_facets s) = answered (lp_pages s)"

lemma lp_invD:
  assumes "lp_inv z s"
  shows "cp_reach LogsPath (lp_pages s)" "fh_reach (lp_facets s)" "cp_query (lp_pages s) = logQuery z (lp_filters s) (lp_anchor s)"
    "fh_fq (lp_facets s) = facetQuery z (lp_filters s) (lp_anchor s)" "fh_listAnswered (lp_facets s) = answered (lp_pages s)"
  using assms by (simp_all add: lp_inv_def)

lemma changeFq_sel: "fh_fq (changeFq fq la h) = fq" "fh_listAnswered (changeFq fq la h) = la"
  by (simp_all add: changeFq_def Let_def fetchEffect_sel abortHeld_def)

lemma listChange_sel: "fh_fq (listChange la h) = fh_fq h" "fh_listAnswered (listChange la h) = la" "fh_answer (listChange la h) = fh_answer h"
  by (simp_all add: listChange_def Let_def fetchEffect_sel)

lemma renderFacets_ok:
  assumes "fh_reach h"
  shows "fh_reach (renderFacets fq la h)" "fh_fq (renderFacets fq la h) = fq" "fh_listAnswered (renderFacets fq la h) = la"
  using assms by (auto simp: renderFacets_def changeFq_sel listChange_sel intro: fh_reach.fh_next [OF _ fh_step.new_query] fh_reach.fh_next [OF _ fh_step.list_turn])

lemma renderPages_ok:
  assumes "cp_reach path p"
  shows "cp_reach path (renderPages q p)" "cp_query (renderPages q p) = q"
  using cp_reach.moved [OF assms cp_step.filter_change, of q] assms by (simp_all add: renderPages_def newQuery_sel)

lemma lp_inv_render:
  assumes "cp_reach LogsPath (lp_pages s)" "fh_reach (lp_facets s)"
  shows "lp_inv z (renderL z s)"
  using renderPages_ok [OF assms(1)] renderFacets_ok [OF assms(2)] by (simp add: lp_inv_def renderL_def Let_def)

lemma lp_inv_change: "lp_inv z s \<Longrightarrow> lp_inv z (changeL z now patch s)"
  by (simp add: changeL_def lp_inv_render lp_invD)

lemma lp_inv_controls:
  "lp_inv z s \<Longrightarrow> lp_inv z (pickL z p s)" "lp_inv z s \<Longrightarrow> lp_inv z (changePeriod z now period s)" "lp_inv z s \<Longrightarrow> lp_inv z (syncInput z now field v bad s)"
  by (simp_all add: pickL_def lp_inv_render lp_invD changePeriod_def syncInput_def lp_inv_change Let_def)

lemma lp_inv_more: "lp_inv z s \<Longrightarrow> lp_inv z (pressMoreL s)"
proof -
  assume inv: "lp_inv z s"
  have "cp_reach LogsPath (loadMore (lp_pages s))" by (rule cp_reach.moved [OF lp_invD(1) [OF inv] cp_step.press_more])
  moreover have "cp_query (loadMore (lp_pages s)) = cp_query (lp_pages s)" "cp_pages (loadMore (lp_pages s)) = cp_pages (lp_pages s)"
    by (simp_all add: loadMore_def split: option.splits)
  ultimately show "lp_inv z (pressMoreL s)" using inv by (simp add: lp_inv_def pressMoreL_def answered_def endOf_def)
qed

lemma lp_inv_rows:
  assumes "lp_inv z s" "i < length (cp_pending (lp_pages s))"
  shows "lp_inv z (pageAnswerL z i ans s)"
  unfolding pageAnswerL_def
  using assms cp_reach.moved [OF lp_invD(1) [OF assms(1)] cp_step.answered [OF assms(2)]] by (intro lp_inv_render) (simp_all add: lp_invD)

lemma timerFires_sel: "fh_fq (timerFires h) = fh_fq h" "fh_listAnswered (timerFires h) = fh_listAnswered h"
  by (simp_all add: timerFires_def Let_def fetchEffect_sel split: option.splits)

lemma lp_inv_facets:
  assumes "lp_inv z s"
  shows "lp_inv z (s\<lparr>lp_facets := timerFires (lp_facets s)\<rparr>)"
    and "i < length (fh_pending (lp_facets s)) \<Longrightarrow> lp_inv z (s\<lparr>lp_facets := answerFacets i fans (lp_facets s)\<rparr>)"
  using assms fh_reach.fh_next [OF lp_invD(2) [OF assms] fh_step.timer] fh_reach.fh_next [OF lp_invD(2) [OF assms] fh_step.facets_in]
  by (simp_all add: lp_inv_def timerFires_sel answerFacets_sel)

lemma lp_inv_light: "lp_inv z s \<Longrightarrow> lp_inv z (keysAnswerL kans s)" "lp_inv z s \<Longrightarrow> lp_inv z (namesAnswerL nans s)" "lp_inv z s \<Longrightarrow> lp_inv z (s\<lparr>lp_selected := r\<rparr>)"
  by (simp_all add: lp_inv_def keysAnswerL_def namesAnswerL_def split: sum.splits)

lemma lp_inv_step: "lp_step z s t \<Longrightarrow> lp_inv z s \<Longrightarrow> lp_inv z t"
  by (erule lp_stepE) (auto intro: lp_inv_change lp_inv_controls lp_inv_more lp_inv_rows lp_inv_facets lp_inv_light)

lemma lp_reach_inv: "lp_reach z s \<Longrightarrow> lp_inv z s"
proof (induction rule: lp_reach.induct)
  case (lp_mounted now)
  show ?case
    by (simp add: lp_inv_def lpMount_def Let_def changeFq_sel cp_reach.mounted fh_reach.fh_mount) (simp add: newQuery_def Let_def split: option.splits)
qed (blast intro: lp_inv_step)

section \<open>A pick keeps the window and the counts\<close>

lemma applyPick_queries:
  "facetQuery z (applyPick p f) a = facetQuery z f a" "logWindow z (applyPick p f) a = logWindow z f a"
proof -
  have f: "f\<lparr>lg_method := m\<rparr> = f\<lparr>lg_method := m, lg_tool := lg_tool f, lg_noTool := lg_noTool f\<rparr>"
    "f\<lparr>lg_tool := t, lg_noTool := n\<rparr> = f\<lparr>lg_method := lg_method f, lg_tool := t, lg_noTool := n\<rparr>" for m t n
    by simp_all
  show "facetQuery z (applyPick p f) a = facetQuery z f a" "logWindow z (applyPick p f) a = logWindow z f a"
    by (cases p; simp add: applyPick_def split_beta; metis f facetQuery_same window_irrelevant(1))+
qed

text \<open>A list that starts over under the same facet query sends no facets request.\<close>

lemma listChange_silent:
  assumes "fh_inv h"
  shows "fh_ctrl (listChange False h) = fh_ctrl h" "fh_pending (listChange False h) = fh_pending h" "fh_aborted (listChange False h) = fh_aborted h"
proof -
  let ?t = "h\<lparr>fh_listAnswered := False\<rparr>"
  have b: "fh_base ?t" by (rule fh_base_cong [OF fh_invD(1) [OF assms]]) (simp_all add: fh_baseD(6) [OF fh_invD(1) [OF assms]])
  have due: "waitedIn ?t \<Longrightarrow> fh_held ?t \<noteq> None" using fh_invD(2) [OF assms] by (simp add: fh_due_def waitedIn_def)
  have "fetchEffect (waitedIn ?t) ?t = ?t"
  proof (cases "waitedIn ?t")
    case True
    show ?thesis by (rule fetchEffect_cases [OF b, of "waitedIn ?t"]) (use due True in simp_all)
  next
    case False
    then show ?thesis by (simp add: fetchEffect_def facetFetchDue_def split: option.splits)
  qed
  then show "fh_ctrl (listChange False h) = fh_ctrl h" "fh_pending (listChange False h) = fh_pending h" "fh_aborted (listChange False h) = fh_aborted h"
    by (simp_all add: listChange_def Let_def)
qed

lemma newQuery_unanswered: "\<not> answered (newQuery q p)"
  by (simp add: answered_def endOf_def newQuery_def Let_def exposedEnd_def split: option.splits)

lemma pick_facets:
  assumes inv: "lp_inv z s"
  shows "lp_facets (pickL z p s) \<in> {lp_facets s, listChange False (lp_facets s)}"
proof -
  let ?u = "s\<lparr>lp_filters := applyPick p (lp_filters s)\<rparr>"
  let ?p = "renderPages (logQuery z (applyPick p (lp_filters s)) (lp_anchor s)) (lp_pages s)"
  have f: "lp_facets (pickL z p s) = renderFacets (fh_fq (lp_facets s)) (answered ?p) (lp_facets s)"
    using lp_invD(4) [OF inv] by (simp add: pickL_def renderL_def Let_def applyPick_queries)
  show ?thesis
  proof (cases "logQuery z (applyPick p (lp_filters s)) (lp_anchor s) = cp_query (lp_pages s)")
    case True
    then have "?p = lp_pages s" by (simp add: renderPages_def)
    then show ?thesis using lp_invD(5) [OF inv] by (simp add: f renderFacets_def)
  next
    case False
    then have "\<not> answered ?p" by (simp add: renderPages_def newQuery_unanswered)
    then show ?thesis by (simp add: f renderFacets_def)
  qed
qed

section \<open>A run\<close>

text \<open>The page mounts with the default filters and its first page answers.\<close>

lemma first_page_run:
  fixes z now body
  defines "t \<equiv> pageAnswerL z 0 (Inr body) (lpMount z now)"
  shows "lp_reach z t" "answered (lp_pages t)" "pg_rows (cp_pages (lp_pages t)) = rowsOf body LogsPath"
proof -
  obtain q where q: "logQuery z DEFAULT_FILTERS now = Some q" by (simp add: logQuery_def DEFAULT_FILTERS_def)
  have m: "lp_pages (lpMount z now) = newQuery (Some q) cpBlank" "lp_filters (lpMount z now) = DEFAULT_FILTERS" "lp_anchor (lpMount z now) = now"
    by (simp_all add: lpMount_def Let_def q)
  have p: "cp_pending (newQuery (Some q) cpBlank) = [FirstReq 1 q]" by (simp add: newQuery_sel cpBlank_def)
  have s: "cp_query (settleReq LogsPath 0 (Inr body) (newQuery (Some q) cpBlank)) = Some q"
    "cp_pages (settleReq LogsPath 0 (Inr body) (newQuery (Some q) cpBlank)) = firstPage q (rowsOf body LogsPath) (cursorOf body)"
    by (simp_all add: settleReq_def p answerReq_def answerFirst_def dropped_def newQuery_sel cpBlank_def Let_def)
  have "lp_pages t = settleReq LogsPath 0 (Inr body) (newQuery (Some q) cpBlank)"
    by (simp add: t_def pageAnswerL_def renderL_def Let_def m q renderPages_def s)
  with s show "answered (lp_pages t)" "pg_rows (cp_pages (lp_pages t)) = rowsOf body LogsPath"
    by (simp_all add: answered_def endOf_def exposedEnd_def firstPage_def)
  show "lp_reach z t" unfolding t_def
    by (rule lp_reach.lp_moved [OF lp_reach.lp_mounted lp_step.l_rows]) (simp add: m p)
qed

section \<open>Properties\<close>

text \<open>
  Claim C29: in every reachable state of the Logs page both hooks run on the queries of the filters
  on screen, and rows shown as an answer are those of a walk of that query: the first page, then
  each page asked for with the cursor the page before answered.
\<close>

theorem rows_belong_to_the_filters:
  assumes "lp_reach z s" "answered (lp_pages s)"
  shows "\<exists>q. logQuery z (lp_filters s) (lp_anchor s) = Some q \<and> walk q (cp_trace (lp_pages s)) \<and>
     pg_rows (cp_pages (lp_pages s)) = traceRows LogsPath (cp_trace (lp_pages s)) \<and>
     fh_fq (lp_facets s) = facetQuery z (lp_filters s) (lp_anchor s) \<and> fh_listAnswered (lp_facets s)"
proof -
  have inv: "lp_inv z s" by (rule lp_reach_inv [OF assms(1)])
  then obtain q where "cp_query (lp_pages s) = Some q" "walk q (cp_trace (lp_pages s))" "pg_rows (cp_pages (lp_pages s)) = traceRows LogsPath (cp_trace (lp_pages s))"
    using exposed_rows [OF cp_reach_inv [OF lp_invD(1) [OF inv]]] assms(2) by (auto simp: answered_def endOf_def)
  with lp_invD [OF inv] assms(2) show ?thesis by (intro exI [of _ q]) simp
qed

theorem rows_belong_to_the_filters_witness:
  "\<exists>(s :: lp_state) q. answered (lp_pages s) \<and> pg_rows (cp_pages (lp_pages s)) = [JNull] \<and> walk q (cp_trace (lp_pages s)) \<and> fh_listAnswered (lp_facets s)"
proof -
  let ?z = "\<lparr>z_read = \<lambda>_. None, z_endOfMinute = id, z_fields = \<lambda>_. (0, 0, 0, 0, 0), z_parse = \<lambda>_. None\<rparr>"
  let ?s = "pageAnswerL ?z 0 (Inr [(js ''logs'', JArr [JNull])]) (lpMount ?z 0)"
  have "rowsOf [(js ''logs'', JArr [JNull])] LogsPath = [JNull]" by code_simp
  with first_page_run [of ?z "[(js ''logs'', JArr [JNull])]" 0] have r: "lp_reach ?z ?s" "answered (lp_pages ?s)" "pg_rows (cp_pages (lp_pages ?s)) = [JNull]"
    by simp_all
  obtain q where "walk q (cp_trace (lp_pages ?s))" "fh_listAnswered (lp_facets ?s)" using rows_belong_to_the_filters [OF r(1,2)] by blast
  with r(2,3) show ?thesis by (intro exI [of _ ?s] exI [of _ q]) blast
qed

text \<open>
  Picking a method or a tool on the Logs page keeps the anchor, the window and the facet query,
  keeps the counts shown, and neither sends nor cancels a facets request.
\<close>

theorem pick_keeps_the_counts:
  assumes "lp_reach z s"
  shows "let t = pickL z p s in lp_anchor t = lp_anchor s \<and> logWindow z (lp_filters t) (lp_anchor t) = logWindow z (lp_filters s) (lp_anchor s) \<and>
     fh_fq (lp_facets t) = fh_fq (lp_facets s) \<and> fh_answer (lp_facets t) = fh_answer (lp_facets s) \<and>
     fh_pending (lp_facets t) = fh_pending (lp_facets s) \<and> fh_ctrl (lp_facets t) = fh_ctrl (lp_facets s) \<and> fh_aborted (lp_facets t) = fh_aborted (lp_facets s)"
proof -
  have inv: "lp_inv z s" by (rule lp_reach_inv [OF assms])
  have "lp_facets (pickL z p s) \<in> {lp_facets s, listChange False (lp_facets s)}" by (rule pick_facets [OF inv])
  then show ?thesis
    using listChange_silent [OF fh_reach_inv [OF lp_invD(2) [OF inv]]] listChange_sel [of False "lp_facets s"] applyPick_queries(2)
    by (auto simp: Let_def pickL_def renderL_def)
qed

theorem pick_keeps_the_counts_witness:
  "let z = \<lparr>z_read = \<lambda>_. None, z_endOfMinute = id, z_fields = \<lambda>_. (0, 0, 0, 0, 0), z_parse = \<lambda>_. None\<rparr>
   in lp_anchor (pickL z (PickMethod (js ''tools/call'')) (lpMount z 7)) = 7"
proof -
  have "lp_anchor (lpMount z 7) = 7" for z by (simp add: lpMount_def Let_def)
  then show ?thesis
    using pick_keeps_the_counts [OF lp_reach.lp_mounted [where now = 7], where p = "PickMethod (js ''tools/call'')"] by (simp add: Let_def)
qed

end
