(* ===== verification/PatchForm.thy ===== *)
theory PatchForm
  imports Api
begin

text \<open>
  Request bodies built member by member, and the contract the three Edit dialogs share.

  Each dialog seeds a form from the row it opened on and, on Save, sends only what differs from
  that row; an empty body is no request at all. The locale states that contract once; the
  upstream, group and virtual key dialogs are its interpretations.
\<close>

text \<open>\<open>if (c) body[k] = v\<close> for a member not yet set.\<close>

definition optMember :: "bool \<Rightarrow> jstr \<Rightarrow> 'v \<Rightarrow> (jstr \<times> 'v) list" where
  "optMember c k v = (if c then [(k, v)] else [])"

text \<open>The first lines of each page's \<open>save()\<close>: a body with no key closes the dialog and sends nothing.\<close>

definition saveRequest :: "jobj \<Rightarrow> jobj option" where
  "saveRequest body = (if length (objKeys body) = 0 then None else Some body)"

lemma optMember_simps [simp]:
  "optMember True k v = [(k, v)]" "optMember False k v = []"
  by (simp_all add: optMember_def)

lemma optMember_eq_Nil [simp]: "optMember c k v = [] \<longleftrightarrow> \<not> c"
  by (simp add: optMember_def)

lemma objHas_optMember [simp]: "objHas k (optMember c k' v) \<longleftrightarrow> c \<and> k = k'"
  by (simp add: optMember_def)

lemma objGet_optMember [simp]: "objGet k (optMember c k' v) = (if c \<and> k = k' then Some v else None)"
  by (simp add: optMember_def)

lemma fst_set_optMember [simp]: "fst ` set (optMember c k v) = (if c then {k} else {})"
  by (simp add: optMember_def)

lemma map_fst_optMember: "map fst (optMember c k v) = (if c then [k] else [])"
  by (simp add: optMember_def)

lemma distinct_optMember_append:
  "distinct (map fst (optMember c k v @ rest)) \<longleftrightarrow> distinct (map fst rest) \<and> (c \<longrightarrow> \<not> objHas k rest)"
  by (auto simp: optMember_def objHas_def)

lemma saveRequest_None [simp]: "saveRequest body = None \<longleftrightarrow> body = []"
  by (simp add: saveRequest_def objKeys_def)

lemma saveRequest_Some: "saveRequest body = Some b \<longleftrightarrow> b = body \<and> body \<noteq> []"
  by (auto simp: saveRequest_def objKeys_def)

lemma objHas_hd: "ob \<noteq> [] \<Longrightarrow> objHas (fst (hd ob)) ob"
  by (cases ob) (auto simp: objHas_def)

locale patch_form =
  fixes seed :: "'row \<Rightarrow> 'form"
    and body :: "'row \<Rightarrow> 'form \<Rightarrow> jobj"
    and stable :: "'row \<Rightarrow> bool"
    and fields :: "jstr list"
  assumes untouched: "stable r \<Longrightarrow> body r (seed r) = []"
    and known: "objHas k (body r f) \<Longrightarrow> k \<in> set fields"
    and once: "distinct (map fst (body r f))"
begin

lemma untouched_sends_nothing: "stable r \<Longrightarrow> saveRequest (body r (seed r)) = None"
  by (simp add: untouched)

lemma request_names_a_field:
  assumes "saveRequest (body r f) = Some b"
  shows "\<exists>k \<in> set fields. objHas k b"
  using assms objHas_hd [of b] known [of _ r f] by (auto simp: saveRequest_Some)

lemma request_fields_bounded: "length (body r f) \<le> length fields"
proof -
  have "set (map fst (body r f)) \<subseteq> set fields" using known by (auto simp: objHas_def)
  then have "card (set (map fst (body r f))) \<le> card (set fields)" by (simp add: card_mono)
  moreover have "card (set (map fst (body r f))) = length (body r f)" using distinct_card [OF once [of r f]] by simp
  ultimately show ?thesis using card_length [of fields] by linarith
qed

end

end
