(* ===== verification/UpstreamForm.thy ===== *)
theory UpstreamForm
  imports PatchForm UpstreamAuth
begin

text \<open>
  The Add and Edit upstream dialogs' form: \<open>web/src/lib/upstream-form.ts\<close>.

  The form is one record; request bodies are objects (\<open>jobj\<close>) in the order the code sets their
  members. The lemmas show what a save sends: nothing for an untouched form, a field exactly
  when it differs from the row, a credential only when one was typed and never an empty or
  unnamed one, and that the dialog's \<open>required\<close> rules make a change of auth type carry its
  credential.
\<close>

section \<open>The form\<close>

record upstream_form =
  uf_name :: jstr
  uf_slug :: jstr
  uf_description :: jstr
  uf_kind :: jstr
  uf_url :: jstr
  uf_transport :: jstr
  uf_test_path :: jstr
  uf_auth_type :: jstr
  uf_token :: jstr
  uf_header :: jstr
  uf_param :: jstr
  uf_value :: jstr
  uf_client_id :: jstr
  uf_client_secret :: jstr
  uf_register_client :: bool
  uf_enabled :: bool
  uf_clear_stored :: bool

definition CONNECTION_FIELDS :: "jstr list" where
  "CONNECTION_FIELDS = [js ''kind'', js ''url'', js ''transport'', js ''test_path'', js ''auth_type'', js ''token'',
     js ''header'', js ''param'', js ''value'']"

text \<open>\<open>PARAM_PATTERN\<close>, an HTML \<open>pattern\<close>: the whole value must match it.\<close>

definition isParamChar :: "jchar \<Rightarrow> bool" where
  "isParamChar c \<longleftrightarrow> (0x41 \<le> c \<and> c \<le> 0x5a) \<or> (0x61 \<le> c \<and> c \<le> 0x7a) \<or> (0x30 \<le> c \<and> c \<le> 0x39) \<or>
     c = 0x2e \<or> c = 0x5f \<or> c = 0x7e \<or> c = 0x2d"

definition paramPattern :: "jstr \<Rightarrow> bool" where
  "paramPattern s \<longleftrightarrow> s \<noteq> [] \<and> list_all isParamChar s"

definition DEFAULT_HEADER :: jstr where
  "DEFAULT_HEADER = js ''Authorization''"

definition KIND_LABELS :: "jstr \<rightharpoonup> jstr" where
  "KIND_LABELS = map_of [(js ''mcp'', js ''MCP server''), (js ''http'', js ''HTTP API'')]"

definition kindLabel :: "jstr \<Rightarrow> jstr" where
  "kindLabel kind = orElse (KIND_LABELS kind) kind"

definition applyKindChange :: "upstream_form \<Rightarrow> jstr \<Rightarrow> upstream_form" where
  "applyKindChange f kind =
     (let next = f\<lparr>uf_kind := kind\<rparr> in
      if kind = js ''http'' \<and> uf_auth_type f = js ''oauth'' then
        next\<lparr>uf_auth_type := js ''none'', uf_client_id := [], uf_client_secret := [], uf_register_client := False\<rparr>
      else next)"

definition AUTH_TYPE_LABELS :: "jstr \<rightharpoonup> jstr" where
  "AUTH_TYPE_LABELS = map_of [(js ''none'', js ''None''), (js ''bearer'', js ''Bearer''), (js ''header'', js ''Header''),
     (js ''api_key'', js ''API key''), (js ''query'', js ''Query parameter''), (js ''custom'', js ''Custom''),
     (js ''oauth'', js ''OAuth'')]"

definition TRANSPORT_LABELS :: "jstr \<rightharpoonup> jstr" where
  "TRANSPORT_LABELS = map_of [(js ''streamable-http'', js ''Streamable HTTP'')]"

definition authTypeLabel :: "jstr \<Rightarrow> jstr" where
  "authTypeLabel authType = orElse (AUTH_TYPE_LABELS authType) authType"

definition headerShaped :: "jstr \<Rightarrow> bool" where
  "headerShaped authType \<longleftrightarrow> authType = js ''header'' \<or> authType = js ''api_key'' \<or> authType = js ''custom''"

definition queryShaped :: "jstr \<Rightarrow> bool" where
  "queryShaped authType \<longleftrightarrow> authType = js ''query''"

definition blankUpstreamForm :: upstream_form where
  "blankUpstreamForm = \<lparr>uf_name = [], uf_slug = [], uf_description = [], uf_kind = js ''mcp'', uf_url = [],
     uf_transport = js ''streamable-http'', uf_test_path = [], uf_auth_type = js ''none'', uf_token = [],
     uf_header = DEFAULT_HEADER, uf_param = [], uf_value = [], uf_client_id = [], uf_client_secret = [],
     uf_register_client = False, uf_enabled = True, uf_clear_stored = False\<rparr>"

text \<open>\<open>u.auth_hint?.header\<close> and \<open>u.auth_hint?.param\<close>.\<close>

definition hintHeader :: "upstream \<Rightarrow> jstr option" where
  "hintHeader u = Option.bind (u_auth_hint u) hint_header"

definition hintParam :: "upstream \<Rightarrow> jstr option" where
  "hintParam u = Option.bind (u_auth_hint u) hint_param"

definition formFromUpstream :: "upstream \<Rightarrow> upstream_form" where
  "formFromUpstream u = \<lparr>uf_name = u_name u, uf_slug = u_slug u, uf_description = orElse (u_description u) [],
     uf_kind = u_kind u, uf_url = u_url u, uf_transport = u_transport u, uf_test_path = orElse (u_test_path u) [],
     uf_auth_type = u_auth_type u, uf_token = [], uf_header = orElse (hintHeader u) [], uf_param = orElse (hintParam u) [],
     uf_value = [], uf_client_id = [], uf_client_secret = [], uf_register_client = False, uf_enabled = u_enabled u,
     uf_clear_stored = False\<rparr>"

section \<open>Request bodies\<close>

text \<open>\<open>Record<string, string>\<close>.\<close>

type_synonym str_obj = "(jstr \<times> jstr) list"

definition authConfigFrom :: "upstream_form \<Rightarrow> str_obj" where
  "authConfigFrom f =
     optMember (uf_auth_type f = js ''bearer'' \<and> uf_token f \<noteq> []) (js ''token'') (uf_token f) @
     (if headerShaped (uf_auth_type f) \<and> uf_value f \<noteq> []
      then [(js ''header'', uf_header f), (js ''value'', uf_value f)] else []) @
     (if queryShaped (uf_auth_type f) \<and> uf_value f \<noteq> []
      then [(js ''param'', uf_param f), (js ''value'', uf_value f)] else []) @
     (if uf_auth_type f = js ''oauth'' \<and> trim (uf_client_id f) \<noteq> []
      then [(js ''client_id'', trim (uf_client_id f))] @
           optMember (uf_client_secret f \<noteq> []) (js ''client_secret'') (uf_client_secret f) else [])"

definition strObj :: "str_obj \<Rightarrow> jval" where
  "strObj ob = JObj (map (\<lambda>(k, v). (k, JStr v)) ob)"

definition credentialTyped :: "upstream_form \<Rightarrow> bool" where
  "credentialTyped f =
     (if uf_auth_type f = js ''bearer'' then trim (uf_token f) \<noteq> []
      else if headerShaped (uf_auth_type f) \<or> queryShaped (uf_auth_type f) then trim (uf_value f) \<noteq> []
      else if uf_auth_type f = js ''oauth'' then trim (uf_client_id f) \<noteq> []
      else False)"

definition CLIENT_SECRET_ALONE :: jstr where
  "CLIENT_SECRET_ALONE = js ''Enter the client ID that goes with this secret.''"

definition clientSecretAlone :: "upstream_form \<Rightarrow> bool" where
  "clientSecretAlone f \<longleftrightarrow> uf_auth_type f = js ''oauth'' \<and> uf_client_secret f \<noteq> [] \<and> trim (uf_client_id f) = []"

definition upstreamCreateBody :: "upstream_form \<Rightarrow> bool \<Rightarrow> jobj" where
  "upstreamCreateBody f slugTouched =
     [(js ''name'', JStr (uf_name f)), (js ''slug'', JStr (if slugTouched then uf_slug f else [])),
      (js ''description'', JStr (uf_description f)), (js ''kind'', JStr (uf_kind f)), (js ''url'', JStr (uf_url f)),
      (js ''transport'', JStr (uf_transport f)), (js ''auth_type'', JStr (uf_auth_type f)),
      (js ''auth_config'', strObj (authConfigFrom f)), (js ''enabled'', JBool (uf_enabled f))] @
     optMember (uf_kind f = js ''http'' \<and> trim (uf_test_path f) \<noteq> []) (js ''test_path'') (JStr (trim (uf_test_path f)))"

text \<open>\<open>if (k in auth_config) { trim it; if blank return body; set it }\<close>: nothing when the caller returns.\<close>

definition trimName :: "jstr \<Rightarrow> str_obj \<Rightarrow> str_obj option" where
  "trimName k ac =
     (case objGet k ac of
        None \<Rightarrow> Some ac
      | Some v \<Rightarrow> if trim v = [] then None else Some (objSet k (trim v) ac))"

definition patchCredential :: "upstream_form \<Rightarrow> jobj" where
  "patchCredential f =
     (if \<not> credentialTyped f then []
      else (case Option.bind (trimName (js ''header'') (authConfigFrom f)) (trimName (js ''param'')) of
              None \<Rightarrow> []
            | Some ac \<Rightarrow> [(js ''auth_config'', strObj ac)]))"

definition upstreamPatchBody :: "upstream \<Rightarrow> upstream_form \<Rightarrow> jobj" where
  "upstreamPatchBody before f =
     optMember (trim (uf_name f) \<noteq> u_name before) (js ''name'') (JStr (trim (uf_name f))) @
     optMember (uf_description f \<noteq> orElse (u_description before) []) (js ''description'') (JStr (uf_description f)) @
     optMember (trim (uf_url f) \<noteq> u_url before) (js ''url'') (JStr (trim (uf_url f))) @
     optMember (uf_transport f \<noteq> u_transport before) (js ''transport'') (JStr (uf_transport f)) @
     optMember (u_kind before = js ''http'' \<and> trim (uf_test_path f) \<noteq> orElse (u_test_path before) [])
       (js ''test_path'') (JStr (trim (uf_test_path f))) @
     optMember (uf_auth_type f \<noteq> u_auth_type before \<or> (uf_auth_type f = js ''none'' \<and> uf_clear_stored f))
       (js ''auth_type'') (JStr (uf_auth_type f)) @
     optMember (uf_enabled f \<noteq> u_enabled before) (js ''enabled'') (JBool (uf_enabled f)) @
     patchCredential f"

definition credentialRequired :: "upstream \<Rightarrow> upstream_form \<Rightarrow> bool" where
  "credentialRequired before f =
     (if uf_auth_type f = js ''oauth'' then False
      else if uf_auth_type f \<noteq> u_auth_type before then uf_auth_type f \<noteq> js ''none''
      else if headerShaped (uf_auth_type f) then trim (uf_header f) \<noteq> uf_header (formFromUpstream before)
      else if queryShaped (uf_auth_type f) then trim (uf_param f) \<noteq> uf_param (formFromUpstream before)
      else False)"

text \<open>\<open>before\<close> is absent in the Add dialog.\<close>

definition headerRequired :: "upstream option \<Rightarrow> upstream_form \<Rightarrow> bool" where
  "headerRequired before f =
     (if \<not> headerShaped (uf_auth_type f) then False
      else credentialTyped f \<or> (case before of None \<Rightarrow> False | Some b \<Rightarrow> credentialRequired b f))"

definition paramRequired :: "upstream option \<Rightarrow> upstream_form \<Rightarrow> bool" where
  "paramRequired before f =
     (if \<not> queryShaped (uf_auth_type f) then False
      else credentialTyped f \<or> (case before of None \<Rightarrow> False | Some b \<Rightarrow> credentialRequired b f))"

section \<open>Sentences\<close>

definition HEADER_SUFFIX :: jstr where
  "HEADER_SUFFIX = js '' The header name is stored with it, so enter that too.''"

definition PARAM_SUFFIX :: jstr where
  "PARAM_SUFFIX = js '' The parameter name is stored with it, so enter that too.''"

definition credentialNameSuffix :: "jstr \<Rightarrow> jstr" where
  "credentialNameSuffix authType =
     (if headerShaped authType then HEADER_SUFFIX else if queryShaped authType then PARAM_SUFFIX else [])"

definition oauthDescription :: "upstream \<Rightarrow> jstr" where
  "oauthDescription before =
     (let state = rowAuthState before; item = connectLabel (u_oauth before);
          menu = js '' in the upstream's Actions menu'' in
      case as_tone state of
        IdleTone \<Rightarrow> js ''Not connected. Choose '' @ item @ menu @ js '' to sign in to the vendor.''
      | HeldTone \<Rightarrow> js ''The vendor refused to renew the access token, or it lapsed with no refresh token. Choose '' @ item @
          menu @ js '' to sign in again.''
      | BrokenTone \<Rightarrow> js ''The stored token cannot be read with the current encryption key. Restore the key it was saved under, or choose '' @
          item @ menu @ js '' to sign in again.''
      | _ \<Rightarrow>
          (if orElse (as_expiresAt state) [] \<noteq> [] then
             js ''Connected. The vendor issued no refresh token, so the connection ends at the time shown in the table. Choose '' @
             item @ menu @ js '' after that.''
           else js ''Connected. PoryMCP renews the access token before it expires.''))"

definition credentialHelp :: "upstream \<Rightarrow> upstream_form \<Rightarrow> jstr" where
  "credentialHelp before f =
     (if uf_auth_type f = js ''oauth'' then oauthDescription before
      else (let suffix = credentialNameSuffix (uf_auth_type f) in
        if as_tone (rowAuthState before) = BrokenTone then
          (if u_auth_status before = js ''undecryptable'' then
             js ''The stored credential cannot be read with the current encryption key. Enter it again, or restore the key it was saved under. Until then this upstream cannot authenticate.'' @ suffix
           else js ''No usable credential is stored for this auth type. Enter one, or this upstream cannot authenticate.'' @ suffix)
        else (let name = orElse (case hintHeader before of None \<Rightarrow> hintParam before | Some h \<Rightarrow> Some h) [] in
          if name \<noteq> [] then
            (let noun = (if orElse (hintHeader before) [] \<noteq> [] then js ''header'' else js ''query parameter'') in
             js ''Leave blank to keep the stored credential. It currently sends the '' @ name @ js '' '' @ noun @
             js ''. A value here replaces it.'')
          else js ''Leave blank to keep the stored credential. A value here replaces it.'')))"

definition editCredentialDescription :: "upstream \<Rightarrow> upstream_form \<Rightarrow> jstr" where
  "editCredentialDescription before f =
     (if uf_auth_type f = js ''oauth'' \<and> u_auth_type before \<noteq> js ''oauth'' then
        (if u_auth_configured before
         then js ''Saving removes the stored credential. Connect the upstream after saving.''
         else js ''Connect the upstream after saving.'')
      else if credentialRequired before f then
        (if uf_auth_type f \<noteq> u_auth_type before then
           (let label = authTypeLabel (uf_auth_type f) in
            if u_auth_type before = js ''none'' then js ''Enter the credential for '' @ label @ js ''.''
            else js ''Changing the auth type changes what PoryMCP sends. Enter the credential for '' @ label @ js '' to save.'')
         else if queryShaped (uf_auth_type f) then
           js ''The parameter name is stored inside the credential. Enter the value again to change the name.''
         else js ''The header name is stored inside the credential. Enter the value again to change the name.'')
      else credentialHelp before f)"

definition urlChanged :: "upstream option \<Rightarrow> jstr \<Rightarrow> bool" where
  "urlChanged before url =
     (case before of None \<Rightarrow> False
      | Some b \<Rightarrow> trim url \<noteq> u_url b \<and> u_auth_status b = js ''ok'' \<and> u_auth_type b \<noteq> js ''oauth'')"

definition urlChangeDescription :: "upstream option \<Rightarrow> jstr \<Rightarrow> jstr option" where
  "urlChangeDescription before url =
     (case before of None \<Rightarrow> None
      | Some b \<Rightarrow>
          if trim url = u_url b then None
          else if u_auth_type b = js ''oauth'' then
            (if \<not> u_auth_configured b then None
             else if oauthExpiry (u_oauth b) \<noteq> []
             then Some (js ''Saving a new URL disconnects this upstream. Connect it again afterwards.'')
             else Some (js ''Saving a new URL removes the stored client ID. Enter it again if the new address needs it.''))
          else if u_auth_status b = js ''ok''
          then Some (js ''PoryMCP sends the stored credential to the new address from the next request.'')
          else None)"

definition removeCredentialDescription :: "upstream option \<Rightarrow> upstream_form \<Rightarrow> jstr option" where
  "removeCredentialDescription before f =
     (case before of None \<Rightarrow> None
      | Some b \<Rightarrow>
          if u_auth_type b = js ''none'' \<or> \<not> u_auth_configured b then None
          else if uf_auth_type f \<noteq> js ''none'' then None
          else Some (js ''Saving removes the stored credential. It cannot be recovered. Switching back later means entering it again.''))"

definition clearStoredDescription :: "upstream option \<Rightarrow> upstream_form \<Rightarrow> jstr option" where
  "clearStoredDescription before f =
     (case before of None \<Rightarrow> None
      | Some b \<Rightarrow>
          if u_auth_type b \<noteq> js ''none'' \<or> \<not> u_auth_configured b then None
          else if uf_auth_type f \<noteq> js ''none'' then None
          else Some (js ''A value is still stored for this upstream and is not sent, because the auth type is None. Saving with this ticked removes it.''))"

section \<open>The dialog's own constraints\<close>

text \<open>What the \<open>required\<close> and \<open>pattern\<close> attributes of \<open>UpstreamFields\<close> hold a submit to, on the boxes
  it renders for the form's auth type. The URL box's \<open>type="url"\<close> is the browser's and is left out.\<close>

definition filled :: "bool \<Rightarrow> jstr \<Rightarrow> bool" where
  "filled required v \<longleftrightarrow> (required \<longrightarrow> v \<noteq> [])"

definition fieldsValid :: "upstream option \<Rightarrow> upstream_form \<Rightarrow> bool" where
  "fieldsValid before f \<longleftrightarrow>
     (let credRequired = (case before of None \<Rightarrow> False | Some b \<Rightarrow> credentialRequired b f);
          editing = (before \<noteq> None) in
      filled True (uf_name f) \<and> filled True (uf_url f) \<and>
      (uf_kind f = js ''http'' \<longrightarrow> uf_test_path f = [] \<or> hd (uf_test_path f) = 0x2f) \<and>
      (uf_auth_type f = js ''oauth'' \<longrightarrow> filled (uf_client_secret f \<noteq> []) (uf_client_id f)) \<and>
      (uf_auth_type f = js ''bearer'' \<longrightarrow> filled credRequired (uf_token f)) \<and>
      (headerShaped (uf_auth_type f) \<longrightarrow>
         filled (headerRequired before f) (uf_header f) \<and> (uf_header f = [] \<or> list_ex (\<lambda>c. \<not> isWhite c) (uf_header f)) \<and>
         filled credRequired (uf_value f)) \<and>
      (queryShaped (uf_auth_type f) \<longrightarrow>
         filled (if editing then paramRequired before f else True) (uf_param f) \<and>
         (uf_param f = [] \<or> paramPattern (uf_param f)) \<and>
         filled (if editing then credRequired else True) (uf_value f)))"

section \<open>Laws\<close>

lemma trim_Nil_iff: "trim s = [] \<longleftrightarrow> list_all isWhite s"
proof -
  have dw: "dropWhile P xs = [] \<longleftrightarrow> list_all P xs" for P and xs :: jstr by (simp add: dropWhile_eq_Nil_conv list_all_iff)
  have "list_all isWhite (dropWhile isWhite s) \<longleftrightarrow> dropWhile isWhite s = []"
    using hd_dropWhile [of isWhite s] by (metis empty_iff empty_set hd_in_set list_all_iff)
  then show ?thesis by (simp add: trim_def dropEndWhile_def dw list_all_iff)
qed

lemma shapes [simp]:
  "headerShaped a \<Longrightarrow> \<not> queryShaped a" "headerShaped a \<Longrightarrow> a \<noteq> js ''bearer''" "headerShaped a \<Longrightarrow> a \<noteq> js ''oauth''"
  "headerShaped a \<Longrightarrow> a \<noteq> js ''none''" "\<not> headerShaped (js ''bearer'')" "\<not> headerShaped (js ''oauth'')"
  "\<not> headerShaped (js ''none'')" "\<not> headerShaped (js ''query'')"
  "\<not> queryShaped (js ''bearer'')" "\<not> queryShaped (js ''oauth'')" "\<not> queryShaped (js ''none'')" "queryShaped (js ''query'')"
  by (auto simp: headerShaped_def queryShaped_def)

lemma applyKindChange_http: "\<not> (uf_kind (applyKindChange f k) = js ''http'' \<and> uf_auth_type (applyKindChange f k) = js ''oauth'')"
  by (simp add: applyKindChange_def Let_def)

lemma applyKindChange_idem: "applyKindChange (applyKindChange f k) k = applyKindChange f k"
  by (simp add: applyKindChange_def Let_def)

text \<open>The credential sent, case by case.\<close>

lemma authConfigFrom_cases:
  "authConfigFrom f =
     (if uf_auth_type f = js ''bearer'' then optMember (uf_token f \<noteq> []) (js ''token'') (uf_token f)
      else if headerShaped (uf_auth_type f) then (if uf_value f \<noteq> [] then [(js ''header'', uf_header f), (js ''value'', uf_value f)] else [])
      else if queryShaped (uf_auth_type f) then (if uf_value f \<noteq> [] then [(js ''param'', uf_param f), (js ''value'', uf_value f)] else [])
      else if uf_auth_type f = js ''oauth'' then
        (if trim (uf_client_id f) \<noteq> [] then [(js ''client_id'', trim (uf_client_id f))] @
           optMember (uf_client_secret f \<noteq> []) (js ''client_secret'') (uf_client_secret f) else [])
      else [])"
  by (auto simp: authConfigFrom_def headerShaped_def queryShaped_def)

lemma credentialTyped_config: "credentialTyped f \<Longrightarrow> authConfigFrom f \<noteq> []"
  by (auto simp: credentialTyped_def authConfigFrom_cases split: if_splits)

text \<open>The name box of the form's auth type, when it has one.\<close>

definition nameBox :: "upstream_form \<Rightarrow> jstr option" where
  "nameBox f = (if headerShaped (uf_auth_type f) then Some (uf_header f)
     else if queryShaped (uf_auth_type f) then Some (uf_param f) else None)"

definition sentConfig :: "upstream_form \<Rightarrow> str_obj" where
  "sentConfig f =
     (if headerShaped (uf_auth_type f) then [(js ''header'', trim (uf_header f)), (js ''value'', uf_value f)]
      else if queryShaped (uf_auth_type f) then [(js ''param'', trim (uf_param f)), (js ''value'', uf_value f)]
      else authConfigFrom f)"

lemma patchCredential_eq:
  "patchCredential f =
     (if credentialTyped f \<and> (case nameBox f of None \<Rightarrow> True | Some n \<Rightarrow> trim n \<noteq> [])
      then [(js ''auth_config'', strObj (sentConfig f))] else [])"
proof (cases "credentialTyped f")
  case True
  show ?thesis
  proof (cases "headerShaped (uf_auth_type f) \<or> queryShaped (uf_auth_type f)")
    case named: True
    with True have "uf_value f \<noteq> []" by (auto simp: credentialTyped_def split: if_splits)
    with True named show ?thesis
      by (auto simp: patchCredential_def trimName_def authConfigFrom_cases sentConfig_def nameBox_def)
  next
    case False
    with True show ?thesis
      by (auto simp: patchCredential_def trimName_def authConfigFrom_cases sentConfig_def nameBox_def optMember_def)
  qed
qed (simp add: patchCredential_def)

lemma sentConfig_full:
  assumes "credentialTyped f" "case nameBox f of None \<Rightarrow> True | Some n \<Rightarrow> trim n \<noteq> []"
  shows "sentConfig f \<noteq> []" "(k, v) \<in> set (sentConfig f) \<Longrightarrow> v \<noteq> []"
  using assms
  by (auto simp: sentConfig_def nameBox_def credentialTyped_def authConfigFrom_cases optMember_def split: if_splits)

definition upstreamPatchFields :: "jstr list" where
  "upstreamPatchFields = [js ''name'', js ''description'', js ''url'', js ''transport'', js ''test_path'', js ''auth_type'',
     js ''enabled'', js ''auth_config'']"

text \<open>A stored row as the server writes it: names, URLs and test paths are kept trimmed.\<close>

definition stableUpstream :: "upstream \<Rightarrow> bool" where
  "stableUpstream u \<longleftrightarrow> trim (u_name u) = u_name u \<and> trim (u_url u) = u_url u \<and>
     trim (orElse (u_test_path u) []) = orElse (u_test_path u) []"

lemma seeded_untyped: "\<not> credentialTyped (formFromUpstream u)"
  by (simp add: credentialTyped_def formFromUpstream_def)

lemma upstreamPatch_untouched: "stableUpstream u \<Longrightarrow> upstreamPatchBody u (formFromUpstream u) = []"
  by (simp add: upstreamPatchBody_def patchCredential_def seeded_untyped)
     (simp add: formFromUpstream_def stableUpstream_def)

lemma objHas_patchCredential: "objHas k (patchCredential f) \<Longrightarrow> k = js ''auth_config''"
  by (simp add: patchCredential_eq split: if_splits)

lemma upstreamPatch_fields: "objHas k (upstreamPatchBody u f) \<Longrightarrow> k \<in> set upstreamPatchFields"
  by (auto simp: upstreamPatchBody_def upstreamPatchFields_def dest: objHas_patchCredential)

lemma map_fst_patchCredential: "map fst (patchCredential f) \<in> {[], [js ''auth_config'']}"
  by (simp add: patchCredential_eq)

lemma upstreamPatch_distinct: "distinct (map fst (upstreamPatchBody u f))"
  using map_fst_patchCredential [of f] objHas_patchCredential [of _ f]
  unfolding upstreamPatchBody_def distinct_optMember_append by fastforce

interpretation upstream_patch: patch_form formFromUpstream upstreamPatchBody stableUpstream upstreamPatchFields
  by unfold_locales (simp_all add: upstreamPatch_untouched upstreamPatch_fields upstreamPatch_distinct)

lemma upstreamPatch_config:
  "objGet (js ''auth_config'') (upstreamPatchBody u f) =
     (if credentialTyped f \<and> (case nameBox f of None \<Rightarrow> True | Some n \<Rightarrow> trim n \<noteq> [])
      then Some (strObj (sentConfig f)) else None)"
  by (simp add: upstreamPatchBody_def objGet_append patchCredential_eq)

lemma upstreamPatch_auth_type:
  "objGet (js ''auth_type'') (upstreamPatchBody u f) =
     (if uf_auth_type f \<noteq> u_auth_type u \<or> (uf_auth_type f = js ''none'' \<and> uf_clear_stored f)
      then Some (JStr (uf_auth_type f)) else None)"
  by (simp add: upstreamPatchBody_def objGet_append patchCredential_eq)

lemma fieldsValid_named:
  assumes valid: "fieldsValid (Some b) f" and typed: "credentialTyped f"
  shows "case nameBox f of None \<Rightarrow> True | Some n \<Rightarrow> trim n \<noteq> []"
proof -
  have "trim (uf_header f) \<noteq> []" if h: "headerShaped (uf_auth_type f)"
    using valid typed h by (auto simp: fieldsValid_def Let_def filled_def headerRequired_def trim_Nil_iff list_ex_iff list_all_iff)
  moreover have "trim (uf_param f) \<noteq> []" if q: "queryShaped (uf_auth_type f)"
  proof -
    have "uf_param f \<noteq> []" "paramPattern (uf_param f)"
      using valid typed q by (auto simp: fieldsValid_def Let_def filled_def paramRequired_def)
    moreover have "\<not> isWhite c" if "isParamChar c" for c
      using that by (auto simp: isWhite_def isParamChar_def word_le_nat_alt)
    ultimately show ?thesis by (cases "uf_param f") (auto simp: trim_Nil_iff paramPattern_def)
  qed
  ultimately show ?thesis by (auto simp: nameBox_def)
qed

text \<open>A token of white space passes the field checks of a changed auth type and is not sent: the PATCH
  then carries the auth type alone.\<close>

lemma blank_token_changes_auth_alone:
  assumes "u_auth_type b \<noteq> js ''bearer''" "uf_auth_type f = js ''bearer''" "uf_token f = js '' ''" "uf_name f \<noteq> []" "uf_url f \<noteq> []"
    "uf_kind f \<noteq> js ''http''"
  shows "fieldsValid (Some b) f" "objGet (js ''auth_type'') (upstreamPatchBody b f) = Some (JStr (js ''bearer''))"
    "objGet (js ''auth_config'') (upstreamPatchBody b f) = None"
proof -
  have "trim (js '' '') = []" by code_simp
  then show "fieldsValid (Some b) f" "objGet (js ''auth_type'') (upstreamPatchBody b f) = Some (JStr (js ''bearer''))"
    "objGet (js ''auth_config'') (upstreamPatchBody b f) = None"
    using assms by (simp_all add: fieldsValid_def filled_def upstreamPatch_auth_type upstreamPatch_config credentialTyped_def Let_def)
qed

section \<open>Properties\<close>

text \<open>
  Claim C17: when a PATCH carries a credential it is the whole credential of the chosen auth type:
  it has members and none of them is empty, so a stored secret is never replaced by a blank one.
\<close>

theorem credential_sent_whole:
  assumes "objGet (js ''auth_config'') (upstreamPatchBody u f) = Some v"
  shows "\<exists>cfg. v = strObj cfg \<and> cfg \<noteq> [] \<and> (\<forall>(k, x) \<in> set cfg. x \<noteq> [])"
  using assms sentConfig_full [of f] by (auto simp: upstreamPatch_config split: if_splits)

theorem credential_sent_whole_witness:
  "\<exists>cfg. strObj [(js ''token'', js ''s'')] = strObj cfg \<and> cfg \<noteq> [] \<and> (\<forall>(k, x) \<in> set cfg. x \<noteq> [])"
proof (rule credential_sent_whole)
  show "objGet (js ''auth_config'') (upstreamPatchBody (\<lparr>u_id = js ''1'', u_name = js ''a'', u_slug = js ''a'', u_description = None, u_kind = js ''mcp'', u_url = js ''https://a'', u_transport = js ''streamable-http'', u_test_path = None, u_auth_type = js ''none'', u_enabled = True, u_auth_configured = False, u_auth_status = js ''ok'', u_auth_hint = None, u_oauth = None, u_last_test_at = None, u_last_test_ok = None, u_created_at = [], u_updated_at = []\<rparr>) ((formFromUpstream (\<lparr>u_id = js ''1'', u_name = js ''a'', u_slug = js ''a'', u_description = None, u_kind = js ''mcp'', u_url = js ''https://a'', u_transport = js ''streamable-http'', u_test_path = None, u_auth_type = js ''none'', u_enabled = True, u_auth_configured = False, u_auth_status = js ''ok'', u_auth_hint = None, u_oauth = None, u_last_test_at = None, u_last_test_ok = None, u_created_at = [], u_updated_at = []\<rparr>))\<lparr>uf_auth_type := js ''bearer'', uf_token := js ''s''\<rparr>)) =
      Some (strObj [(js ''token'', js ''s'')])" by code_simp
qed

text \<open>
  When the edit dialog passes the browser's own field checks, a credential that was typed is in the
  body of the PATCH; it is never dropped for a missing header or parameter name.
\<close>

theorem typed_credential_is_sent:
  assumes "fieldsValid (Some b) f" "credentialTyped f"
  shows "objGet (js ''auth_config'') (upstreamPatchBody b f) = Some (strObj (sentConfig f))"
  using fieldsValid_named [OF assms] assms(2) by (simp add: upstreamPatch_config)

theorem typed_credential_is_sent_witness:
  "objGet (js ''auth_config'') (upstreamPatchBody (\<lparr>u_id = js ''1'', u_name = js ''a'', u_slug = js ''a'', u_description = None, u_kind = js ''mcp'', u_url = js ''https://a'', u_transport = js ''streamable-http'', u_test_path = None, u_auth_type = js ''none'', u_enabled = True, u_auth_configured = False, u_auth_status = js ''ok'', u_auth_hint = None, u_oauth = None, u_last_test_at = None, u_last_test_ok = None, u_created_at = [], u_updated_at = []\<rparr>) ((formFromUpstream (\<lparr>u_id = js ''1'', u_name = js ''a'', u_slug = js ''a'', u_description = None, u_kind = js ''mcp'', u_url = js ''https://a'', u_transport = js ''streamable-http'', u_test_path = None, u_auth_type = js ''none'', u_enabled = True, u_auth_configured = False, u_auth_status = js ''ok'', u_auth_hint = None, u_oauth = None, u_last_test_at = None, u_last_test_ok = None, u_created_at = [], u_updated_at = []\<rparr>))\<lparr>uf_auth_type := js ''bearer'', uf_token := js ''s''\<rparr>)) =
     Some (strObj (sentConfig ((formFromUpstream (\<lparr>u_id = js ''1'', u_name = js ''a'', u_slug = js ''a'', u_description = None, u_kind = js ''mcp'', u_url = js ''https://a'', u_transport = js ''streamable-http'', u_test_path = None, u_auth_type = js ''none'', u_enabled = True, u_auth_configured = False, u_auth_status = js ''ok'', u_auth_hint = None, u_oauth = None, u_last_test_at = None, u_last_test_ok = None, u_created_at = [], u_updated_at = []\<rparr>))\<lparr>uf_auth_type := js ''bearer'', uf_token := js ''s''\<rparr>)))"
  by (rule typed_credential_is_sent) code_simp+

end
