(* ===== verification/RowMenus.thy ===== *)
theory RowMenus
  imports UpstreamForm Slug
begin

text \<open>
  The row menus and the OAuth connect rules: \<open>web/src/lib/row-actions.ts\<close> and
  \<open>web/src/lib/oauth-connect.ts\<close>.

  A menu is a list of sections of items; \<open>bindRowActions\<close> pairs each item with the handler of
  its id. The register choices live in session storage, which may be absent or refuse; the
  lemmas show that what is saved is what is loaded, that every item runs the handler of its own
  id, and that Delete is the one destructive item and the last.
\<close>

section \<open>Menus\<close>

definition CONNECTING :: jstr where
  "CONNECTING = js ''Connecting'' @ [0x2026]"

definition toolsLabel :: "jstr \<Rightarrow> jstr" where
  "toolsLabel kind = (if kind = js ''http'' then js ''Test'' else js ''Tools'')"

record 'a action_spec =
  ac_action :: 'a
  ac_label :: jstr
  ac_destructive :: bool

type_synonym 'a menu = "'a action_spec list list"

datatype key_action = KPolicy | KEdit | KRotate | KRevoke | KDelete
datatype upstream_action = UConnect | UTools | UEdit | UDelete
datatype group_action = GEdit | GDelete

definition item :: "'a \<Rightarrow> jstr \<Rightarrow> 'a action_spec" where
  "item a l = \<lparr>ac_action = a, ac_label = l, ac_destructive = False\<rparr>"

definition removeItem :: "'a \<Rightarrow> 'a action_spec" where
  "removeItem a = \<lparr>ac_action = a, ac_label = js ''Delete'', ac_destructive = True\<rparr>"

definition virtualKeyActions :: "key_action menu" where
  "virtualKeyActions =
     [[item KPolicy (js ''Policy''), item KEdit (js ''Edit'')],
      [item KRotate (js ''Rotate''), item KRevoke (js ''Revoke''), removeItem KDelete]]"

definition upstreamActions :: "upstream \<Rightarrow> upstream_action menu" where
  "upstreamActions u =
     [(if u_auth_type u = js ''oauth'' then [item UConnect (connectLabel (u_oauth u))] else []) @
      [item UTools (toolsLabel (u_kind u)), item UEdit (js ''Edit'')],
      [removeItem UDelete]]"

definition groupActions :: "group_action menu" where
  "groupActions = [[item GEdit (js ''Edit'')], [removeItem GDelete]]"

text \<open>A bound item: its label, its handler, whether it is destructive.\<close>

definition bindRowActions :: "'a menu \<Rightarrow> ('a \<Rightarrow> 'h) \<Rightarrow> (jstr \<times> 'h \<times> bool) list list" where
  "bindRowActions menu run = map (map (\<lambda>s. (ac_label s, run (ac_action s), ac_destructive s))) menu"

definition rowConnectState :: "jstr \<Rightarrow> jstr option \<Rightarrow> bool \<times> jstr option" where
  "rowConnectState rowId connecting = (connecting \<noteq> None, if connecting = Some rowId then Some CONNECTING else None)"

definition actionsTriggerName :: "jstr \<Rightarrow> jstr option \<Rightarrow> jstr" where
  "actionsTriggerName name busyLabel =
     (let b = orElse busyLabel [] in if b \<noteq> [] then b @ js '' '' @ name else js ''Actions for '' @ name)"

section \<open>Connecting and disconnecting\<close>

definition connectErrorMessage :: "failure \<Rightarrow> jstr" where
  "connectErrorMessage err =
     (case err of
        ApiErr e \<Rightarrow>
          (if err_status e = 404 then js ''This upstream no longer exists. The list has been reloaded.''
           else if err_status e = 400 \<or> err_status e = 502 then err_message e
           else discoveryErrorMessage err)
      | OtherErr _ \<Rightarrow> discoveryErrorMessage err)"

datatype revoke_kind = RConnected | RClient | RUnreadable

definition revokeKind :: "jstr \<Rightarrow> jstr \<Rightarrow> bool \<Rightarrow> upstream_oauth option \<Rightarrow> revoke_kind option" where
  "revokeKind auth_type auth_status auth_configured oa =
     (if auth_type \<noteq> js ''oauth'' \<or> \<not> auth_configured then None
      else if auth_status = js ''undecryptable'' then Some RUnreadable
      else if oauthExpiry oa \<noteq> [] then Some RConnected else Some RClient)"

definition rowRevokeKind :: "upstream \<Rightarrow> revoke_kind option" where
  "rowRevokeKind u = revokeKind (u_auth_type u) (u_auth_status u) (u_auth_configured u) (u_oauth u)"

record revoke_copy =
  rc_button :: jstr
  rc_caption :: jstr
  rc_title :: jstr
  rc_confirm :: jstr

definition REVOKE_COPY :: "revoke_kind \<Rightarrow> revoke_copy" where
  "REVOKE_COPY k =
     (case k of
        RConnected \<Rightarrow> \<lparr>rc_button = js ''Disconnect'',
          rc_caption = js ''Asks the vendor to revoke the token, then removes it from PoryMCP. Calls through this upstream fail until it is connected again.'',
          rc_title = js ''Disconnect this upstream?'', rc_confirm = js ''Disconnect''\<rparr>
      | RClient \<Rightarrow> \<lparr>rc_button = js ''Remove client ID'',
          rc_caption = js ''Removes the client ID and secret stored for this upstream.'',
          rc_title = js ''Remove the stored client ID?'', rc_confirm = js ''Remove''\<rparr>
      | RUnreadable \<Rightarrow> \<lparr>rc_button = js ''Remove the stored value'',
          rc_caption = js ''Removes the value PoryMCP cannot read under the current key. The vendor is not asked to revoke anything.'',
          rc_title = js ''Remove the stored value?'', rc_confirm = js ''Remove''\<rparr>)"

definition revokeDescription :: "revoke_kind \<Rightarrow> jstr \<Rightarrow> bool \<Rightarrow> jstr" where
  "revokeDescription k name supplied =
     (case k of
        RConnected \<Rightarrow> name @ js '' stops sending a token. PoryMCP asks the vendor to revoke it, then removes it. Calls through this upstream fail until it is connected again.'' @
          (if supplied then js '' The client ID and secret you entered are removed too.'' else [])
      | RClient \<Rightarrow> name @ js '' forgets the client ID and secret you entered. Connect then uses the vendor'' @ [0x2019] @ js ''s own registration.''
      | RUnreadable \<Rightarrow> name @ js '' forgets the stored value, which PoryMCP cannot read under the current key. The vendor is not asked to revoke it, so any token in it stays valid there until it expires. Connect afterwards to sign in again.'')"

definition revokeResultLine :: "jstr \<Rightarrow> revoke_kind \<Rightarrow> jstr" where
  "revokeResultLine vendor_revocation kind =
     (if kind = RUnreadable then js ''Removed the stored value. Connect to sign in again.''
      else if kind = RClient \<or> vendor_revocation = js ''no_token'' then js ''Removed the stored client ID.''
      else if vendor_revocation = js ''revoked'' then js ''Disconnected. The vendor revoked the token.''
      else if vendor_revocation = js ''failed'' then js ''Disconnected. The vendor did not confirm the revocation. Remove PoryMCP's access in the vendor's account settings.''
      else if vendor_revocation = js ''not_offered'' then js ''Disconnected. This vendor offers no way to revoke the token, so it stays valid there until it expires.''
      else js ''Disconnected.'')"

definition authorizationURLIsWeb :: "url_parser \<Rightarrow> jstr \<Rightarrow> bool" where
  "authorizationURLIsWeb URL url =
     (case URL url of Some u \<Rightarrow> url_protocol u = js ''https:'' \<or> url_protocol u = js ''http:'' | None \<Rightarrow> False)"

section \<open>The register choices\<close>

definition REGISTER_CHOICE_KEY :: jstr where
  "REGISTER_CHOICE_KEY = js ''porymcp.oauthRegister''"

text \<open>Session storage: absent (no window), refusing every access, or holding values.\<close>

datatype storage_like = StorageAbsent | StorageRefuses | StorageHolds storage

type_synonym choices = "(jstr \<times> bool) list"

definition loadRegisterChoices :: "(jstr \<Rightarrow> jval option) \<Rightarrow> storage_like \<Rightarrow> choices" where
  "loadRegisterChoices jsonParse st =
     (case st of
        StorageHolds m \<Rightarrow>
          (let raw = orElse (m REGISTER_CHOICE_KEY) [] in
           if raw = [] then []
           else (case jsonParse raw of
                   Some (JObj ms) \<Rightarrow> fromEntries (map (\<lambda>(i, v). (i, True)) (filter (\<lambda>(i, v). v = JBool True) ms))
                 | _ \<Rightarrow> []))
      | _ \<Rightarrow> [])"

definition keptChoices :: "choices \<Rightarrow> choices" where
  "keptChoices choices = fromEntries (filter snd choices)"

definition choicesValue :: "choices \<Rightarrow> jval" where
  "choicesValue c = JObj (map (\<lambda>(i, b). (i, JBool b)) c)"

definition saveRegisterChoices :: "storage_like \<Rightarrow> choices \<Rightarrow> storage_like" where
  "saveRegisterChoices st choices =
     (case st of
        StorageHolds m \<Rightarrow> StorageHolds (m(REGISTER_CHOICE_KEY \<mapsto> orElse (stringify (choicesValue (keptChoices choices))) []))
      | other \<Rightarrow> other)"

text \<open>\<open>rememberRegister\<close>'s \<open>{ ...m, [id]: choice }\<close>.\<close>

definition setChoice :: "jstr \<Rightarrow> bool \<Rightarrow> choices \<Rightarrow> choices" where
  "setChoice i choice m = ownKeyOrder (objSet i choice m)"

section \<open>Laws\<close>

interpretation connect_sentence: sentence_mapper connectErrorMessage
  by unfold_locales
     (auto simp: connectErrorMessage_def discovery_sentence.network discovery_sentence.signed_out discovery_sentence.spoken)

lemma bound_items: "map (map fst) (bindRowActions menu run) = map (map ac_label) menu"
  by (simp add: bindRowActions_def comp_def)

lemma bound_runs: "(l, h, d) \<in> set (concat (bindRowActions menu run)) \<longleftrightarrow>
    (\<exists>s \<in> set (concat menu). l = ac_label s \<and> h = run (ac_action s) \<and> d = ac_destructive s)"
  by (auto simp: bindRowActions_def)

text \<open>Delete, and only Delete, is destructive, and it is the last item of the last section.\<close>

definition deleteLast :: "'a menu \<Rightarrow> 'a \<Rightarrow> bool" where
  "deleteLast menu del \<longleftrightarrow> menu \<noteq> [] \<and> last menu \<noteq> [] \<and> last (last menu) = removeItem del \<and>
     (\<forall>s \<in> set (concat menu). ac_destructive s \<longleftrightarrow> ac_action s = del) \<and> distinct (map ac_action (concat menu)) \<and>
     (\<forall>sec \<in> set menu. sec \<noteq> [])"

lemma menus_deleteLast:
  "deleteLast virtualKeyActions KDelete" "deleteLast (upstreamActions u) UDelete" "deleteLast groupActions GDelete"
  by (auto simp: deleteLast_def virtualKeyActions_def upstreamActions_def groupActions_def item_def removeItem_def)

lemma upstream_connect_item:
  "(\<exists>s \<in> set (concat (upstreamActions u)). ac_action s = UConnect) \<longleftrightarrow> u_auth_type u = js ''oauth''"
  by (auto simp: upstreamActions_def item_def removeItem_def)

lemma revokeKind_connected:
  "revokeKind t s c oa = Some RConnected \<Longrightarrow> oauthConnected t oa"
  by (auto simp: revokeKind_def oauthConnected_def split: if_splits)

lemma map_of_map_True: "map_of (map (\<lambda>(i, v). (i, True)) (filter (\<lambda>(i, v). v = JBool True) (map (\<lambda>(i, b). (i, JBool b)) c))) k =
    (if (k, True) \<in> set c then Some True else None)"
  by (induction c) auto

lemma map_of_rev_map_True:
  "map_of (rev (map (\<lambda>(i, v). (i, True)) (filter (\<lambda>(i, v). v = JBool True) (map (\<lambda>(i, b). (i, JBool b)) c)))) k =
    (if (k, True) \<in> set c then Some True else None)"
  using map_of_map_True [of "rev c" k] by (simp add: rev_map rev_filter)

lemma choice_kept: "(k, True) \<in> set (keptChoices c) \<longleftrightarrow> (k, True) \<in> set c"
proof -
  have all: "b" if "(k, b) \<in> set (keptChoices c)" for k b
  proof -
    have "map_of (rev (filter snd c)) k = Some b"
      using that distinct_fromEntries objGet_fromEntries [of k "filter snd c"]
      by (metis keptChoices_def map_of_eq_Some_iff objGet_def)
    then show b by (auto dest: map_of_SomeD)
  qed
  have "(\<exists>b. (k, b) \<in> set (keptChoices c)) \<longleftrightarrow> (\<exists>b. (k, b) \<in> set (filter snd c))"
    using keys_fromEntries [of "filter snd c"] by (force simp: keptChoices_def)
  with all show ?thesis by fastforce
qed

text \<open>What is loaded after a save is exactly the ticked choices.\<close>

lemma load_save:
  assumes json: "jsonParse (orElse (stringify (choicesValue (keptChoices c))) []) = Some (choicesValue (keptChoices c))"
    and nonempty: "orElse (stringify (choicesValue (keptChoices c))) [] \<noteq> []"
  shows "objGet k (loadRegisterChoices jsonParse (saveRegisterChoices (StorageHolds m) c)) = (if (k, True) \<in> set c then Some True else None)"
  using assms map_of_rev_map_True [of "keptChoices c" k]
  by (simp add: loadRegisterChoices_def saveRegisterChoices_def choicesValue_def objGet_fromEntries choice_kept)

lemma stringify_obj_nonempty: "orElse (stringify (JObj ms)) [] \<noteq> []"
  by (simp add: stringify_def bracket_def)

lemma load_without_storage:
  "loadRegisterChoices jsonParse StorageAbsent = []" "loadRegisterChoices jsonParse StorageRefuses = []"
  by (simp_all add: loadRegisterChoices_def)

section \<open>Properties\<close>

text \<open>
  The register choices written to storage are read back as yes for exactly the upstreams whose
  choice was yes, given that JSON.parse reads back what JSON.stringify wrote for them.
\<close>

theorem register_choices_survive_a_reload:
  assumes "jsonParse (orElse (stringify (choicesValue (keptChoices c))) []) = Some (choicesValue (keptChoices c))"
  shows "objGet k (loadRegisterChoices jsonParse (saveRegisterChoices (StorageHolds m) c)) = (if (k, True) \<in> set c then Some True else None)"
proof (rule load_save, rule assms)
  show "orElse (stringify (choicesValue (keptChoices c))) [] \<noteq> []" unfolding choicesValue_def by (rule stringify_obj_nonempty)
qed

theorem register_choices_survive_a_reload_witness:
  "objGet (js ''a'') (loadRegisterChoices (\<lambda>_. Some (choicesValue (keptChoices [(js ''a'', True), (js ''b'', False)])))
     (saveRegisterChoices (StorageHolds Map.empty) [(js ''a'', True), (js ''b'', False)])) = Some True"
  using register_choices_survive_a_reload [where k = "js ''a''" and c = "[(js ''a'', True), (js ''b'', False)]" and m = Map.empty
      and jsonParse = "\<lambda>_. Some (choicesValue (keptChoices [(js ''a'', True), (js ''b'', False)]))"] by simp

end
