(* ===== verification/Views.thy ===== *)
theory Views
  imports RowMenus
begin

text \<open>
  What the pages draw with: buttons, alerts, selects, and the Actions menu of a table row,
  \<open>web/src/app/row-actions.tsx\<close>.

  A menu is the value the component draws: its trigger and the items, with a divider between two
  sections. The component reads the first item of every section for its key, so an empty section is an
  error and gives \<open>None\<close>. The locale \<open>row_menu\<close> is what a page promises of the menu it binds: no section
  is empty, no label occurs twice, a press is a step of the page, and the destructive item asks first.
\<close>

section \<open>Controls\<close>

record button_view =
  bt_label :: jstr
  bt_disabled :: bool

record alert_view =
  av_title :: jstr
  av_text :: jstr
  av_error :: "jstr option"
  av_confirm :: button_view

record form_select =
  fs_name :: jstr
  fs_value :: jstr
  fs_options :: "(jstr \<times> jstr) list"
  fs_notes :: "jstr list"

text \<open>A native select shows its value only when an option carries it.\<close>

definition offers :: "form_select \<Rightarrow> bool" where
  "offers sel \<longleftrightarrow> fs_value sel \<in> fst ` set (fs_options sel)"

section \<open>The Actions menu\<close>

datatype 'h menu_entry = MenuDivider | MenuItem jstr 'h bool

record 'h actions_view =
  act_name :: jstr
  act_busy :: "jstr option"
  act_disabled :: bool
  act_entries :: "'h menu_entry list"

fun menuEntries :: "nat \<Rightarrow> (jstr \<times> 'h \<times> bool) list list \<Rightarrow> 'h menu_entry list" where
  "menuEntries i [] = []"
| "menuEntries i (sec # secs) =
     (if i > 0 then [MenuDivider] else []) @ map (\<lambda>(l, h, d). MenuItem l h d) sec @ menuEntries (Suc i) secs"

definition rowActions :: "jstr \<Rightarrow> (jstr \<times> 'h \<times> bool) list list \<Rightarrow> bool \<Rightarrow> jstr option \<Rightarrow> 'h actions_view option" where
  "rowActions name sections disabled busyLabel =
     (if list_ex (\<lambda>sec. sec = []) sections then None
      else Some \<lparr>act_name = actionsTriggerName name busyLabel,
        act_busy = (case busyLabel of Some b \<Rightarrow> if b \<noteq> [] then Some b else None | None \<Rightarrow> None),
        act_disabled = disabled, act_entries = menuEntries 0 sections\<rparr>)"

lemma menuEntries_items: "MenuItem l h d \<in> set (menuEntries i secs) \<longleftrightarrow> (l, h, d) \<in> set (concat secs)"
  by (induction i secs rule: menuEntries.induct) (auto intro: rev_image_eqI)

lemma menuEntries_dividers: "length (filter (\<lambda>e. e = MenuDivider) (menuEntries i secs)) = (if i > 0 then length secs else length secs - 1)"
proof (induction i secs rule: menuEntries.induct)
  case (2 i sec secs)
  have "filter (\<lambda>e. e = MenuDivider) (map (\<lambda>(l, h, d). MenuItem l h d) sec) = []" by (auto simp: filter_empty_conv)
  with 2 show ?case by simp
qed simp

locale row_menu =
  fixes sections :: "'r \<Rightarrow> (jstr \<times> ('s \<Rightarrow> 's) \<times> bool) list list"
    and rows :: "'s \<Rightarrow> 'r list"
    and free :: "'s \<Rightarrow> bool"
    and step :: "'s \<Rightarrow> 's \<Rightarrow> bool"
    and sent :: "'s \<Rightarrow> 'q list"
  assumes filled_sections: "sec \<in> set (sections r) \<Longrightarrow> sec \<noteq> []"
    and labels_once: "distinct (map fst (concat (sections r)))"
    and press_steps: "free s \<Longrightarrow> r \<in> set (rows s) \<Longrightarrow> (l, h, d) \<in> set (concat (sections r)) \<Longrightarrow> step s (h s)"
    and delete_asks: "(l, h, True) \<in> set (concat (sections r)) \<Longrightarrow> sent (h s) = sent s"
begin

lemma menu_renders: "\<exists>v. rowActions name (sections r) disabled busy = Some v"
  using filled_sections [of _ r] by (auto simp: rowActions_def list_ex_iff)

lemma menu_press:
  assumes "rowActions name (sections r) disabled busy = Some v" "MenuItem l h d \<in> set (act_entries v)" "free s" "r \<in> set (rows s)"
  shows "step s (h s)"
  using assms press_steps by (auto simp: rowActions_def menuEntries_items split: if_splits)

lemma menu_asks:
  assumes "rowActions name (sections r) disabled busy = Some v" "MenuItem l h True \<in> set (act_entries v)"
  shows "sent (h s) = sent s"
  using assms delete_asks by (auto simp: rowActions_def menuEntries_items split: if_splits)

text \<open>A label names one handler.\<close>

lemma menu_label:
  assumes "rowActions name (sections r) disabled busy = Some v" "MenuItem l h d \<in> set (act_entries v)" "MenuItem l h' d' \<in> set (act_entries v)"
  shows "h = h' \<and> d = d'"
proof -
  have "(l, h, d) \<in> set (concat (sections r))" "(l, h', d') \<in> set (concat (sections r))"
    using assms by (auto simp: rowActions_def menuEntries_items split: if_splits)
  with labels_once [of r] show ?thesis by (metis (mono_tags, lifting) Pair_inject eq_key_imp_eq_value)
qed

end

end
