(* ===== verification/LogRows.thy ===== *)
theory LogRows
  imports LogsPage Views
begin

text \<open>
  What the Logs page draws: the filter controls, the table of calls and the detail dialog of
  \<open>web/src/app/(app)/logs/page.tsx\<close>, \<open>load-more.tsx\<close>, and the Admin activity section of \<open>admin-events.tsx\<close> with
  its own paging.

  Rows arrive as JSON and the code reads them as \<open>AuditLog\<close> and \<open>AdminEvent\<close>; the records here are those
  types. \<open>localTime\<close> is \<open>new Date(t).toLocaleString()\<close> and \<open>timeZone\<close> the browser's zone name. The lemmas show
  that every select offers what it shows, that the admin rows counted are the pages of the resource type
  selected, and that the status line and the button under a table agree with the rows.
\<close>

section \<open>Calls\<close>

record audit_log =
  al_id :: jstr
  al_timestamp :: jstr
  al_virtual_key_id :: jstr
  al_virtual_key_name :: jstr
  al_method :: jstr
  al_tool_name :: "jstr option"
  al_params :: "jval option"
  al_status :: jstr
  al_latency_ms :: int
  al_upstream_id :: "jstr option"
  al_error_message :: "jstr option"
  al_request_id :: jstr

definition callColour :: "jstr \<Rightarrow> jstr" where
  "callColour st = (if st = js ''success'' then js ''lime'' else if st = js ''blocked'' then js ''amber'' else js ''pink'')"

record log_row =
  lr_time :: jstr
  lr_key :: jstr
  lr_method :: jstr
  lr_tool :: jstr
  lr_status :: "jstr \<times> jstr"
  lr_latency :: jstr

definition logRow :: "(jstr \<Rightarrow> jstr) \<Rightarrow> audit_log \<Rightarrow> log_row" where
  "logRow localTime l =
     \<lparr>lr_time = localTime (al_timestamp l), lr_key = al_virtual_key_name l, lr_method = al_method l,
      lr_tool = orStr (orElse (al_tool_name l) []) ABSENT, lr_status = (al_status l, callColour (al_status l)),
      lr_latency = showInt (al_latency_ms l) @ js '' ms''\<rparr>"

section \<open>The detail dialog\<close>

definition NOT_LISTED :: jstr where
  "NOT_LISTED = js ''Not in the upstream list.''"

text \<open>The parts of the Upstream value, in order.\<close>

definition upstreamValue :: "upstream_cell \<Rightarrow> jstr list" where
  "upstreamValue cell = (case cell of
     AbsentCell \<Rightarrow> [ABSENT] | LoadingCell \<Rightarrow> [LOADING] | NameCell n s \<Rightarrow> [n, s] | IdCell i \<Rightarrow> [i, NOT_LISTED])"

record log_detail =
  ld_request :: jstr
  ld_upstream :: "jstr list"
  ld_method :: jstr
  ld_tool :: jstr
  ld_error :: "jstr option"
  ld_params :: jstr

definition logDetail :: "(jstr \<rightharpoonup> jstr \<times> jstr) option \<Rightarrow> bool \<Rightarrow> audit_log \<Rightarrow> log_detail" where
  "logDetail names failed l =
     \<lparr>ld_request = al_request_id l, ld_upstream = upstreamValue (upstreamCell (al_upstream_id l) names failed), ld_method = al_method l,
      ld_tool = orStr (orElse (al_tool_name l) []) ABSENT,
      ld_error = (case al_error_message l of Some m \<Rightarrow> if m \<noteq> [] then Some m else None | None \<Rightarrow> None),
      ld_params = stringify2 (case al_params l of None \<Rightarrow> JObj [] | Some JNull \<Rightarrow> JObj [] | Some JUndefined \<Rightarrow> JObj [] | Some v \<Rightarrow> v)\<rparr>"

section \<open>Controls\<close>

definition FACET_CUT :: jstr where
  "FACET_CUT = js ''The 200 most frequent are listed. The API accepts any exact value.''"

definition cutNote :: "bool \<Rightarrow> jstr list" where
  "cutNote isCut = (if isCut then [FACET_CUT] else [])"

definition keySelect :: "lp_state \<Rightarrow> form_select" where
  "keySelect s = \<lparr>fs_name = js ''virtual_key_id'', fs_value = lg_virtual_key_id (lp_filters s),
     fs_options = ([], js ''All virtual keys'') # map (\<lambda>k. (vk_id k, vk_name k)) (lp_keys s), fs_notes = []\<rparr>"

definition shownFacets :: "lp_state \<Rightarrow> log_facets option" where
  "shownFacets s = fst (facetsFor (fh_answer (lp_facets s)) (fh_fq (lp_facets s)))"

definition methodSelect :: "lp_state \<Rightarrow> form_select" where
  "methodSelect s = \<lparr>fs_name = js ''method'', fs_value = lg_method (lp_filters s), fs_options = methodOptions (shownFacets s) (lg_method (lp_filters s)),
     fs_notes = cutNote (facetCut (shownFacets s) lf_methods)\<rparr>"

definition toolSelect :: "lp_state \<Rightarrow> form_select" where
  "toolSelect s = (let f = lp_filters s in
     \<lparr>fs_name = js ''tool'', fs_value = toolChoice (lg_tool f) (lg_noTool f), fs_options = toolOptions (shownFacets s) (lg_tool f) (lg_noTool f),
      fs_notes = cutNote (facetCut (shownFacets s) lf_tools)\<rparr>)"

definition statusSelect :: "lp_state \<Rightarrow> form_select" where
  "statusSelect s = \<lparr>fs_name = js ''status'', fs_value = lg_status (lp_filters s), fs_options = statusOptions (shownFacets s), fs_notes = []\<rparr>"

definition zoneSentence :: "jstr \<Rightarrow> log_filters \<Rightarrow> jstr" where
  "zoneSentence timeZone f = (if lg_period f = CustomPeriod then js ''Times are in '' @ timeZone @ js ''. Both ends are included.'' else [])"

record time_box =
  tb_value :: jstr
  tb_invalid :: bool
  tb_problem :: "jstr option"
  tb_zone :: jstr

text \<open>The Since and Until boxes are drawn for the Custom period only.\<close>

definition timeBoxes :: "zone \<Rightarrow> jstr \<Rightarrow> log_filters \<Rightarrow> (time_box \<times> time_box) option" where
  "timeBoxes z timeZone f =
     (if lg_period f = CustomPeriod
      then (let (since, until) = customProblems z f; line = zoneSentence timeZone f in
        Some (\<lparr>tb_value = lg_since f, tb_invalid = (orElse since [] \<noteq> []), tb_problem = since, tb_zone = line\<rparr>,
              \<lparr>tb_value = lg_until f, tb_invalid = (orElse until [] \<noteq> []), tb_problem = until, tb_zone = line\<rparr>))
      else None)"

section \<open>Under a table\<close>

definition LOAD_MORE_CALLS :: jstr where "LOAD_MORE_CALLS = js ''Load more calls''"
definition LOAD_MORE_CHANGES :: jstr where "LOAD_MORE_CHANGES = js ''Load more changes''"

record more_view =
  mv_status :: jstr
  mv_error :: "jstr option"
  mv_button :: "(jstr \<times> bool) option"

definition loadMoreView :: "jstr \<Rightarrow> count_noun \<Rightarrow> jstr \<Rightarrow> cp_state \<Rightarrow> more_view" where
  "loadMoreView press noun emptyCopy p =
     \<lparr>mv_status = statusText noun emptyCopy p, mv_error = (if cp_moreError p \<noteq> [] then Some (cp_moreError p) else None),
      mv_button = moreButton press p\<rparr>"

section \<open>Admin activity\<close>

record aa_state =
  aa_resource :: jstr
  aa_pages :: cp_state

definition RESOURCES :: "(jstr \<times> jstr) list" where
  "RESOURCES = [([], js ''All resources''), (js ''upstream'', js ''Upstreams''), (js ''group'', js ''Groups''), (js ''virtual_key'', js ''Virtual keys'')]"

definition aaMount :: aa_state where
  "aaMount = \<lparr>aa_resource = [], aa_pages = newQuery (Some (adminQuery [])) cpBlank\<rparr>"

definition pickResource :: "jstr \<Rightarrow> aa_state \<Rightarrow> aa_state" where
  "pickResource r s = s\<lparr>aa_resource := r, aa_pages := renderPages (Some (adminQuery r)) (aa_pages s)\<rparr>"

record admin_row =
  adr_time :: jstr
  adr_event :: jstr
  adr_details :: jstr
  adr_from :: jstr

definition adminRow :: "(jstr \<Rightarrow> jstr) \<Rightarrow> admin_event \<Rightarrow> admin_row" where
  "adminRow localTime e = \<lparr>adr_time = localTime (ae_timestamp e), adr_event = eventSentence e, adr_details = orStr (changedText e) ABSENT,
     adr_from = fromText (ae_actor e) (ae_remote_addr e)\<rparr>"

record admin_view =
  adv_error :: "jstr option"
  adv_resource :: form_select
  adv_rows :: "jval list"
  adv_more :: more_view

definition adminView :: "aa_state \<Rightarrow> admin_view" where
  "adminView s =
     \<lparr>adv_error = (if cp_error (aa_pages s) \<noteq> [] then Some (cp_error (aa_pages s)) else None),
      adv_resource = \<lparr>fs_name = js ''resource_type'', fs_value = aa_resource s, fs_options = RESOURCES, fs_notes = []\<rparr>,
      adv_rows = pg_rows (cp_pages (aa_pages s)),
      adv_more = loadMoreView LOAD_MORE_CHANGES ChangeNoun (adminEmpty (aa_resource s)) (aa_pages s)\<rparr>"

text \<open>A native select hands over the value of one of its options.\<close>

inductive aa_reach :: "aa_state \<Rightarrow> bool" where
  aa_mounted: "aa_reach aaMount"
| aa_picked: "aa_reach s \<Longrightarrow> r \<in> fst ` set RESOURCES \<Longrightarrow> aa_reach (pickResource r s)"
| aa_more: "aa_reach s \<Longrightarrow> aa_reach (s\<lparr>aa_pages := loadMore (aa_pages s)\<rparr>)"
| aa_answered: "aa_reach s \<Longrightarrow> i < length (cp_pending (aa_pages s)) \<Longrightarrow> aa_reach (s\<lparr>aa_pages := settleReq AdminEventsPath i ans (aa_pages s)\<rparr>)"

section \<open>Laws\<close>

lemma selects_offer:
  "offers (methodSelect s)" "offers (toolSelect s)" "lg_status (lp_filters s) = [] \<or> lg_status (lp_filters s) \<in> fst ` set STATUSES \<Longrightarrow> offers (statusSelect s)"
  using method_offered [of "lg_method (lp_filters s)" "shownFacets s"] toolChoice_offered [of "lg_tool (lp_filters s)" "lg_noTool (lp_filters s)" "shownFacets s"]
  by (auto simp: offers_def methodSelect_def toolSelect_def statusSelect_def statusOptions_def image_image Let_def)

lemma callColour_known: "callColour st = js ''pink'' \<longleftrightarrow> st \<noteq> js ''success'' \<and> st \<noteq> js ''blocked''"
  by (simp add: callColour_def)

text \<open>What is under a table is drawn from what the hook returns and nothing else of its state.\<close>

lemma more_view_of_the_hook: "cursorPages p = cursorPages q \<Longrightarrow> loadMoreView press noun emptyCopy p = loadMoreView press noun emptyCopy q"
  by (simp add: cursorPages_def loadMoreView_def statusText_def moreButton_def endOf_def)

text \<open>The button is there exactly while another page waits, and never under the empty copy.\<close>

lemma button_or_empty:
  assumes "cp_reach path p"
  shows "mv_button (loadMoreView press noun emptyCopy p) \<noteq> None \<longleftrightarrow> endOf p = Some MoreEnd"
    and "mv_button (loadMoreView press noun emptyCopy p) \<noteq> None \<Longrightarrow> cp_next p \<noteq> None"
proof -
  show b: "mv_button (loadMoreView press noun emptyCopy p) \<noteq> None \<longleftrightarrow> endOf p = Some MoreEnd"
    by (simp add: loadMoreView_def moreButton_def)
  assume "mv_button (loadMoreView press noun emptyCopy p) \<noteq> None"
  then have e: "exposedEnd (cp_pages p) (cp_query p) = Some MoreEnd" using b by (simp add: endOf_def)
  have inv: "cp_inv path p" by (rule cp_reach_inv [OF assms])
  from e have "pg_query (cp_pages p) \<noteq> None" "pg_end (cp_pages p) = MoreEnd" by (cases "cp_query p"; auto simp: exposedEnd_def split: if_splits)+
  then have "pg_cursor (cp_pages p) \<noteq> []" using cp_invD(1) [OF inv] by (auto simp: pages_ok_def pages_good_def split: option.splits)
  then show "cp_next p \<noteq> None" using cp_invD(3) [OF inv] e by (auto simp: nextRequest_def exposedEnd_def split: option.splits if_splits)
qed

section \<open>Admin rows belong to the resource type\<close>

definition aa_inv :: "aa_state \<Rightarrow> bool" where
  "aa_inv s \<longleftrightarrow> cp_reach AdminEventsPath (aa_pages s) \<and> cp_query (aa_pages s) = Some (adminQuery (aa_resource s)) \<and>
     aa_resource s \<in> fst ` set RESOURCES"

lemma query_kept: "cp_query (loadMore p) = cp_query p" "cp_query (settleReq path i ans p) = cp_query p"
  by (auto simp: loadMore_def settleReq_def answerReq_def answerFirst_def answerMore_def Let_def split: option.splits page_request.splits sum.splits)

lemma aa_reach_inv: "aa_reach s \<Longrightarrow> aa_inv s"
proof (induction rule: aa_reach.induct)
  case aa_mounted show ?case by (simp add: aa_inv_def aaMount_def cp_reach.mounted newQuery_sel RESOURCES_def)
next
  case (aa_picked s r) then show ?case using renderPages_ok [of AdminEventsPath "aa_pages s"] by (simp add: aa_inv_def pickResource_def)
next
  case (aa_more s) then show ?case using cp_reach.moved [OF _ cp_step.press_more] by (auto simp: aa_inv_def query_kept)
next
  case (aa_answered s i ans) then show ?case using cp_reach.moved [OF _ cp_step.answered] by (auto simp: aa_inv_def query_kept)
qed

section \<open>Properties\<close>

text \<open>
  In every reachable state of the Admin activity section, rows counted as an answer are those of a
  walk of the query the selected resource type makes, and the select offers that type.
\<close>

theorem admin_rows_belong_to_the_resource:
  assumes "aa_reach s" "answered (aa_pages s)"
  shows "walk (adminQuery (aa_resource s)) (cp_trace (aa_pages s)) \<and> adv_rows (adminView s) = traceRows AdminEventsPath (cp_trace (aa_pages s)) \<and>
     offers (adv_resource (adminView s))"
proof -
  have inv: "aa_inv s" by (rule aa_reach_inv [OF assms(1)])
  then have c: "cp_inv AdminEventsPath (aa_pages s)" by (simp add: aa_inv_def cp_reach_inv)
  obtain q where "cp_query (aa_pages s) = Some q" "walk q (cp_trace (aa_pages s))" "pg_rows (cp_pages (aa_pages s)) = traceRows AdminEventsPath (cp_trace (aa_pages s))"
    using exposed_rows [OF c] assms(2) by (auto simp: answered_def endOf_def)
  with inv show ?thesis by (simp add: aa_inv_def adminView_def offers_def)
qed

theorem admin_rows_belong_to_the_resource_witness:
  "\<exists>s :: aa_state. answered (aa_pages s) \<and> adv_rows (adminView s) = [JNull]"
proof -
  let ?s = "aaMount\<lparr>aa_pages := settleReq AdminEventsPath 0 (Inr [(js ''admin_events'', JArr [JNull])]) (aa_pages aaMount)\<rparr>"
  have "aa_reach ?s" by (rule aa_reach.aa_answered [OF aa_reach.aa_mounted]) (simp add: aaMount_def newQuery_def Let_def)
  moreover have "answered (aa_pages ?s)" "traceRows AdminEventsPath (cp_trace (aa_pages ?s)) = [JNull]" by code_simp+
  ultimately show ?thesis using admin_rows_belong_to_the_resource by (intro exI [of _ ?s]) metis
qed

end
