(* ===== verification/Overview.thy ===== *)
theory Overview
  imports LogRows Complex_Main
begin

text \<open>
  The Overview page: \<open>web/src/app/(app)/page.tsx\<close> with \<open>app/stat.tsx\<close>.

  The page asks for the stats and the last eight calls together (\<open>Promise.all\<close>): both answers show, or the
  first failure does. A rate is a rational number; \<open>Math.round\<close> takes the nearest integer, halves up. The
  lemmas show that numbers and rows appear together or not at all, that the message is the first
  failure's, when a notice about credentials is drawn and which, and that a rate reads between 0% and 100%.
\<close>

section \<open>Numbers\<close>

record stats =
  st_active_virtual_keys :: nat
  st_total_virtual_keys :: nat
  st_upstreams :: nat
  st_groups :: nat
  st_calls_today :: nat
  st_errors_today :: nat
  st_error_rate :: rat
  st_calls_last_7_days :: nat
  st_blocked_today :: nat
  st_undecryptable_upstreams :: "nat option"
  st_unreadable_upstreams :: nat
  st_upstreams_under_previous_key :: "nat option"

definition formatRate :: "rat \<Rightarrow> jstr" where
  "formatRate n = showInt \<lfloor>n * 100 + 1 / 2\<rfloor> @ js ''%''"

record stat_view =
  sw_title :: jstr
  sw_value :: jstr
  sw_hint :: "jstr option"

definition statCards :: "stats option \<Rightarrow> stat_view list" where
  "statCards s =
     (let num = (\<lambda>sel. case s of Some x \<Rightarrow> showNat (sel x) | None \<Rightarrow> LOADING) in
      [\<lparr>sw_title = js ''Active virtual keys'', sw_value = num st_active_virtual_keys, sw_hint = Some (js ''Not revoked or expired'')\<rparr>,
       \<lparr>sw_title = js ''Calls today'', sw_value = num st_calls_today, sw_hint = Some (js ''Last 24 hours'')\<rparr>,
       \<lparr>sw_title = js ''Upstreams'', sw_value = num st_upstreams, sw_hint = Some (js ''Registered MCP servers and HTTP APIs'')\<rparr>,
       \<lparr>sw_title = js ''Error rate'', sw_value = (case s of Some x \<Rightarrow> formatRate (st_error_rate x) | None \<Rightarrow> LOADING),
        sw_hint = map_option (\<lambda>x. showNat (st_errors_today x) @ js '' errors today'') s\<rparr>])"

section \<open>The credential notice\<close>

text \<open>A count may be absent from an older server's answer; \<open>undefined > 0\<close> is false, as for nought.\<close>

datatype notice = BadKeyNotice jstr jstr | RotationNotice jstr

definition credentialNotice :: "stats \<Rightarrow> notice option" where
  "credentialNotice s =
     (let bad = orElse (st_undecryptable_upstreams s) 0; pending = orElse (st_upstreams_under_previous_key s) 0 in
      if \<not> bad > 0 \<and> \<not> pending > 0 then None
      else if bad > 0 then Some (BadKeyNotice
        ((if bad = 1 then js ''One upstream credential'' else showNat bad @ js '' upstream credentials'') @ js '' cannot be read with the current ENCRYPTION_KEY.'')
        (js ''PoryMCP refuses to call '' @ (if bad = 1 then js ''that upstream'' else js ''those upstreams'') @
         js ''. Restore the previous key, or set ENCRYPTION_KEY_PREVIOUS to it, restart, run porymcp rekey, then restart without it. If the key is gone for good, re-enter each credential. See docs/07-security.md.''))
      else Some (RotationNotice
        (js ''Key rotation in progress: '' @ (if pending = 1 then js ''one credential still uses'' else showNat pending @ js '' credentials still use'') @ js '' a previous key.'')))"

section \<open>The page\<close>

record ov_state =
  ov_stats :: "stats option"
  ov_logs :: "audit_log list"
  ov_error :: jstr
  ov_statsAns :: "(failure + stats) option"
  ov_logsAns :: "(failure + audit_log list) option"
  ov_settled :: bool

definition ovMount :: ov_state where
  "ovMount = \<lparr>ov_stats = None, ov_logs = [], ov_error = [], ov_statsAns = None, ov_logsAns = None, ov_settled = False\<rparr>"

definition ovRequests :: "(jstr \<times> request_init) list" where
  "ovRequests = [(js ''/stats'', getInit), (js ''/logs?limit=8'', getInit)]"

definition errMessage :: "failure \<Rightarrow> jstr" where
  "errMessage err = (case err of ApiErr e \<Rightarrow> err_message e | OtherErr t \<Rightarrow> t)"

text \<open>\<open>Promise.all\<close>: rejected by the first rejection, fulfilled once both are.\<close>

definition ovFailed :: "failure \<Rightarrow> ov_state \<Rightarrow> ov_state" where
  "ovFailed err s = (if ov_settled s then s else s\<lparr>ov_error := errMessage err, ov_settled := True\<rparr>)"

definition ovBoth :: "ov_state \<Rightarrow> ov_state" where
  "ovBoth s = (case (ov_statsAns s, ov_logsAns s) of
     (Some (Inr st), Some (Inr ls)) \<Rightarrow> if ov_settled s then s else s\<lparr>ov_stats := Some st, ov_logs := ls, ov_settled := True\<rparr>
   | _ \<Rightarrow> s)"

definition statsAnswer :: "failure + stats \<Rightarrow> ov_state \<Rightarrow> ov_state" where
  "statsAnswer ans s = (let s1 = s\<lparr>ov_statsAns := Some ans\<rparr> in case ans of Inl err \<Rightarrow> ovFailed err s1 | Inr _ \<Rightarrow> ovBoth s1)"

definition logsAnswer :: "failure + audit_log list \<Rightarrow> ov_state \<Rightarrow> ov_state" where
  "logsAnswer ans s = (let s1 = s\<lparr>ov_logsAns := Some ans\<rparr> in case ans of Inl err \<Rightarrow> ovFailed err s1 | Inr _ \<Rightarrow> ovBoth s1)"

record recent_row =
  rcr_time :: jstr
  rcr_key :: jstr
  rcr_method :: jstr
  rcr_status :: "jstr \<times> jstr"
  rcr_latency :: jstr

definition recentRow :: "(jstr \<Rightarrow> jstr) \<Rightarrow> audit_log \<Rightarrow> recent_row" where
  "recentRow localTime l =
     \<lparr>rcr_time = localTime (al_timestamp l), rcr_key = al_virtual_key_name l, rcr_method = orStr (orElse (al_tool_name l) []) (al_method l),
      rcr_status = (al_status l, callColour (al_status l)), rcr_latency = showInt (al_latency_ms l) @ js '' ms''\<rparr>"

record overview =
  ow_error :: "jstr option"
  ow_notice :: "notice option"
  ow_cards :: "stat_view list"
  ow_recent :: "jstr + recent_row list"

definition overviewPage :: "(jstr \<Rightarrow> jstr) \<Rightarrow> ov_state \<Rightarrow> overview" where
  "overviewPage localTime s =
     \<lparr>ow_error = (if ov_error s \<noteq> [] then Some (ov_error s) else None), ow_notice = Option.bind (ov_stats s) credentialNotice, ow_cards = statCards (ov_stats s),
      ow_recent = (if length (ov_logs s) = 0 then Inl (js ''No proxy traffic yet. Create a virtual key and point a client at its proxy URL.'')
                   else Inr (map (recentRow localTime) (ov_logs s)))\<rparr>"

inductive ov_reach :: "ov_state \<Rightarrow> bool" where
  ov_mounted: "ov_reach ovMount"
| ov_stats_in: "ov_reach s \<Longrightarrow> ov_statsAns s = None \<Longrightarrow> ov_reach (statsAnswer ans s)"
| ov_logs_in: "ov_reach s \<Longrightarrow> ov_logsAns s = None \<Longrightarrow> ov_reach (logsAnswer ans s)"

section \<open>Laws\<close>

definition ov_inv :: "ov_state \<Rightarrow> bool" where
  "ov_inv s \<longleftrightarrow>
     (if ov_stats s = None then ov_logs s = [] else
        ov_error s = [] \<and> ov_settled s \<and> ov_statsAns s = Some (Inr (the (ov_stats s))) \<and> ov_logsAns s = Some (Inr (ov_logs s))) \<and>
     (ov_settled s \<longleftrightarrow> ov_stats s \<noteq> None \<or> (\<exists>err. ov_statsAns s = Some (Inl err)) \<or> (\<exists>err. ov_logsAns s = Some (Inl err))) \<and>
     (ov_settled s \<and> ov_stats s = None \<longrightarrow>
        (\<exists>err. (ov_statsAns s = Some (Inl err) \<or> ov_logsAns s = Some (Inl err)) \<and> ov_error s = errMessage err)) \<and>
     (\<not> ov_settled s \<longrightarrow> ov_error s = [] \<and> (ov_statsAns s = None \<or> ov_logsAns s = None))"

lemma ov_reach_inv: "ov_reach s \<Longrightarrow> ov_inv s"
proof (induction rule: ov_reach.induct)
  case ov_mounted show ?case by (simp add: ov_inv_def ovMount_def)
next
  case (ov_stats_in s ans) then show ?case
    by (cases ans) (auto simp: ov_inv_def statsAnswer_def ovFailed_def ovBoth_def Let_def split: option.splits sum.splits if_splits)
next
  case (ov_logs_in s ans) then show ?case
    by (cases ans) (auto simp: ov_inv_def logsAnswer_def ovFailed_def ovBoth_def Let_def split: option.splits sum.splits if_splits)
qed

lemma notice_worse_first:
  "credentialNotice s = None \<longleftrightarrow> orElse (st_undecryptable_upstreams s) 0 = 0 \<and> orElse (st_upstreams_under_previous_key s) 0 = 0"
  "(\<exists>a b. credentialNotice s = Some (BadKeyNotice a b)) \<longleftrightarrow> orElse (st_undecryptable_upstreams s) 0 > 0"
  by (auto simp: credentialNotice_def Let_def)

lemma no_notice_while_loading: "ov_stats s = None \<Longrightarrow> ow_notice (overviewPage lt s) = None"
  by (simp add: overviewPage_def)

text \<open>A rate between nought and one reads as a whole per cent between 0 and 100, within half a per cent of it.\<close>

lemma rate_bounds:
  assumes "0 \<le> n" "n \<le> 1"
  obtains p where "formatRate n = showInt p @ js ''%''" "0 \<le> p" "p \<le> 100" "\<bar>of_int p - n * 100\<bar> \<le> 1 / 2"
proof -
  let ?p = "\<lfloor>n * 100 + 1 / 2\<rfloor>"
  have "0 \<le> ?p" using assms(1) by (simp add: zero_le_floor)
  moreover have "?p < 101" using assms(2) by (simp add: floor_less_iff)
  moreover have "of_int ?p \<le> n * 100 + 1 / 2" "n * 100 + 1 / 2 < of_int ?p + 1" using floor_correct [of "n * 100 + 1 / 2"] by auto
  then have "\<bar>of_int ?p - n * 100\<bar> \<le> 1 / 2" unfolding abs_le_iff by linarith
  ultimately show ?thesis using that [of ?p] by (simp add: formatRate_def)
qed

section \<open>Properties\<close>

text \<open>
  The Overview shows the numbers and the calls of one load together or neither; once a request
  failed it shows the message of a failure and no numbers, and with both answered it shows one or
  the other.
\<close>

theorem overview_all_or_nothing:
  assumes "ov_reach s"
  shows "(case ov_stats s of
       Some st \<Rightarrow> ov_statsAns s = Some (Inr st) \<and> ov_logsAns s = Some (Inr (ov_logs s)) \<and> ow_error (overviewPage lt s) = None
     | None \<Rightarrow> ov_logs s = []) \<and>
     ((\<exists>err. ov_statsAns s = Some (Inl err) \<or> ov_logsAns s = Some (Inl err)) \<longrightarrow>
       ov_stats s = None \<and> (\<exists>err. (ov_statsAns s = Some (Inl err) \<or> ov_logsAns s = Some (Inl err)) \<and> ov_error s = errMessage err)) \<and>
     (ov_statsAns s \<noteq> None \<and> ov_logsAns s \<noteq> None \<longrightarrow> ov_settled s)"
  using ov_reach_inv [OF assms] unfolding ov_inv_def by (auto simp: overviewPage_def split: option.splits if_splits)

theorem overview_all_or_nothing_witness:
  "\<exists>s :: ov_state. ov_error s = js ''down'' \<and> ov_stats s = None"
proof -
  let ?s = "logsAnswer (Inl (OtherErr (js ''down''))) ovMount"
  have r: "ov_reach ?s" by (rule ov_reach.ov_logs_in [OF ov_reach.ov_mounted]) (simp add: ovMount_def)
  have a: "ov_statsAns ?s = None" "ov_logsAns ?s = Some (Inl (OtherErr (js ''down'')))" by (simp_all add: logsAnswer_def ovFailed_def ovMount_def Let_def)
  then have "ov_stats ?s = None" "\<exists>err. (ov_statsAns ?s = Some (Inl err) \<or> ov_logsAns ?s = Some (Inl err)) \<and> ov_error ?s = errMessage err"
    using overview_all_or_nothing [OF r] by blast+
  with a show ?thesis by (intro exI [of _ ?s]) (auto simp: errMessage_def)
qed

text \<open>
  An error rate between 0 and 1 reads as a whole per cent between 0 and 100 and within half a per
  cent of the rate.
\<close>

theorem rate_reads_as_per_cent:
  assumes "0 \<le> n" "n \<le> 1"
  shows "\<exists>p. formatRate n = showInt p @ js ''%'' \<and> 0 \<le> p \<and> p \<le> 100 \<and> \<bar>of_int p - n * 100\<bar> \<le> 1 / 2"
  using rate_bounds [OF assms] by metis

theorem rate_reads_as_per_cent_witness:
  "\<exists>p. formatRate (1 / 8) = showInt p @ js ''%'' \<and> 0 \<le> p \<and> p \<le> 100"
  using rate_reads_as_per_cent [of "1 / 8"] by auto

end
