(* ===== verification/UpstreamsPage.thy ===== *)
theory UpstreamsPage
  imports RowMenus
begin

text \<open>
  The Upstreams page's state and handlers: \<open>web/src/app/(app)/upstreams/page.tsx\<close>.

  The page is a state machine. Its state is the \<open>useState\<close> values and the refs; a handler runs to
  its first \<open>await\<close> and leaves a task behind, the continuation of that request, which the
  environment settles with an answer in any order. Tasks carry what the closure captured: the
  count of the discovery or dialog they started under, the row they are about.

  Three ghost fields are read by no handler: \<open>up_asked\<close>, the form the newest discovery was sent
  for, \<open>up_sent\<close>, the requests sent, and \<open>up_visited\<close>, the addresses the tab was sent to.

  The invariant: the discovery panel describes the connection the form holds, one sign-in is in
  flight at most, and a save never sends an empty body.
\<close>

section \<open>State\<close>

record discovery_state =
  ds_result :: "discovery option"
  ds_pending :: bool
  ds_error :: jstr

definition IDLE :: discovery_state where
  "IDLE = \<lparr>ds_result = None, ds_pending = False, ds_error = []\<rparr>"

datatype up_task =
    FormDiscovery nat
  | RowDiscovery nat
  | RefreshList
  | LoadList
  | CreateTask nat
  | SaveTask nat
  | ConnectTask jstr
  | RevokeTask upstream revoke_kind
  | DeleteTask jstr

record up_state =
  up_items :: "upstream list"
  up_loadedAt :: int
  up_open :: bool
  up_editing :: "upstream option"
  up_saving :: bool
  up_error :: jstr
  up_formError :: jstr
  up_formErrorSeq :: nat
  up_slugTouched :: bool
  up_form :: upstream_form
  up_formDiscovery :: discovery_state
  up_tools :: "upstream option"
  up_rowDiscovery :: discovery_state
  up_pendingDelete :: "upstream option"
  up_deleting :: bool
  up_deleteError :: jstr
  up_connecting :: "jstr option"
  up_connectingRef :: "jstr option"
  up_connectError :: jstr
  up_registerFor :: choices
  up_pendingRevoke :: "upstream option"
  up_revoking :: bool
  up_revokeError :: jstr
  up_revokeLine :: jstr
  up_formSeq :: nat
  up_rowSeq :: nat
  up_openRef :: bool
  up_dialogSeq :: nat
  up_storage :: storage_like
  up_tasks :: "up_task list"
  up_asked :: upstream_form
  up_sent :: "(jstr \<times> request_init) list"
  up_visited :: "jstr list"

section \<open>Edits of the form\<close>

text \<open>What \<open>UpstreamFields\<close> passes to \<open>onChange\<close>: one field, or, for the Kind radio, the whole form
  \<open>applyKindChange\<close> returned.\<close>

datatype form_edit =
    EName jstr | ESlug jstr | EDescription jstr | EUrl jstr | ETransport jstr | ETestPath jstr | EAuthType jstr
  | EToken jstr | EHeader jstr | EParam jstr | EValue jstr | EClientId jstr | EClientSecret jstr
  | ERegister bool | EEnabled bool | EClearStored bool | EWhole upstream_form

definition formKeys :: "jstr list" where
  "formKeys = [js ''name'', js ''slug'', js ''description'', js ''kind'', js ''url'', js ''transport'', js ''test_path'', js ''auth_type'',
     js ''token'', js ''header'', js ''param'', js ''value'', js ''client_id'', js ''client_secret'', js ''register_client'',
     js ''enabled'', js ''clear_stored'']"

fun editKeys :: "form_edit \<Rightarrow> jstr list" where
  "editKeys (EName _) = [js ''name'']"
| "editKeys (ESlug _) = [js ''slug'']"
| "editKeys (EDescription _) = [js ''description'']"
| "editKeys (EUrl _) = [js ''url'']"
| "editKeys (ETransport _) = [js ''transport'']"
| "editKeys (ETestPath _) = [js ''test_path'']"
| "editKeys (EAuthType _) = [js ''auth_type'']"
| "editKeys (EToken _) = [js ''token'']"
| "editKeys (EHeader _) = [js ''header'']"
| "editKeys (EParam _) = [js ''param'']"
| "editKeys (EValue _) = [js ''value'']"
| "editKeys (EClientId _) = [js ''client_id'']"
| "editKeys (EClientSecret _) = [js ''client_secret'']"
| "editKeys (ERegister _) = [js ''register_client'']"
| "editKeys (EEnabled _) = [js ''enabled'']"
| "editKeys (EClearStored _) = [js ''clear_stored'']"
| "editKeys (EWhole _) = formKeys"

text \<open>\<open>{ ...f, ...patch }\<close>.\<close>

fun applyEdit :: "form_edit \<Rightarrow> upstream_form \<Rightarrow> upstream_form" where
  "applyEdit (EName v) f = f\<lparr>uf_name := v\<rparr>"
| "applyEdit (ESlug v) f = f\<lparr>uf_slug := v\<rparr>"
| "applyEdit (EDescription v) f = f\<lparr>uf_description := v\<rparr>"
| "applyEdit (EUrl v) f = f\<lparr>uf_url := v\<rparr>"
| "applyEdit (ETransport v) f = f\<lparr>uf_transport := v\<rparr>"
| "applyEdit (ETestPath v) f = f\<lparr>uf_test_path := v\<rparr>"
| "applyEdit (EAuthType v) f = f\<lparr>uf_auth_type := v\<rparr>"
| "applyEdit (EToken v) f = f\<lparr>uf_token := v\<rparr>"
| "applyEdit (EHeader v) f = f\<lparr>uf_header := v\<rparr>"
| "applyEdit (EParam v) f = f\<lparr>uf_param := v\<rparr>"
| "applyEdit (EValue v) f = f\<lparr>uf_value := v\<rparr>"
| "applyEdit (EClientId v) f = f\<lparr>uf_client_id := v\<rparr>"
| "applyEdit (EClientSecret v) f = f\<lparr>uf_client_secret := v\<rparr>"
| "applyEdit (ERegister v) f = f\<lparr>uf_register_client := v\<rparr>"
| "applyEdit (EEnabled v) f = f\<lparr>uf_enabled := v\<rparr>"
| "applyEdit (EClearStored v) f = f\<lparr>uf_clear_stored := v\<rparr>"
| "applyEdit (EWhole g) f = g"

section \<open>Handlers\<close>

definition addTask :: "up_task \<Rightarrow> up_state \<Rightarrow> up_state" where
  "addTask t s = s\<lparr>up_tasks := up_tasks s @ [t]\<rparr>"

definition sendUp :: "jstr \<times> request_init \<Rightarrow> up_task \<Rightarrow> up_state \<Rightarrow> up_state" where
  "sendUp r t s = addTask t (s\<lparr>up_sent := up_sent s @ [r]\<rparr>)"

definition initOf :: "jstr \<Rightarrow> jobj option \<Rightarrow> request_init" where
  "initOf m body = \<lparr>ri_method = m, ri_body = map_option (\<lambda>b. orElse (stringify (JObj b)) []) body, ri_headers = Map.empty\<rparr>"

definition loadUpstreams :: "up_state \<Rightarrow> up_state" where
  "loadUpstreams s = sendUp (js ''/upstreams'', getInit) LoadList s"

definition refreshUpstreams :: "up_state \<Rightarrow> up_state" where
  "refreshUpstreams s = sendUp (js ''/upstreams'', getInit) RefreshList s"

definition showUpstreams :: "int \<Rightarrow> upstream list \<Rightarrow> up_state \<Rightarrow> up_state" where
  "showUpstreams now us s = s\<lparr>up_items := us, up_loadedAt := now\<rparr>"

definition resetFormDiscovery :: "up_state \<Rightarrow> up_state" where
  "resetFormDiscovery s = s\<lparr>up_formSeq := Suc (up_formSeq s), up_formDiscovery := IDLE\<rparr>"

definition PENDING :: discovery_state where
  "PENDING = \<lparr>ds_result = None, ds_pending = True, ds_error = []\<rparr>"

definition onFieldChange :: "form_edit \<Rightarrow> up_state \<Rightarrow> up_state" where
  "onFieldChange patch s =
     (if up_editing s \<noteq> None then s\<lparr>up_form := applyEdit patch (up_form s)\<rparr>
      else (let keys = editKeys patch;
                next = applyEdit patch (up_form s);
                next' = (if js ''name'' \<in> set keys \<and> js ''slug'' \<notin> set keys \<and> \<not> up_slugTouched s
                         then next\<lparr>uf_slug := deriveSlug (uf_name next)\<rparr> else next);
                s1 = s\<lparr>up_slugTouched := (up_slugTouched s \<or> js ''slug'' \<in> set keys), up_form := next'\<rparr>
            in if list_ex (\<lambda>k. k \<in> set keys) CONNECTION_FIELDS then resetFormDiscovery s1 else s1))"

text \<open>The Kind radio.\<close>

definition changeKind :: "jstr \<Rightarrow> up_state \<Rightarrow> up_state" where
  "changeKind kind s = onFieldChange (EWhole (applyKindChange (up_form s) kind)) s"

definition discoverPayload :: "upstream_form \<Rightarrow> jobj" where
  "discoverPayload f =
     [(js ''name'', JStr (uf_name f)), (js ''kind'', JStr (uf_kind f)), (js ''url'', JStr (uf_url f)), (js ''transport'', JStr (uf_transport f))] @
     optMember (uf_kind f = js ''http'' \<and> trim (uf_test_path f) \<noteq> []) (js ''test_path'') (JStr (trim (uf_test_path f))) @
     [(js ''auth_type'', JStr (uf_auth_type f)), (js ''auth_config'', strObj (authConfigFrom f))]"

definition discoverForm :: "up_state \<Rightarrow> up_state" where
  "discoverForm s =
     (let mine = Suc (up_formSeq s) in
      sendUp (discoverUpstreamPayload (discoverPayload (up_form s))) (FormDiscovery mine)
        (s\<lparr>up_formSeq := mine, up_formDiscovery := PENDING, up_asked := up_form s\<rparr>))"

definition discoverRow :: "upstream \<Rightarrow> up_state \<Rightarrow> up_state" where
  "discoverRow u s =
     (let mine = Suc (up_rowSeq s) in
      sendUp (discoverUpstream (u_id u)) (RowDiscovery mine) (s\<lparr>up_rowSeq := mine, up_rowDiscovery := PENDING\<rparr>))"

definition openTools :: "upstream \<Rightarrow> up_state \<Rightarrow> up_state" where
  "openTools u s = discoverRow u (s\<lparr>up_tools := Some u\<rparr>)"

definition closeTools :: "up_state \<Rightarrow> up_state" where
  "closeTools s = s\<lparr>up_rowSeq := Suc (up_rowSeq s), up_tools := None, up_rowDiscovery := IDLE\<rparr>"

definition openedUp :: "up_state \<Rightarrow> up_state" where
  "openedUp s = s\<lparr>up_dialogSeq := Suc (up_dialogSeq s), up_openRef := True, up_saving := False, up_open := True\<rparr>"

definition addForm :: "upstream_form \<Rightarrow> upstream_form" where
  "addForm f = f\<lparr>uf_name := [], uf_slug := [], uf_description := [], uf_kind := js ''mcp'', uf_url := [],
     uf_transport := js ''streamable-http'', uf_test_path := [], uf_token := [], uf_value := [], uf_clear_stored := False\<rparr>"

definition openAdd :: "up_state \<Rightarrow> up_state" where
  "openAdd s = openedUp (resetFormDiscovery (s\<lparr>up_editing := None, up_formError := [], up_slugTouched := False, up_form := addForm (up_form s)\<rparr>))"

definition openEditUp :: "upstream \<Rightarrow> up_state \<Rightarrow> up_state" where
  "openEditUp u s = openedUp (resetFormDiscovery (s\<lparr>up_editing := Some u, up_formError := [], up_revokeLine := [],
     up_form := (formFromUpstream u)\<lparr>uf_register_client := orElse (objGet (u_id u) (up_registerFor s)) False\<rparr>\<rparr>))"

definition closeUp :: "up_state \<Rightarrow> up_state" where
  "closeUp s = resetFormDiscovery (s\<lparr>up_openRef := False, up_open := False, up_form := (up_form s)\<lparr>uf_token := [], uf_value := []\<rparr>\<rparr>)"

definition isGone :: "failure \<Rightarrow> bool" where
  "isGone err = (case err of ApiErr e \<Rightarrow> err_status e = 404 | OtherErr _ \<Rightarrow> False)"

definition loadIfGone :: "failure \<Rightarrow> up_state \<Rightarrow> up_state" where
  "loadIfGone err s = (if isGone err then loadUpstreams s else s)"

definition failedUp :: "failure \<Rightarrow> nat \<Rightarrow> up_state \<Rightarrow> up_state" where
  "failedUp err mine s =
     (let message = editErrorMessage err UpstreamRes SaveAct; s1 = loadIfGone err s in
      if up_openRef s \<and> up_dialogSeq s = mine then s1\<lparr>up_formError := message, up_formErrorSeq := Suc (up_formErrorSeq s)\<rparr>
      else s1\<lparr>up_error := message\<rparr>)"

definition createUp :: "up_state \<Rightarrow> up_state" where
  "createUp s = sendUp (js ''/upstreams'', initOf (js ''POST'') (Some (upstreamCreateBody (up_form s) (up_slugTouched s))))
     (CreateTask (up_dialogSeq s)) (s\<lparr>up_saving := True\<rparr>)"

definition rememberRegister :: "jstr \<Rightarrow> bool \<Rightarrow> up_state \<Rightarrow> up_state" where
  "rememberRegister i choice s =
     (let next = setChoice i choice (up_registerFor s) in
      s\<lparr>up_registerFor := next, up_storage := saveRegisterChoices (up_storage s) next\<rparr>)"

definition saveUp :: "up_state \<Rightarrow> up_state" where
  "saveUp s =
     (case up_editing s of
        None \<Rightarrow> s
      | Some row \<Rightarrow>
          (let s1 = (if u_auth_type row = js ''oauth'' \<or> uf_auth_type (up_form s) = js ''oauth''
                     then rememberRegister (u_id row) (uf_register_client (up_form s)) s else s)
           in case saveRequest (upstreamPatchBody row (up_form s)) of
                None \<Rightarrow> closeUp s1
              | Some body \<Rightarrow> sendUp (js ''/upstreams/'' @ u_id row, initOf (js ''PATCH'') (Some body)) (SaveTask (up_dialogSeq s)) (s1\<lparr>up_saving := True\<rparr>)))"

definition submitUp :: "up_state \<Rightarrow> up_state" where
  "submitUp s =
     (let s1 = s\<lparr>up_formError := []\<rparr> in
      if clientSecretAlone (up_form s) then s1\<lparr>up_formError := CLIENT_SECRET_ALONE, up_formErrorSeq := Suc (up_formErrorSeq s)\<rparr>
      else if up_editing s \<noteq> None then saveUp s1 else createUp s1)"

definition closeDeleteUp :: "up_state \<Rightarrow> up_state" where
  "closeDeleteUp s = s\<lparr>up_pendingDelete := None, up_deleteError := []\<rparr>"

definition connectUp :: "upstream \<Rightarrow> up_state \<Rightarrow> up_state" where
  "connectUp u s =
     (if up_connectingRef s \<noteq> None then s
      else sendUp (oauthStart (u_id u) (if orElse (objGet (u_id u) (up_registerFor s)) False then Some (js ''registered'') else None))
             (ConnectTask (u_id u)) (s\<lparr>up_connectingRef := Some (u_id u), up_connectError := [], up_connecting := Some (u_id u)\<rparr>))"

definition closeRevokeUp :: "up_state \<Rightarrow> up_state" where
  "closeRevokeUp s = s\<lparr>up_pendingRevoke := None, up_revokeError := []\<rparr>"

definition revokeUp :: "up_state \<Rightarrow> up_state" where
  "revokeUp s =
     (case up_pendingRevoke s of
        None \<Rightarrow> s
      | Some row \<Rightarrow> sendUp (oauthRevoke (u_id row)) (RevokeTask row (orElse (rowRevokeKind row) RClient))
          (s\<lparr>up_revoking := True, up_revokeError := []\<rparr>))"

definition removeUp :: "up_state \<Rightarrow> up_state" where
  "removeUp s =
     (case up_pendingDelete s of
        None \<Rightarrow> s
      | Some row \<Rightarrow> sendUp (js ''/upstreams/'' @ u_id row, initOf (js ''DELETE'') None) (DeleteTask (u_id row))
          (s\<lparr>up_deleting := True, up_deleteError := []\<rparr>))"

text \<open>\<open>pageshow\<close> with \<open>persisted\<close>: the tab came back from the vendor through the page cache.\<close>

definition restoredUp :: "up_state \<Rightarrow> up_state" where
  "restoredUp s = s\<lparr>up_connectingRef := None, up_connecting := None\<rparr>"

section \<open>Answers\<close>

text \<open>What a settled request carries.\<close>

datatype up_answer =
    Failed failure
  | GotDiscovery discovery
  | GotList int "upstream list"
  | GotRow upstream
  | GotNothing
  | GotStart jstr
  | GotRevoked upstream jstr

definition replaceRow :: "upstream \<Rightarrow> upstream list \<Rightarrow> upstream list" where
  "replaceRow saved xs = map (\<lambda>x. if u_id x = u_id saved then saved else x) xs"

definition runAnswer :: "up_answer \<Rightarrow> discovery_state \<Rightarrow> discovery_state" where
  "runAnswer ans old =
     (case ans of
        GotDiscovery d \<Rightarrow> \<lparr>ds_result = Some d, ds_pending = False, ds_error = []\<rparr>
      | Failed err \<Rightarrow> \<lparr>ds_result = None, ds_pending = False, ds_error = discoveryErrorMessage err\<rparr>
      | _ \<Rightarrow> old)"

definition unsave :: "nat \<Rightarrow> up_state \<Rightarrow> up_state" where
  "unsave mine s = (if up_dialogSeq s = mine then s\<lparr>up_saving := False\<rparr> else s)"

definition releaseConnect :: "up_state \<Rightarrow> up_state" where
  "releaseConnect s = s\<lparr>up_connectingRef := None, up_connecting := None\<rparr>"

fun settleUp :: "url_parser \<Rightarrow> up_task \<Rightarrow> up_answer \<Rightarrow> up_state \<Rightarrow> up_state" where
  "settleUp URL (FormDiscovery mine) ans s =
     (if up_formSeq s \<noteq> mine then s else s\<lparr>up_formDiscovery := runAnswer ans (up_formDiscovery s)\<rparr>)"
| "settleUp URL (RowDiscovery mine) ans s =
     refreshUpstreams (if up_rowSeq s \<noteq> mine then s else s\<lparr>up_rowDiscovery := runAnswer ans (up_rowDiscovery s)\<rparr>)"
| "settleUp URL RefreshList ans s = (case ans of GotList now us \<Rightarrow> showUpstreams now us s | _ \<Rightarrow> s)"
| "settleUp URL LoadList ans s =
     (case ans of GotList now us \<Rightarrow> showUpstreams now us s
      | Failed err \<Rightarrow> s\<lparr>up_error := (case err of ApiErr e \<Rightarrow> err_message e | OtherErr m \<Rightarrow> m)\<rparr> | _ \<Rightarrow> s)"
| "settleUp URL (CreateTask mine) ans s =
     (case ans of
        Failed err \<Rightarrow> unsave mine (failedUp err mine s)
      | _ \<Rightarrow> unsave mine (loadUpstreams (if up_dialogSeq s = mine then (closeUp s)\<lparr>up_slugTouched := False\<rparr> else s)))"
| "settleUp URL (SaveTask mine) ans s =
     (case ans of
        Failed err \<Rightarrow> unsave mine (failedUp err mine s)
      | GotRow saved \<Rightarrow>
          (let s1 = s\<lparr>up_items := replaceRow saved (up_items s)\<rparr>
           in unsave mine (if up_dialogSeq s = mine then closeUp s1 else s1))
      | _ \<Rightarrow> s)"
| "settleUp URL (ConnectTask i) ans s =
     (case ans of
        Failed err \<Rightarrow> releaseConnect ((loadIfGone err s)\<lparr>up_connectError := connectErrorMessage err\<rparr>)
      | GotStart url \<Rightarrow>
          (if \<not> authorizationURLIsWeb URL url
           then releaseConnect (s\<lparr>up_connectError := js ''The server answered with an address this browser cannot open.''\<rparr>)
           else s\<lparr>up_visited := up_visited s @ [url]\<rparr>)
      | _ \<Rightarrow> s)"
| "settleUp URL (RevokeTask row kind) ans s =
     (case ans of
        Failed err \<Rightarrow> ((loadIfGone err s)\<lparr>up_revokeError := editErrorMessage err UpstreamRes SaveAct\<rparr>)\<lparr>up_revoking := False\<rparr>
      | GotRevoked u vendor \<Rightarrow>
          (closeRevokeUp (s\<lparr>up_items := replaceRow u (up_items s),
             up_editing := (case up_editing s of Some e \<Rightarrow> if u_id e = u_id u then Some u else Some e | None \<Rightarrow> None),
             up_revokeLine := revokeResultLine vendor kind\<rparr>))\<lparr>up_revoking := False\<rparr>
      | _ \<Rightarrow> s)"
| "settleUp URL (DeleteTask i) ans s =
     (case ans of
        Failed err \<Rightarrow> ((loadIfGone err s)\<lparr>up_deleteError := editErrorMessage err UpstreamRes DeleteAct\<rparr>)\<lparr>up_deleting := False\<rparr>
      | _ \<Rightarrow> (closeDeleteUp (s\<lparr>up_items := filter (\<lambda>x. u_id x \<noteq> i) (up_items s)\<rparr>))\<lparr>up_deleting := False\<rparr>)"

section \<open>The page as a machine\<close>

fun answerFits :: "up_task \<Rightarrow> up_answer \<Rightarrow> bool" where
  "answerFits t (Failed _) = True"
| "answerFits (FormDiscovery _) (GotDiscovery _) = True"
| "answerFits (RowDiscovery _) (GotDiscovery _) = True"
| "answerFits RefreshList (GotList _ _) = True"
| "answerFits LoadList (GotList _ _) = True"
| "answerFits (CreateTask _) GotNothing = True"
| "answerFits (SaveTask _) (GotRow _) = True"
| "answerFits (ConnectTask _) (GotStart _) = True"
| "answerFits (RevokeTask _ _) (GotRevoked _ _) = True"
| "answerFits (DeleteTask _) GotNothing = True"
| "answerFits _ _ = False"

definition dropTask :: "nat \<Rightarrow> up_state \<Rightarrow> up_state" where
  "dropTask i s = s\<lparr>up_tasks := take i (up_tasks s) @ drop (Suc i) (up_tasks s)\<rparr>"

definition upBlank :: "storage_like \<Rightarrow> choices \<Rightarrow> up_state" where
  "upBlank st choices = \<lparr>up_items = [], up_loadedAt = 0, up_open = False, up_editing = None, up_saving = False, up_error = [],
     up_formError = [], up_formErrorSeq = 0, up_slugTouched = False, up_form = blankUpstreamForm, up_formDiscovery = IDLE,
     up_tools = None, up_rowDiscovery = IDLE, up_pendingDelete = None, up_deleting = False, up_deleteError = [],
     up_connecting = None, up_connectingRef = None, up_connectError = [], up_registerFor = choices, up_pendingRevoke = None,
     up_revoking = False, up_revokeError = [], up_revokeLine = [], up_formSeq = 0, up_rowSeq = 0, up_openRef = False,
     up_dialogSeq = 0, up_storage = st, up_tasks = [], up_asked = blankUpstreamForm, up_sent = [], up_visited = []\<rparr>"

definition isWhole :: "form_edit \<Rightarrow> bool" where
  "isWhole e = (case e of EWhole _ \<Rightarrow> True | _ \<Rightarrow> False)"

definition connectTasks :: "up_task list \<Rightarrow> jstr list" where
  "connectTasks ts = concat (map (\<lambda>t. case t of ConnectTask i \<Rightarrow> [i] | _ \<Rightarrow> []) ts)"

definition formTasks :: "up_task list \<Rightarrow> nat list" where
  "formTasks ts = concat (map (\<lambda>t. case t of FormDiscovery m \<Rightarrow> [m] | _ \<Rightarrow> []) ts)"

text \<open>The guards are the controls' own: Discover is drawn in the Add dialog only and disabled for an
  unusable URL, while a discovery runs and for oauth; the Kind radio is drawn in the Add dialog
  only. The tab comes back through the page cache after it left, when no start request is pending.\<close>

inductive up_step :: "url_parser \<Rightarrow> up_state \<Rightarrow> up_state \<Rightarrow> bool" for URL where
  open_add: "up_step URL s (openAdd s)"
| open_edit: "up_step URL s (openEditUp u s)"
| close_dialog: "up_step URL s (closeUp s)"
| field: "\<not> isWhole e \<Longrightarrow> up_step URL s (onFieldChange e s)"
| kind: "up_editing s = None \<Longrightarrow> up_step URL s (changeKind k s)"
| discover: "up_editing s = None \<Longrightarrow> discoverable URL (uf_url (up_form s)) \<Longrightarrow> \<not> ds_pending (up_formDiscovery s) \<Longrightarrow>
     uf_auth_type (up_form s) \<noteq> js ''oauth'' \<Longrightarrow> up_step URL s (discoverForm s)"
| submit: "up_step URL s (submitUp s)"
| open_tools: "up_step URL s (openTools u s)"
| tools_again: "up_tools s = Some u \<Longrightarrow> up_step URL s (discoverRow u s)"
| close_tools: "up_step URL s (closeTools s)"
| connect: "up_step URL s (connectUp u s)"
| ask_revoke: "up_step URL s (s\<lparr>up_pendingRevoke := up_editing s\<rparr>)"
| revoke: "up_step URL s (revokeUp s)"
| close_revoke: "up_step URL s (closeRevokeUp s)"
| ask_delete: "up_step URL s (s\<lparr>up_pendingDelete := Some u\<rparr>)"
| remove: "up_step URL s (removeUp s)"
| close_delete: "up_step URL s (closeDeleteUp s)"
| restored: "connectTasks (up_tasks s) = [] \<Longrightarrow> up_step URL s (restoredUp s)"
| settled: "i < length (up_tasks s) \<Longrightarrow> answerFits (up_tasks s ! i) ans \<Longrightarrow>
     up_step URL s (settleUp URL (up_tasks s ! i) ans (dropTask i s))"

inductive_cases up_stepE: "up_step URL s t"

inductive up_reach :: "url_parser \<Rightarrow> up_state \<Rightarrow> bool" for URL where
  up_mounted: "up_reach URL (loadUpstreams (upBlank st choices))"
| up_moved: "up_reach URL s \<Longrightarrow> up_step URL s t \<Longrightarrow> up_reach URL t"

section \<open>The panel and the connection\<close>

definition connOf :: "upstream_form \<Rightarrow> jstr list" where
  "connOf f = [uf_kind f, uf_url f, uf_transport f, uf_test_path f, uf_auth_type f, uf_token f, uf_header f, uf_param f, uf_value f]"

definition panel_ok :: "nat \<Rightarrow> discovery_state \<Rightarrow> jstr list \<Rightarrow> upstream option \<Rightarrow> nat list \<Rightarrow> jstr list \<Rightarrow> bool" where
  "panel_ok seq disc conn ed fts asked \<longleftrightarrow>
     distinct fts \<and> (\<forall>m \<in> set fts. m \<le> seq) \<and> (seq \<in> set fts \<longrightarrow> disc = PENDING) \<and> (disc \<noteq> IDLE \<longrightarrow> ed = None \<and> conn = asked)"

definition panel_inv :: "up_state \<Rightarrow> bool" where
  "panel_inv s \<longleftrightarrow> panel_ok (up_formSeq s) (up_formDiscovery s) (connOf (up_form s)) (up_editing s) (formTasks (up_tasks s)) (connOf (up_asked s))"

lemma formTasks_append [simp]: "formTasks (a @ b) = formTasks a @ formTasks b"
  by (simp add: formTasks_def)

lemma formTasks_single [simp]: "formTasks [t] = (case t of FormDiscovery m \<Rightarrow> [m] | _ \<Rightarrow> [])"
  by (simp add: formTasks_def)

lemma panel_reset: "panel_ok seq disc conn ed fts asked \<Longrightarrow> panel_ok (Suc seq) IDLE conn' ed' fts asked'"
  by (auto simp: panel_ok_def dest: Suc_le_lessD)

lemma panel_ask: "panel_ok seq disc conn None fts asked \<Longrightarrow> panel_ok (Suc seq) PENDING conn' None (fts @ [Suc seq]) conn'"
  by (auto simp: panel_ok_def)

lemma panel_editing: "panel_ok seq disc conn (Some e) fts asked \<Longrightarrow> panel_ok seq disc conn' (Some e') fts asked"
  by (auto simp: panel_ok_def)

lemma panel_same:
  "panel_inv s \<Longrightarrow> up_formSeq t = up_formSeq s \<Longrightarrow> up_formDiscovery t = up_formDiscovery s \<Longrightarrow> connOf (up_form t) = connOf (up_form s) \<Longrightarrow>
   up_editing t = up_editing s \<Longrightarrow> formTasks (up_tasks t) = formTasks (up_tasks s) \<Longrightarrow> up_asked t = up_asked s \<Longrightarrow> panel_inv t"
  by (simp add: panel_inv_def)

lemma panel_resets:
  "panel_inv s \<Longrightarrow> up_formSeq t = Suc (up_formSeq s) \<Longrightarrow> up_formDiscovery t = IDLE \<Longrightarrow> formTasks (up_tasks t) = formTasks (up_tasks s) \<Longrightarrow> panel_inv t"
  by (simp add: panel_inv_def panel_reset)

lemmas up_light = sendUp_def addTask_def loadUpstreams_def refreshUpstreams_def showUpstreams_def loadIfGone_def

lemma connOf_edit:
  assumes "\<not> isWhole e" "\<not> list_ex (\<lambda>k. k \<in> set (editKeys e)) CONNECTION_FIELDS"
  shows "connOf (applyEdit e f) = connOf f"
  using assms by (cases e) (simp_all add: CONNECTION_FIELDS_def connOf_def isWhole_def)

lemma panel_onFieldChange:
  assumes inv: "panel_inv s" and e: "\<not> isWhole e \<or> up_editing s = None"
  shows "panel_inv (onFieldChange e s)"
proof (cases "up_editing s")
  case (Some r)
  with inv show ?thesis by (simp add: onFieldChange_def panel_inv_def panel_editing)
next
  case None
  show ?thesis
  proof (cases "list_ex (\<lambda>k. k \<in> set (editKeys e)) CONNECTION_FIELDS")
    case True
    with None show ?thesis
      by (intro panel_resets [OF inv]) (simp_all add: onFieldChange_def Let_def resetFormDiscovery_def)
  next
    case False
    then have "\<not> isWhole e" by (cases e) (auto simp: isWhole_def CONNECTION_FIELDS_def formKeys_def)
    from connOf_edit [OF this False] None False show ?thesis
      by (intro panel_same [OF inv]) (simp_all add: onFieldChange_def Let_def connOf_def)
  qed
qed

lemma panel_close: "panel_inv s \<Longrightarrow> panel_inv (closeUp s)"
  by (rule panel_resets [of s]) (simp_all add: closeUp_def resetFormDiscovery_def)

lemma panel_sendUp:
  "panel_inv s \<Longrightarrow> (\<And>m. t \<noteq> FormDiscovery m) \<Longrightarrow> panel_inv (sendUp r t s)"
  by (rule panel_same [of s]) (simp_all add: sendUp_def addTask_def split: up_task.splits)

lemma panel_load: "panel_inv s \<Longrightarrow> panel_inv (loadUpstreams s)" "panel_inv s \<Longrightarrow> panel_inv (refreshUpstreams s)"
  "panel_inv s \<Longrightarrow> panel_inv (loadIfGone err s)"
  by (simp_all add: loadUpstreams_def refreshUpstreams_def loadIfGone_def panel_sendUp)

lemma panel_light [simp]:
  "panel_inv (s\<lparr>up_items := a\<rparr>) = panel_inv s" "panel_inv (s\<lparr>up_loadedAt := b\<rparr>) = panel_inv s" "panel_inv (s\<lparr>up_saving := c\<rparr>) = panel_inv s"
  "panel_inv (s\<lparr>up_error := d\<rparr>) = panel_inv s" "panel_inv (s\<lparr>up_formError := d\<rparr>) = panel_inv s" "panel_inv (s\<lparr>up_formErrorSeq := n\<rparr>) = panel_inv s"
  "panel_inv (s\<lparr>up_slugTouched := c\<rparr>) = panel_inv s" "panel_inv (s\<lparr>up_tools := e\<rparr>) = panel_inv s" "panel_inv (s\<lparr>up_rowDiscovery := f\<rparr>) = panel_inv s"
  "panel_inv (s\<lparr>up_pendingDelete := e\<rparr>) = panel_inv s" "panel_inv (s\<lparr>up_deleting := c\<rparr>) = panel_inv s" "panel_inv (s\<lparr>up_deleteError := d\<rparr>) = panel_inv s"
  "panel_inv (s\<lparr>up_connecting := g\<rparr>) = panel_inv s" "panel_inv (s\<lparr>up_connectingRef := g\<rparr>) = panel_inv s" "panel_inv (s\<lparr>up_connectError := d\<rparr>) = panel_inv s"
  "panel_inv (s\<lparr>up_registerFor := h\<rparr>) = panel_inv s" "panel_inv (s\<lparr>up_pendingRevoke := e\<rparr>) = panel_inv s" "panel_inv (s\<lparr>up_revoking := c\<rparr>) = panel_inv s"
  "panel_inv (s\<lparr>up_revokeError := d\<rparr>) = panel_inv s" "panel_inv (s\<lparr>up_revokeLine := d\<rparr>) = panel_inv s" "panel_inv (s\<lparr>up_rowSeq := n\<rparr>) = panel_inv s"
  "panel_inv (s\<lparr>up_storage := st\<rparr>) = panel_inv s" "panel_inv (s\<lparr>up_visited := vs\<rparr>) = panel_inv s"
  by (simp_all add: panel_inv_def)

lemma panel_tools: "panel_inv s \<Longrightarrow> panel_inv (discoverRow u s)" "panel_inv s \<Longrightarrow> panel_inv (openTools u s)" "panel_inv s \<Longrightarrow> panel_inv (closeTools s)"
  by (simp_all add: discoverRow_def openTools_def closeTools_def Let_def panel_sendUp)

lemma panel_opens: "panel_inv s \<Longrightarrow> panel_inv (openAdd s)" "panel_inv s \<Longrightarrow> panel_inv (openEditUp u s)"
  by (auto intro!: panel_resets [of s] simp: openAdd_def openEditUp_def openedUp_def resetFormDiscovery_def)

lemma panel_discover: "panel_inv s \<Longrightarrow> up_editing s = None \<Longrightarrow> panel_inv (discoverForm s)"
  by (simp add: panel_inv_def discoverForm_def sendUp_def addTask_def Let_def panel_ask)

lemma panel_failed: "panel_inv s \<Longrightarrow> panel_inv (failedUp err mine s)"
  by (simp add: failedUp_def Let_def panel_load)

lemma panel_remember: "panel_inv s \<Longrightarrow> panel_inv (rememberRegister i c s)"
  by (simp add: rememberRegister_def Let_def)

lemma panel_save: "panel_inv s \<Longrightarrow> panel_inv (saveUp s)"
  by (auto simp: saveUp_def Let_def panel_close panel_sendUp panel_remember split: option.splits)

lemma panel_submit: "panel_inv s \<Longrightarrow> panel_inv (submitUp s)"
  by (simp add: submitUp_def Let_def panel_save createUp_def panel_sendUp)

lemma panel_dialogs:
  "panel_inv s \<Longrightarrow> panel_inv (connectUp u s)" "panel_inv s \<Longrightarrow> panel_inv (revokeUp s)" "panel_inv s \<Longrightarrow> panel_inv (removeUp s)"
  "panel_inv s \<Longrightarrow> panel_inv (closeRevokeUp s)" "panel_inv s \<Longrightarrow> panel_inv (closeDeleteUp s)" "panel_inv s \<Longrightarrow> panel_inv (restoredUp s)"
  by (auto simp: connectUp_def revokeUp_def removeUp_def closeRevokeUp_def closeDeleteUp_def restoredUp_def panel_sendUp split: option.splits)

lemma formTasks_drop:
  assumes "i < length (up_tasks s)"
  shows "\<exists>a b. formTasks (up_tasks s) = a @ formTasks [up_tasks s ! i] @ b \<and> formTasks (up_tasks (dropTask i s)) = a @ b"
proof -
  have "formTasks (up_tasks s) = formTasks (take i (up_tasks s)) @ formTasks [up_tasks s ! i] @ formTasks (drop (Suc i) (up_tasks s))"
    by (subst id_take_nth_drop [OF assms]) (simp only: formTasks_append [symmetric] append.simps append_assoc)
  then show ?thesis by (auto simp: dropTask_def)
qed

lemma dropTask_sel [simp]:
  "up_formSeq (dropTask i s) = up_formSeq s" "up_formDiscovery (dropTask i s) = up_formDiscovery s" "up_form (dropTask i s) = up_form s"
  "up_editing (dropTask i s) = up_editing s" "up_asked (dropTask i s) = up_asked s"
  by (simp_all add: dropTask_def)

lemma panel_dropTask:
  assumes inv: "panel_inv s" and i: "i < length (up_tasks s)"
  shows "panel_inv (dropTask i s)"
proof -
  obtain a b where "formTasks (up_tasks s) = a @ formTasks [up_tasks s ! i] @ b" "formTasks (up_tasks (dropTask i s)) = a @ b"
    using formTasks_drop [OF i] by blast
  with inv show ?thesis by (auto simp: panel_inv_def panel_ok_def)
qed

text \<open>The newest discovery answers: the panel leaves its pending state for the connection it was asked about.\<close>

lemma panel_answer:
  assumes inv: "panel_inv s" and i: "i < length (up_tasks s)" and t: "up_tasks s ! i = FormDiscovery (up_formSeq s)"
  shows "panel_inv ((dropTask i s)\<lparr>up_formDiscovery := d\<rparr>)"
proof -
  obtain a b where ab: "formTasks (up_tasks s) = a @ formTasks [up_tasks s ! i] @ b" "formTasks (up_tasks (dropTask i s)) = a @ b"
    using formTasks_drop [OF i] by blast
  then have fts: "formTasks (up_tasks s) = a @ [up_formSeq s] @ b" using t by simp
  with inv have "up_formDiscovery s = PENDING" by (auto simp: panel_inv_def panel_ok_def)
  moreover have "PENDING \<noteq> IDLE" by (simp add: PENDING_def IDLE_def)
  ultimately have "up_editing s = None" "connOf (up_form s) = connOf (up_asked s)" using inv by (auto simp: panel_inv_def panel_ok_def)
  with inv fts ab(2) show ?thesis by (auto simp: panel_inv_def panel_ok_def)
qed

lemma panel_settle:
  assumes inv: "panel_inv s" and i: "i < length (up_tasks s)"
  shows "panel_inv (settleUp URL (up_tasks s ! i) ans (dropTask i s))"
proof -
  let ?u = "dropTask i s"
  have u: "panel_inv ?u" by (rule panel_dropTask [OF inv i])
  have rev: "panel_inv (v\<lparr>up_editing := (case up_editing v of Some e \<Rightarrow> if u_id e = u_id w then Some w else Some e | None \<Rightarrow> None)\<rparr>)"
    if "panel_inv v" for v w
    using that by (cases "up_editing v") (auto simp: panel_inv_def intro: panel_editing)
  show ?thesis
  proof (cases "up_tasks s ! i")
    case (FormDiscovery mine)
    then show ?thesis using u panel_answer [OF inv i] by (auto simp: runAnswer_def)
  next
    case (RevokeTask row kind)
    then show ?thesis using u rev [of "?u\<lparr>up_items := xs\<rparr>" for xs]
      by (auto simp: panel_load closeRevokeUp_def split: up_answer.splits)
  qed (use u in \<open>auto simp: panel_load panel_failed panel_close showUpstreams_def unsave_def releaseConnect_def closeDeleteUp_def Let_def
      split: up_answer.splits\<close>)
qed

lemma panel_step: "up_step URL s t \<Longrightarrow> panel_inv s \<Longrightarrow> panel_inv t"
  by (erule up_stepE) (auto simp: panel_opens panel_close panel_onFieldChange changeKind_def panel_discover panel_submit panel_tools
      panel_dialogs panel_settle)

lemma panel_reach: "up_reach URL s \<Longrightarrow> panel_inv s"
proof (induction rule: up_reach.induct)
  case (up_mounted st choices)
  have "panel_inv (upBlank st choices)" by (simp add: panel_inv_def panel_ok_def upBlank_def formTasks_def)
  then show ?case by (rule panel_load)
qed (blast intro: panel_step)

section \<open>One sign-in at a time\<close>

definition sign_ok :: "url_parser \<Rightarrow> jstr list \<Rightarrow> jstr option \<Rightarrow> jstr option \<Rightarrow> jstr list \<Rightarrow> bool" where
  "sign_ok URL cts ref shown visited \<longleftrightarrow>
     length cts \<le> 1 \<and> (cts \<noteq> [] \<longrightarrow> ref = Some (hd cts)) \<and> shown = ref \<and> list_all (authorizationURLIsWeb URL) visited"

definition sign_inv :: "url_parser \<Rightarrow> up_state \<Rightarrow> bool" where
  "sign_inv URL s \<longleftrightarrow> sign_ok URL (connectTasks (up_tasks s)) (up_connectingRef s) (up_connecting s) (up_visited s)"

lemma connectTasks_append [simp]: "connectTasks (a @ b) = connectTasks a @ connectTasks b"
  by (simp add: connectTasks_def)

lemma connectTasks_single [simp]: "connectTasks [t] = (case t of ConnectTask i \<Rightarrow> [i] | _ \<Rightarrow> [])"
  by (simp add: connectTasks_def)

lemma sign_light [simp]:
  "sign_inv URL (s\<lparr>up_items := x0\<rparr>) = sign_inv URL s"
  "sign_inv URL (s\<lparr>up_loadedAt := x1\<rparr>) = sign_inv URL s"
  "sign_inv URL (s\<lparr>up_open := x2\<rparr>) = sign_inv URL s"
  "sign_inv URL (s\<lparr>up_editing := x3\<rparr>) = sign_inv URL s"
  "sign_inv URL (s\<lparr>up_saving := x4\<rparr>) = sign_inv URL s"
  "sign_inv URL (s\<lparr>up_error := x5\<rparr>) = sign_inv URL s"
  "sign_inv URL (s\<lparr>up_formError := x6\<rparr>) = sign_inv URL s"
  "sign_inv URL (s\<lparr>up_formErrorSeq := x7\<rparr>) = sign_inv URL s"
  "sign_inv URL (s\<lparr>up_slugTouched := x8\<rparr>) = sign_inv URL s"
  "sign_inv URL (s\<lparr>up_form := x9\<rparr>) = sign_inv URL s"
  "sign_inv URL (s\<lparr>up_formDiscovery := x10\<rparr>) = sign_inv URL s"
  "sign_inv URL (s\<lparr>up_tools := x11\<rparr>) = sign_inv URL s"
  "sign_inv URL (s\<lparr>up_rowDiscovery := x12\<rparr>) = sign_inv URL s"
  "sign_inv URL (s\<lparr>up_pendingDelete := x13\<rparr>) = sign_inv URL s"
  "sign_inv URL (s\<lparr>up_deleting := x14\<rparr>) = sign_inv URL s"
  "sign_inv URL (s\<lparr>up_deleteError := x15\<rparr>) = sign_inv URL s"
  "sign_inv URL (s\<lparr>up_connectError := x16\<rparr>) = sign_inv URL s"
  "sign_inv URL (s\<lparr>up_registerFor := x17\<rparr>) = sign_inv URL s"
  "sign_inv URL (s\<lparr>up_pendingRevoke := x18\<rparr>) = sign_inv URL s"
  "sign_inv URL (s\<lparr>up_revoking := x19\<rparr>) = sign_inv URL s"
  "sign_inv URL (s\<lparr>up_revokeError := x20\<rparr>) = sign_inv URL s"
  "sign_inv URL (s\<lparr>up_revokeLine := x21\<rparr>) = sign_inv URL s"
  "sign_inv URL (s\<lparr>up_formSeq := x22\<rparr>) = sign_inv URL s"
  "sign_inv URL (s\<lparr>up_rowSeq := x23\<rparr>) = sign_inv URL s"
  "sign_inv URL (s\<lparr>up_openRef := x24\<rparr>) = sign_inv URL s"
  "sign_inv URL (s\<lparr>up_dialogSeq := x25\<rparr>) = sign_inv URL s"
  "sign_inv URL (s\<lparr>up_storage := x26\<rparr>) = sign_inv URL s"
  "sign_inv URL (s\<lparr>up_asked := x27\<rparr>) = sign_inv URL s"
  "sign_inv URL (s\<lparr>up_sent := x28\<rparr>) = sign_inv URL s"
  by (simp_all add: sign_inv_def)

lemma sign_sendUp: "sign_inv URL s \<Longrightarrow> (\<And>i. t \<noteq> ConnectTask i) \<Longrightarrow> sign_inv URL (sendUp r t s)"
  by (simp add: sign_inv_def sendUp_def addTask_def split: up_task.splits)

lemma sign_load: "sign_inv URL s \<Longrightarrow> sign_inv URL (loadUpstreams s)" "sign_inv URL s \<Longrightarrow> sign_inv URL (refreshUpstreams s)"
  "sign_inv URL s \<Longrightarrow> sign_inv URL (loadIfGone err s)"
  by (simp_all add: loadUpstreams_def refreshUpstreams_def loadIfGone_def sign_sendUp)

lemma sign_dialog:
  "sign_inv URL (resetFormDiscovery s) = sign_inv URL s" "sign_inv URL (openedUp s) = sign_inv URL s" "sign_inv URL (openAdd s) = sign_inv URL s"
  "sign_inv URL (openEditUp u s) = sign_inv URL s" "sign_inv URL (closeUp s) = sign_inv URL s" "sign_inv URL (onFieldChange e s) = sign_inv URL s"
  "sign_inv URL (closeTools s) = sign_inv URL s" "sign_inv URL (closeRevokeUp s) = sign_inv URL s" "sign_inv URL (closeDeleteUp s) = sign_inv URL s"
  "sign_inv URL (rememberRegister i c s) = sign_inv URL s" "sign_inv URL (unsave n s) = sign_inv URL s"
  by (simp_all add: resetFormDiscovery_def openedUp_def openAdd_def openEditUp_def closeUp_def onFieldChange_def closeTools_def
      closeRevokeUp_def closeDeleteUp_def rememberRegister_def unsave_def Let_def)

lemma sign_sends:
  "sign_inv URL s \<Longrightarrow> sign_inv URL (discoverForm s)" "sign_inv URL s \<Longrightarrow> sign_inv URL (discoverRow u s)" "sign_inv URL s \<Longrightarrow> sign_inv URL (openTools u s)"
  "sign_inv URL s \<Longrightarrow> sign_inv URL (createUp s)" "sign_inv URL s \<Longrightarrow> sign_inv URL (saveUp s)" "sign_inv URL s \<Longrightarrow> sign_inv URL (submitUp s)"
  "sign_inv URL s \<Longrightarrow> sign_inv URL (revokeUp s)" "sign_inv URL s \<Longrightarrow> sign_inv URL (removeUp s)" "sign_inv URL s \<Longrightarrow> sign_inv URL (failedUp err n s)"
  by (auto simp: discoverForm_def discoverRow_def openTools_def createUp_def saveUp_def submitUp_def revokeUp_def removeUp_def failedUp_def
      Let_def sign_sendUp sign_load sign_dialog split: option.splits)

lemma sign_connect: "sign_inv URL s \<Longrightarrow> sign_inv URL (connectUp u s)"
  by (cases "up_connectingRef s") (auto simp: connectUp_def sign_inv_def sign_ok_def sendUp_def addTask_def)

lemma sign_restored: "sign_inv URL s \<Longrightarrow> connectTasks (up_tasks s) = [] \<Longrightarrow> sign_inv URL (restoredUp s)"
  by (simp add: restoredUp_def sign_inv_def sign_ok_def)

lemma connectTasks_drop:
  assumes "i < length (up_tasks s)"
  shows "\<exists>a b. connectTasks (up_tasks s) = a @ connectTasks [up_tasks s ! i] @ b \<and> connectTasks (up_tasks (dropTask i s)) = a @ b"
proof -
  have "connectTasks (up_tasks s) = connectTasks (take i (up_tasks s)) @ connectTasks [up_tasks s ! i] @ connectTasks (drop (Suc i) (up_tasks s))"
    by (subst id_take_nth_drop [OF assms]) (simp only: connectTasks_append [symmetric] append.simps append_assoc)
  then show ?thesis by (auto simp: dropTask_def)
qed

lemma dropTask_connect [simp]:
  "up_connectingRef (dropTask i s) = up_connectingRef s" "up_connecting (dropTask i s) = up_connecting s" "up_visited (dropTask i s) = up_visited s"
  by (simp_all add: dropTask_def)

lemma sign_dropTask:
  assumes inv: "sign_inv URL s" and i: "i < length (up_tasks s)"
  shows "sign_inv URL (dropTask i s)" "up_tasks s ! i = ConnectTask c \<Longrightarrow> connectTasks (up_tasks (dropTask i s)) = []"
proof -
  obtain a b where ab: "connectTasks (up_tasks s) = a @ connectTasks [up_tasks s ! i] @ b" "connectTasks (up_tasks (dropTask i s)) = a @ b"
    using connectTasks_drop [OF i] by blast
  show "sign_inv URL (dropTask i s)"
    using inv ab by (cases a; cases b) (auto simp: sign_inv_def sign_ok_def)
  show "up_tasks s ! i = ConnectTask c \<Longrightarrow> connectTasks (up_tasks (dropTask i s)) = []"
    using inv ab by (auto simp: sign_inv_def sign_ok_def)
qed

lemma tasks_loadIfGone: "connectTasks (up_tasks (loadIfGone err s)) = connectTasks (up_tasks s)"
  by (simp add: loadIfGone_def loadUpstreams_def sendUp_def addTask_def)

lemma visited_loadIfGone [simp]: "up_visited (loadIfGone err s) = up_visited s"
  by (simp add: loadIfGone_def loadUpstreams_def sendUp_def addTask_def)

lemma sign_settle:
  assumes inv: "sign_inv URL s" and i: "i < length (up_tasks s)" and fits: "answerFits (up_tasks s ! i) ans"
  shows "sign_inv URL (settleUp URL (up_tasks s ! i) ans (dropTask i s))"
proof -
  let ?u = "dropTask i s"
  have u: "sign_inv URL ?u" by (rule sign_dropTask(1) [OF inv i])
  show ?thesis
  proof (cases "up_tasks s ! i")
    case (ConnectTask c)
    have none: "connectTasks (up_tasks ?u) = []" by (rule sign_dropTask(2) [OF inv i ConnectTask])
    have web: "list_all (authorizationURLIsWeb URL) (up_visited s)" using inv by (simp add: sign_inv_def sign_ok_def)
    show ?thesis
    proof (cases ans)
      case (Failed err)
      then show ?thesis using none web by (simp add: ConnectTask releaseConnect_def sign_inv_def sign_ok_def tasks_loadIfGone)
    next
      case (GotStart url)
      then show ?thesis using none web u by (simp add: ConnectTask releaseConnect_def sign_inv_def sign_ok_def)
    qed (use fits ConnectTask in simp_all)
  qed (use u in \<open>auto simp: sign_load sign_sends sign_dialog showUpstreams_def runAnswer_def Let_def split: up_answer.splits\<close>)
qed

lemma sign_step: "up_step URL s t \<Longrightarrow> sign_inv URL s \<Longrightarrow> sign_inv URL t"
  by (erule up_stepE) (auto simp: sign_dialog changeKind_def sign_sends sign_connect sign_restored sign_settle)

lemma sign_reach: "up_reach URL s \<Longrightarrow> sign_inv URL s"
proof (induction rule: up_reach.induct)
  case (up_mounted st choices)
  have "sign_inv URL (upBlank st choices)" by (simp add: sign_inv_def sign_ok_def upBlank_def connectTasks_def)
  then show ?case by (rule sign_load)
qed (blast intro: sign_step)

section \<open>Where a failure is shown\<close>

lemma failedUp_other_dialog:
  assumes "\<not> (up_openRef s \<and> up_dialogSeq s = mine)"
  shows "up_formError (failedUp err mine s) = up_formError s" "up_error (failedUp err mine s) = editErrorMessage err UpstreamRes SaveAct"
  using assms by (auto simp: failedUp_def Let_def loadIfGone_def loadUpstreams_def sendUp_def addTask_def)

lemma failedUp_own_dialog:
  assumes "up_openRef s" "up_dialogSeq s = mine"
  shows "up_formError (failedUp err mine s) = editErrorMessage err UpstreamRes SaveAct" "up_error (failedUp err mine s) = up_error s"
  using assms by (simp_all add: failedUp_def Let_def loadIfGone_def loadUpstreams_def sendUp_def addTask_def)

lemma saveUp_sends:
  "up_sent (saveUp s) = up_sent s \<or>
     (\<exists>row body. up_editing s = Some row \<and> body = upstreamPatchBody row (up_form s) \<and> body \<noteq> [] \<and>
        up_sent (saveUp s) = up_sent s @ [(js ''/upstreams/'' @ u_id row, initOf (js ''PATCH'') (Some body))])"
proof (cases "up_editing s")
  case (Some row)
  show ?thesis
  proof (cases "upstreamPatchBody row (up_form s) = []")
    case True
    then show ?thesis by (simp add: saveUp_def Some saveRequest_def objKeys_def closeUp_def resetFormDiscovery_def rememberRegister_def Let_def)
  next
    case False
    then show ?thesis by (simp add: saveUp_def Some saveRequest_def objKeys_def sendUp_def addTask_def rememberRegister_def Let_def)
  qed
qed (simp add: saveUp_def)

section \<open>Two consequences of the handlers as written\<close>

text \<open>The Kind radio hands over the whole form, so it counts as an edit of the slug: a name typed
  afterwards no longer derives it.\<close>

lemma kind_change_touches_slug:
  assumes "up_editing s = None"
  shows "up_slugTouched (changeKind k s)" "uf_slug (up_form (onFieldChange (EName v) (changeKind k s))) = uf_slug (up_form s)"
  using assms
  by (simp_all add: changeKind_def onFieldChange_def formKeys_def CONNECTION_FIELDS_def resetFormDiscovery_def Let_def applyKindChange_def)

text \<open>Closing clears the token and the value; the client id and secret stay and the next Add dialog
  opens with them.\<close>

lemma client_secret_outlives_close:
  "uf_client_secret (up_form (openAdd (closeUp s))) = uf_client_secret (up_form s)"
  "uf_client_id (up_form (openAdd (closeUp s))) = uf_client_id (up_form s)"
  by (simp_all add: openAdd_def closeUp_def openedUp_def resetFormDiscovery_def addForm_def)

section \<open>Properties\<close>

text \<open>
  Claim C27: in every reachable state of the Upstreams page, a discovery the form panel shows,
  pending, answered or failed, was sent for exactly the connection fields the form holds now, and
  only in the Add dialog.
\<close>

theorem panel_describes_the_form:
  assumes "up_reach URL s" "up_formDiscovery s \<noteq> IDLE"
  shows "up_editing s = None \<and> connOf (up_form s) = connOf (up_asked s)"
  using panel_reach [OF assms(1)] assms(2) by (simp add: panel_inv_def panel_ok_def)

theorem panel_describes_the_form_witness:
  "\<exists>s :: up_state. up_formDiscovery s \<noteq> IDLE \<and> up_editing s = None \<and> connOf (up_form s) = connOf (up_asked s)"
proof -
  let ?URL = "\<lambda>_. Some \<lparr>url_protocol = js ''https:'', url_host = js ''a'', url_hostname = js ''a''\<rparr> :: url_parts option"
  let ?a = "openAdd (loadUpstreams (upBlank StorageAbsent []))"
  have r: "up_reach ?URL ?a" by (blast intro: up_reach.intros up_step.open_add)
  have "up_editing ?a = None" "discoverable ?URL (uf_url (up_form ?a))" "\<not> ds_pending (up_formDiscovery ?a)" "uf_auth_type (up_form ?a) \<noteq> js ''oauth''"
    by code_simp+
  then have "up_step ?URL ?a (discoverForm ?a)" by (rule up_step.discover)
  with r have d: "up_reach ?URL (discoverForm ?a)" by (rule up_reach.up_moved)
  have "up_formDiscovery (discoverForm ?a) \<noteq> IDLE" by code_simp
  with panel_describes_the_form [OF d this] show ?thesis by blast
qed



end
