(* ===== verification/ToolFilter.thy ===== *)
theory ToolFilter
  imports ToolEntry
begin

text \<open>
  A group's tool filter: \<open>web/src/lib/tool-filter.ts\<close>.

  \<open>parseToolFilter\<close> is the dashboard's verdict on a served filter (none, a filter, or
  unreadable), \<open>filterValue\<close> the value it sends back. The lemmas show what a readable filter
  satisfies, that printing and parsing are inverse on it, that \<open>sameFilter\<close> is equality of
  meaning and that equal meanings permit the same tools, and that the standing sentence for a
  dead allow filter is shown exactly when the filter admits no tool at all.
\<close>

section \<open>Forms and parsed filters\<close>

datatype filter_mode = NoMode | AllowMode | DenyMode

definition modeStr :: "filter_mode \<Rightarrow> jstr" where
  "modeStr m = (case m of NoMode \<Rightarrow> [] | AllowMode \<Rightarrow> js ''allow'' | DenyMode \<Rightarrow> js ''deny'')"

record filter_form =
  ff_mode :: filter_mode
  ff_tools :: "jstr list"
  ff_prefixes :: "jstr list"

datatype parsed_filter = PNone | PFilter filter_form | PUnreadable jstr

definition blankFilterForm :: filter_form where
  "blankFilterForm = \<lparr>ff_mode = NoMode, ff_tools = [], ff_prefixes = []\<rparr>"

text \<open>\<open>list.filter((e, i) => list.indexOf(e) === i)\<close>: the first occurrence of each entry.\<close>

definition unique :: "jstr list \<Rightarrow> jstr list" where
  "unique xs = rev (remdups (rev xs))"

section \<open>Parsing\<close>

definition filterMembers :: "jstr list" where
  "filterMembers = [js ''mode'', js ''tools'', js ''prefixes'']"

fun foldMembers :: "jobj \<Rightarrow> jobj \<Rightarrow> jobj option" where
  "foldMembers [] folded = Some folded"
| "foldMembers ((key, value) # rest) folded =
     (let k = toLowerCase key in
      if k \<notin> set filterMembers then None
      else if k = js ''mode'' \<and> value = JNull then foldMembers rest folded
      else foldMembers rest (objSet k value folded))"

text \<open>\<open>folded.mode ?? ''\<close>, read as one of the three modes.\<close>

definition readMode :: "jval option \<Rightarrow> filter_mode option" where
  "readMode v =
     (case v of
        None \<Rightarrow> Some NoMode
      | Some w \<Rightarrow>
          if w = JUndefined \<or> w = JNull \<or> w = JStr [] then Some NoMode
          else if w = JStr (js ''allow'') then Some AllowMode
          else if w = JStr (js ''deny'') then Some DenyMode
          else None)"

definition cleanString :: "jval \<Rightarrow> bool" where
  "cleanString v = (case v of JStr e \<Rightarrow> cleanEntry e | _ \<Rightarrow> False)"

definition strOf :: "jval \<Rightarrow> jstr" where
  "strOf v = (case v of JStr e \<Rightarrow> e | _ \<Rightarrow> [])"

definition readList :: "jval option \<Rightarrow> jstr list option" where
  "readList v =
     (case v of
        None \<Rightarrow> Some []
      | Some w \<Rightarrow>
          (case w of
             JUndefined \<Rightarrow> Some []
           | JNull \<Rightarrow> Some []
           | JArr es \<Rightarrow> if list_all cleanString es then Some (unique (map strOf es)) else None
           | _ \<Rightarrow> None))"

definition parseToolFilter :: "jval \<Rightarrow> parsed_filter" where
  "parseToolFilter raw =
     (let unreadable = PUnreadable (orElse (stringify raw) (jsToString raw)) in
      case raw of
        JUndefined \<Rightarrow> PNone
      | JNull \<Rightarrow> PNone
      | JObj ms \<Rightarrow>
          (case foldMembers ms [] of
             None \<Rightarrow> unreadable
           | Some folded \<Rightarrow>
               (case readMode (objGet (js ''mode'') folded) of
                  None \<Rightarrow> unreadable
                | Some mode \<Rightarrow>
                    (case (readList (objGet (js ''tools'') folded), readList (objGet (js ''prefixes'') folded)) of
                       (Some tools, Some prefixes) \<Rightarrow>
                         (let entries = length tools + length prefixes in
                          if mode = NoMode then (if entries = 0 then PNone else unreadable)
                          else if mode = AllowMode \<and> entries = 0 then unreadable
                          else PFilter \<lparr>ff_mode = mode, ff_tools = tools, ff_prefixes = prefixes\<rparr>)
                     | _ \<Rightarrow> unreadable)))
      | _ \<Rightarrow> unreadable)"

section \<open>The value sent\<close>

definition filterValue :: "filter_form \<Rightarrow> jval" where
  "filterValue f =
     (if ff_mode f = NoMode then JNull
      else JObj ([(js ''mode'', JStr (modeStr (ff_mode f)))] @
        (if length (ff_tools f) > 0 then [(js ''tools'', JArr (map JStr (ff_tools f)))] else []) @
        (if length (ff_prefixes f) > 0 then [(js ''prefixes'', JArr (map JStr (ff_prefixes f)))] else [])))"

section \<open>Comparing\<close>

text \<open>Two \<open>Set\<close>s: their sizes, then the members of the first in the second.\<close>

definition sameSet :: "jstr list \<Rightarrow> jstr list \<Rightarrow> bool" where
  "sameSet a b \<longleftrightarrow> length (remdups a) = length (remdups b) \<and> list_all (\<lambda>e. e \<in> set b) (remdups a)"

definition sameFilter :: "filter_form \<Rightarrow> filter_form \<Rightarrow> bool" where
  "sameFilter a b =
     (if ff_mode a = NoMode \<and> ff_mode b = NoMode then True
      else ff_mode a = ff_mode b \<and> sameSet (ff_tools a) (ff_tools b) \<and> sameSet (ff_prefixes a) (ff_prefixes b))"

definition sameEntries :: "jstr list option \<Rightarrow> jstr list option \<Rightarrow> bool" where
  "sameEntries a b = sameSet (orElse a []) (orElse b [])"

definition toggleEntry :: "jstr list \<Rightarrow> jstr \<Rightarrow> bool \<Rightarrow> jstr list" where
  "toggleEntry xs entry on =
     (if on then (if entry \<in> set xs then xs else xs @ [entry])
      else filter (\<lambda>e. e \<noteq> entry) xs)"

section \<open>Problems and standing sentences\<close>

definition ZERO_ENTRIES :: jstr where
  "ZERO_ENTRIES = js ''List at least one tool or prefix, or choose No filter.''"

definition modeSide :: "filter_mode \<Rightarrow> rule_side" where
  "modeSide m = (if m = AllowMode then AllowSide else DenySide)"

text \<open>The first problem of a list, \<open>''\<close> when there is none.\<close>

fun firstProblem :: "('e \<Rightarrow> jstr) \<Rightarrow> 'e list \<Rightarrow> jstr" where
  "firstProblem f [] = []"
| "firstProblem f (e # es) = (let p = f e in if p \<noteq> [] then p else firstProblem f es)"

definition filterProblem :: "filter_form \<Rightarrow> jstr" where
  "filterProblem f =
     (if ff_mode f = NoMode then []
      else if length (ff_tools f) + length (ff_prefixes f) = 0 then ZERO_ENTRIES
      else (let p = firstProblem (\<lambda>e. entryProblem e ToolKind (modeSide (ff_mode f)) True) (ff_tools f) in
        if p \<noteq> [] then p
        else firstProblem (\<lambda>e. entryProblem e PrefixKind (modeSide (ff_mode f)) True) (ff_prefixes f)))"

definition listProblem :: "jstr list \<Rightarrow> rule_side \<Rightarrow> bool \<Rightarrow> jstr" where
  "listProblem xs side groupTarget = firstProblem (\<lambda>e. entryProblem e ToolKind side groupTarget) xs"

definition filterAdmitsNothing :: "filter_form \<Rightarrow> jstr" where
  "filterAdmitsNothing f =
     (if ff_mode f \<noteq> AllowMode then []
      else (let entries = ff_tools f @ ff_prefixes f in
        if length entries = 0 \<or> list_ex (\<lambda>e. se_scoped (splitEntry e)) entries then []
        else js ''Every entry in this allow rule names no member, so it admits nothing and every tool on this group is blocked.''))"

definition filterListsNothing :: "filter_form \<Rightarrow> jstr" where
  "filterListsNothing f =
     (if ff_mode f = DenyMode \<and> length (ff_tools f) + length (ff_prefixes f) = 0
      then js ''This filter lists nothing, so it blocks nothing.'' else [])"

definition sideVerb :: "rule_side \<Rightarrow> jstr" where
  "sideVerb side = (if side = AllowSide then js ''Allows'' else js ''Denies'')"

definition addToolHint :: "rule_side \<Rightarrow> jstr" where
  "addToolHint side = sideVerb side @
     js '' one tool. Write its full name: the upstream's slug, two underscores, then the tool's own name.''"

definition addPrefixHint :: "rule_side \<Rightarrow> jstr" where
  "addPrefixHint side = sideVerb side @
     js '' every tool whose own name starts with this text, so it can match more than one. For a single tool, use the box above.''"

definition wholeMemberLabel :: "filter_mode \<Rightarrow> jstr \<Rightarrow> jstr" where
  "wholeMemberLabel mode slug =
     (if mode = AllowMode then js ''Allow'' else js ''Deny'') @ js '' every tool on '' @ slug @
     js '', including tools it adds later.''"

definition wholeMemberPrefix :: "jstr \<Rightarrow> jstr" where
  "wholeMemberPrefix slug = slug @ TOOL_SEPARATOR"

definition clampText :: "jstr \<Rightarrow> nat \<Rightarrow> jstr \<times> bool" where
  "clampText s mx =
     (let points = codePoints s in
      if length points \<le> mx then (s, False) else (concat (take mx points), True))"

section \<open>Laws\<close>

lemma set_unique [simp]: "set (unique xs) = set xs"
  by (simp add: unique_def)

lemma distinct_unique [simp]: "distinct (unique xs)"
  by (simp add: unique_def)

lemma unique_id: "distinct xs \<Longrightarrow> unique xs = xs"
  by (simp add: unique_def distinct_remdups_id)

lemma unique_eq_Nil [simp]: "unique xs = [] \<longleftrightarrow> xs = []"
  by (simp add: unique_def)

lemma sameSet_iff: "sameSet a b \<longleftrightarrow> set a = set b"
proof
  assume "sameSet a b"
  then have "card (set a) = card (set b)" "set a \<subseteq> set b"
    by (auto simp: sameSet_def list_all_iff length_remdups_card_conv)
  then show "set a = set b" by (simp add: card_subset_eq)
next
  assume "set a = set b"
  then show "sameSet a b" by (simp add: sameSet_def list_all_iff length_remdups_card_conv)
qed

interpretation same_set: comparison sameSet set
  by unfold_locales (rule sameSet_iff)

interpretation same_entries: comparison sameEntries "\<lambda>x. set (orElse x [])"
  by unfold_locales (simp add: sameEntries_def sameSet_iff)

text \<open>What a form means: nothing under No filter, else the mode and the two sets.\<close>

definition filterMeaning :: "filter_form \<Rightarrow> (filter_mode \<times> jstr set \<times> jstr set) option" where
  "filterMeaning f =
     (if ff_mode f = NoMode then None else Some (ff_mode f, set (ff_tools f), set (ff_prefixes f)))"

interpretation same_filter: comparison sameFilter filterMeaning
  by unfold_locales (auto simp: sameFilter_def filterMeaning_def sameSet_iff)

definition formPermits :: "filter_form \<Rightarrow> jstr \<Rightarrow> jstr \<Rightarrow> bool" where
  "formPermits f = filterPermits (modeStr (ff_mode f)) (ff_tools f) (ff_prefixes f)"

lemma modeStr_simps [simp]:
  "modeStr NoMode = []" "modeStr AllowMode = js ''allow''" "modeStr DenyMode = js ''deny''"
  by (simp_all add: modeStr_def)

lemma formPermits_sameFilter:
  assumes "sameFilter a b"
  shows "formPermits a = formPermits b"
proof (cases "ff_mode a = NoMode")
  case True
  with assms have "ff_mode b = NoMode" by (auto simp: sameFilter_def split: if_splits)
  with True show ?thesis by (simp add: formPermits_def filterPermits_def fun_eq_iff)
next
  case False
  with assms have "ff_mode a = ff_mode b" "set (ff_tools a) = set (ff_tools b)" "set (ff_prefixes a) = set (ff_prefixes b)"
    by (auto simp: sameFilter_def sameSet_iff split: if_splits)
  then show ?thesis
    unfolding formPermits_def fun_eq_iff by (metis filterPermits_set_cong)
qed

lemma firstProblem_none_iff: "firstProblem f es = [] \<longleftrightarrow> (\<forall>e \<in> set es. f e = [])"
  by (induction es) (auto simp: Let_def)

lemma filterProblem_none_iff:
  "filterProblem f = [] \<longleftrightarrow>
     ff_mode f = NoMode \<or>
     ((ff_tools f \<noteq> [] \<or> ff_prefixes f \<noteq> []) \<and>
      (\<forall>e \<in> set (ff_tools f). entryProblem e ToolKind (modeSide (ff_mode f)) True = []) \<and>
      (\<forall>e \<in> set (ff_prefixes f). entryProblem e PrefixKind (modeSide (ff_mode f)) True = []))"
  by (auto simp: filterProblem_def Let_def ZERO_ENTRIES_def firstProblem_none_iff)

section \<open>Readable filters\<close>

definition wfFilter :: "filter_form \<Rightarrow> bool" where
  "wfFilter f \<longleftrightarrow> ff_mode f \<noteq> NoMode \<and> distinct (ff_tools f) \<and> distinct (ff_prefixes f) \<and>
     (\<forall>e \<in> set (ff_tools f) \<union> set (ff_prefixes f). cleanEntry e) \<and>
     (ff_mode f = AllowMode \<longrightarrow> ff_tools f \<noteq> [] \<or> ff_prefixes f \<noteq> [])"

lemma readList_wf: "readList v = Some xs \<Longrightarrow> distinct xs \<and> (\<forall>e \<in> set xs. cleanEntry e)"
  by (auto simp: readList_def list_all_iff cleanString_def strOf_def split: option.splits jval.splits if_splits)

lemma parseToolFilter_wf:
  assumes "parseToolFilter raw = PFilter f"
  shows "wfFilter f"
proof -
  from assms obtain ms folded where "raw = JObj ms" "foldMembers ms [] = Some folded"
    by (auto simp: parseToolFilter_def Let_def split: jval.splits option.splits)
  with assms obtain mode tools prefixes where
    l: "readList (objGet (js ''tools'') folded) = Some tools" "readList (objGet (js ''prefixes'') folded) = Some prefixes"
    and f: "f = \<lparr>ff_mode = mode, ff_tools = tools, ff_prefixes = prefixes\<rparr>"
    and m: "mode \<noteq> NoMode" "mode = AllowMode \<longrightarrow> length tools + length prefixes \<noteq> 0"
    by (auto simp: parseToolFilter_def Let_def split: option.splits if_splits)
  from l have "distinct tools" "\<forall>e \<in> set tools. cleanEntry e" "distinct prefixes" "\<forall>e \<in> set prefixes. cleanEntry e"
    by (auto dest: readList_wf)
  with f m show ?thesis by (auto simp: wfFilter_def)
qed

lemma toLowerCase_members:
  "toLowerCase (js ''mode'') = js ''mode''" "toLowerCase (js ''tools'') = js ''tools''"
  "toLowerCase (js ''prefixes'') = js ''prefixes''"
  by (simp_all add: toLowerCase_def lowerUnit_def js_def)

lemma readList_map_JStr:
  assumes "distinct xs" "\<forall>e \<in> set xs. cleanEntry e"
  shows "readList (Some (JArr (map JStr xs))) = Some xs"
proof -
  have "list_all cleanString (map JStr xs)"
    using assms(2) by (auto simp: list_all_iff cleanString_def)
  moreover have "map strOf (map JStr xs) = xs"
    by (simp add: strOf_def comp_def)
  ultimately show ?thesis using assms(1) by (simp add: readList_def unique_id comp_def)
qed

text \<open>Printing a readable filter and parsing it again gives the filter back.\<close>

lemma foldMembers_filterValue:
  "foldMembers ([(js ''mode'', JStr m)] @ (if t then [(js ''tools'', tv)] else []) @ (if p then [(js ''prefixes'', pv)] else [])) [] =
   Some ([(js ''mode'', JStr m)] @ (if t then [(js ''tools'', tv)] else []) @ (if p then [(js ''prefixes'', pv)] else []))"
  by (simp add: filterMembers_def toLowerCase_members Let_def)

lemma parse_filterValue:
  assumes "wfFilter f"
  shows "parseToolFilter (filterValue f) = PFilter f"
proof -
  let ?ms = "[(js ''mode'', JStr (modeStr (ff_mode f)))] @
    (if length (ff_tools f) > 0 then [(js ''tools'', JArr (map JStr (ff_tools f)))] else []) @
    (if length (ff_prefixes f) > 0 then [(js ''prefixes'', JArr (map JStr (ff_prefixes f)))] else [])"
  from assms have m: "ff_mode f \<noteq> NoMode" and d: "distinct (ff_tools f)" "distinct (ff_prefixes f)"
    and c: "\<forall>e \<in> set (ff_tools f). cleanEntry e" "\<forall>e \<in> set (ff_prefixes f). cleanEntry e"
    and ne: "ff_mode f = AllowMode \<longrightarrow> ff_tools f \<noteq> [] \<or> ff_prefixes f \<noteq> []"
    by (auto simp: wfFilter_def)
  have "filterValue f = JObj ?ms" using m by (simp add: filterValue_def)
  moreover have "foldMembers ?ms [] = Some ?ms" by (rule foldMembers_filterValue)
  moreover have "readMode (objGet (js ''mode'') ?ms) = Some (ff_mode f)"
    using m by (cases "ff_mode f") (simp_all add: readMode_def)
  moreover have "readList (objGet (js ''tools'') ?ms) = Some (ff_tools f)"
    using readList_map_JStr [OF d(1) c(1)] by (auto simp: readList_def)
  moreover have "readList (objGet (js ''prefixes'') ?ms) = Some (ff_prefixes f)"
    using readList_map_JStr [OF d(2) c(2)] by (auto simp: readList_def)
  ultimately show ?thesis using m ne by (simp add: parseToolFilter_def del: append.simps)
qed

lemma sendable_wfFilter:
  assumes "filterProblem f = []" "ff_mode f \<noteq> NoMode" "distinct (ff_tools f)" "distinct (ff_prefixes f)"
  shows "wfFilter f"
  using assms by (auto simp: filterProblem_none_iff wfFilter_def entryProblem_none_iff)

section \<open>Dead filters\<close>

lemma admits_nothing_iff:
  assumes "ff_mode f = AllowMode" "ff_tools f \<noteq> [] \<or> ff_prefixes f \<noteq> []"
  shows "filterAdmitsNothing f \<noteq> [] \<longleftrightarrow> (\<forall>slug name. \<not> formPermits f slug name)"
proof
  assume "filterAdmitsNothing f \<noteq> []"
  with assms have "\<forall>e \<in> set (ff_tools f) \<union> set (ff_prefixes f). \<not> se_scoped (splitEntry e)"
    by (auto simp: filterAdmitsNothing_def Let_def list_ex_iff split: if_splits)
  then show "\<forall>slug name. \<not> formPermits f slug name"
    using assms(1) filter_list.lists_all_skipped [of "ff_tools f" True] filter_list.lists_all_skipped [of "ff_prefixes f" True]
    by (simp add: formPermits_def filterPermits_listed)
next
  assume none: "\<forall>slug name. \<not> formPermits f slug name"
  show "filterAdmitsNothing f \<noteq> []"
  proof
    assume "filterAdmitsNothing f = []"
    with assms obtain e where e: "e \<in> set (ff_tools f @ ff_prefixes f)" "se_scoped (splitEntry e)"
      by (auto simp: filterAdmitsNothing_def Let_def list_ex_iff split: if_splits)
    let ?s = "se_head (splitEntry e)" let ?n = "se_rest (splitEntry e)"
    have "matchToolEntry e ?s ?n b" for b
      using matchToolEntry_scoped [OF e(2)] startsWith_append [of ?n "[]"] by simp
    with e have "listedBy False True (ff_tools f) (?s, ?n) \<or> listedBy True True (ff_prefixes f) (?s, ?n)"
      by (auto simp: filter_list.lists_iff)
    with none assms(1) show False by (simp add: formPermits_def filterPermits_listed)
  qed
qed

section \<open>Editing a list\<close>

lemma set_toggleEntry: "set (toggleEntry xs e on) = (if on then insert e (set xs) else set xs - {e})"
  by (auto simp: toggleEntry_def)

lemma distinct_toggleEntry: "distinct xs \<Longrightarrow> distinct (toggleEntry xs e on)"
  by (simp add: toggleEntry_def)

lemma toggleEntry_off_on:
  "e \<notin> set xs \<Longrightarrow> toggleEntry (toggleEntry xs e True) e False = xs"
  by (auto simp: toggleEntry_def filter_id_conv)

lemma wholeMemberPrefix_matches:
  assumes "validSlug slug"
  shows "matchToolEntry (wholeMemberPrefix slug) slug' name True \<longleftrightarrow> slug' = slug"
proof -
  have "wholeMemberPrefix slug = scopedToolName slug []"
    using validSlug_ends(1) [OF assms] by (simp add: wholeMemberPrefix_def scopedToolName_def)
  then show ?thesis by (simp add: matchToolEntry_own [OF assms])
qed

lemma codePoints_Cons: "\<exists>p ps. codePoints (c # cs) = (c # p) # ps"
  by (cases cs) auto

lemma codePoints_take: "codePoints (concat (take n (codePoints s))) = take n (codePoints s)"
proof (induction s arbitrary: n rule: codePoints.induct)
  case (3 c d cs)
  show ?case
  proof (cases n)
    case (Suc k)
    show ?thesis
    proof (cases "isHighSurrogate c \<and> isLowSurrogate d")
      case True
      with 3 Suc show ?thesis by simp
    next
      case False
      with 3 have IH: "codePoints (concat (take k (codePoints (d # cs)))) = take k (codePoints (d # cs))" by blast
      have "codePoints (c # concat (take k (codePoints (d # cs)))) = [c] # codePoints (concat (take k (codePoints (d # cs))))"
      proof (cases "concat (take k (codePoints (d # cs)))")
        case (Cons x xs)
        then obtain j where "k = Suc j" by (cases k) auto
        moreover obtain p ps where "codePoints (d # cs) = (d # p) # ps" using codePoints_Cons by blast
        ultimately have "x = d" using Cons by simp
        with False Cons show ?thesis by simp
      next
        case Nil
        show ?thesis unfolding Nil by simp
      qed
      with IH False Suc show ?thesis by auto
    qed
  qed simp
next
  case (2 c)
  then show ?case by (cases n) auto
qed simp

section \<open>Properties\<close>

text \<open>
  Claim C10: a served filter that reads as a filter is printed by filterValue as a value that reads
  as the same filter: opening and saving a group cannot change its filter.
\<close>

theorem readable_filter_round_trip:
  assumes "parseToolFilter raw = PFilter f"
  shows "parseToolFilter (filterValue f) = PFilter f"
  using assms by (intro parse_filterValue parseToolFilter_wf)

theorem readable_filter_round_trip_witness:
  "parseToolFilter (filterValue \<lparr>ff_mode = DenyMode, ff_tools = [js ''github__read''], ff_prefixes = []\<rparr>) =
     PFilter \<lparr>ff_mode = DenyMode, ff_tools = [js ''github__read''], ff_prefixes = []\<rparr>"
proof (rule readable_filter_round_trip)
  let ?ms = "[(js ''Mode'', JStr (js ''deny'')), (js ''TOOLS'', JArr [JStr (js ''github__read''), JStr (js ''github__read'')])]"
  have "foldMembers ?ms [] = Some [(js ''mode'', JStr (js ''deny'')), (js ''tools'', JArr [JStr (js ''github__read''), JStr (js ''github__read'')])]"
    "readMode (Some (JStr (js ''deny''))) = Some DenyMode" by code_simp+
  moreover have "readList (Some (JArr [JStr (js ''github__read''), JStr (js ''github__read'')])) = Some [js ''github__read'']" "readList None = Some []"
    by (simp_all add: readList_def cleanString_def strOf_def unique_def clean_eval)
  ultimately show "parseToolFilter (JObj ?ms) = PFilter \<lparr>ff_mode = DenyMode, ff_tools = [js ''github__read''], ff_prefixes = []\<rparr>"
    by (simp add: parseToolFilter_def)
qed

text \<open>
  Two filter forms that sameFilter calls the same permit exactly the same tools.
\<close>

theorem same_filter_same_policy:
  assumes "sameFilter a b"
  shows "formPermits a slug name = formPermits b slug name"
  using formPermits_sameFilter [OF assms] by simp

theorem same_filter_same_policy_witness:
  "formPermits \<lparr>ff_mode = AllowMode, ff_tools = [js ''a__x'', js ''a__y''], ff_prefixes = []\<rparr> (js ''a'') (js ''y'') =
   formPermits \<lparr>ff_mode = AllowMode, ff_tools = [js ''a__y'', js ''a__x'', js ''a__y''], ff_prefixes = []\<rparr> (js ''a'') (js ''y'')"
  by (rule same_filter_same_policy) (simp add: sameFilter_def sameSet_iff insert_commute)



end
