(* ===== verification/Catalogue.thy ===== *)
theory Catalogue
  imports ToolFilter
begin

text \<open>
  What a Load tools press learned: \<open>web/src/lib/catalogue.ts\<close>.

  A catalogue is the list of a target's members with the tools each one answered. The rule of
  the file is that a flag or a warning is computed over a complete catalogue only. The lemmas
  show what each verdict claims: \<open>unmatchedEntries\<close> names exactly the entries no advertised
  tool matches, \<open>coveringEntry\<close> finds an entry other than a row's own exactly when one names
  the row, \<open>blocksEverything\<close> holds exactly when the enabled members advertise a tool and none
  gets through.
\<close>

section \<open>Members\<close>

record member =
  m_upstream_id :: jstr
  m_slug :: jstr
  m_name :: jstr
  m_enabled :: bool
  m_transport :: jstr
  m_kind :: jstr

datatype member_state = IdleState | LoadingState | OkState | FailedState

text \<open>\<open>MemberCatalogue\<close> is \<open>Member & { ... }\<close>; the member's own fields are kept together.\<close>

record member_catalogue =
  mc_member :: member
  mc_state :: member_state
  mc_tools :: "discovered_tool list"
  mc_truncated :: bool
  mc_unnameable :: nat
  mc_error :: jstr

type_synonym catalogue = "member_catalogue list"

definition mc_slug :: "member_catalogue \<Rightarrow> jstr" where
  "mc_slug m = m_slug (mc_member m)"

definition idleMember :: "member \<Rightarrow> member_catalogue" where
  "idleMember m = \<lparr>mc_member = m, mc_state = IdleState, mc_tools = [], mc_truncated = False, mc_unnameable = 0, mc_error = []\<rparr>"

definition memberFromDiscovery :: "member \<Rightarrow> discovery \<Rightarrow> member_catalogue" where
  "memberFromDiscovery m d =
     (if \<not> d_ok d then
        (let said = (if orElse (d_upstream_message d) [] \<noteq> []
                     then js '' The server said: '' @ orElse (d_upstream_message d) [] else [])
         in (idleMember m)\<lparr>mc_state := FailedState,
              mc_error := orStr (orElse (d_error d) []) (js ''That server could not be reached.'') @ said\<rparr>)
      else \<lparr>mc_member = m, mc_state = OkState, mc_tools = orElse (d_tools d) [], mc_truncated = d_truncated d,
            mc_unnameable = orElse (d_unnameable_tools d) 0, mc_error = []\<rparr>)"

section \<open>Complete catalogues\<close>

definition whole :: "member_catalogue \<Rightarrow> bool" where
  "whole m \<longleftrightarrow> mc_state m = OkState \<and> \<not> mc_truncated m"

definition catalogueComplete :: "catalogue \<Rightarrow> bool" where
  "catalogueComplete c \<longleftrightarrow> length c > 0 \<and> list_all whole c"

definition incompleteMembers :: "catalogue \<Rightarrow> jstr list" where
  "incompleteMembers c = map (\<lambda>m. m_name (mc_member m)) (filter (\<lambda>m. \<not> whole m) c)"

definition unmatchedEntries :: "jstr list \<Rightarrow> catalogue \<Rightarrow> bool \<Rightarrow> jstr list" where
  "unmatchedEntries entries c isPrefix =
     (if \<not> catalogueComplete c then []
      else filter (\<lambda>e. \<not> list_ex (\<lambda>m. list_ex (\<lambda>t. matchToolEntry e (mc_slug m) (t_name t) isPrefix) (mc_tools m)) c) entries)"

section \<open>Covered rows\<close>

fun firstThat :: "('e \<Rightarrow> bool) \<Rightarrow> 'e list \<Rightarrow> 'e option" where
  "firstThat P [] = None"
| "firstThat P (e # es) = (if P e then Some e else firstThat P es)"

definition coveringEntry :: "jstr \<Rightarrow> jstr \<Rightarrow> jstr list \<Rightarrow> jstr list \<Rightarrow> rule_side \<Rightarrow> bool \<Rightarrow> jstr" where
  "coveringEntry slug name tools prefixes side groupTarget =
     (let own = scopedToolName slug name;
          skipped = (\<lambda>e. side = AllowSide \<and> groupTarget \<and> \<not> se_scoped (splitEntry e))
      in case firstThat (\<lambda>e. e \<noteq> own \<and> \<not> skipped e \<and> matchToolEntry e slug name False) tools of
           Some e \<Rightarrow> e
         | None \<Rightarrow> orElse (firstThat (\<lambda>e. \<not> skipped e \<and> matchToolEntry e slug name True) prefixes) [])"

section \<open>Filters that block everything\<close>

text \<open>The two nested loops with their early return: \<open>None\<close> is \<open>return false\<close>, \<open>Some seen\<close> the
  value of \<open>seen\<close> when the loop ends.\<close>

fun scanTools :: "(jstr \<Rightarrow> jstr \<Rightarrow> bool) \<Rightarrow> jstr \<Rightarrow> discovered_tool list \<Rightarrow> bool \<Rightarrow> bool option" where
  "scanTools permits slug [] seen = Some seen"
| "scanTools permits slug (t # ts) seen =
     (if permits slug (t_name t) then None else scanTools permits slug ts True)"

fun scanMembers :: "(jstr \<Rightarrow> jstr \<Rightarrow> bool) \<Rightarrow> catalogue \<Rightarrow> bool \<Rightarrow> bool option" where
  "scanMembers permits [] seen = Some seen"
| "scanMembers permits (m # ms) seen =
     (if \<not> m_enabled (mc_member m) then scanMembers permits ms seen
      else (case scanTools permits (mc_slug m) (mc_tools m) seen of
              None \<Rightarrow> None | Some seen' \<Rightarrow> scanMembers permits ms seen'))"

definition blocksEverything :: "(jstr \<Rightarrow> jstr \<Rightarrow> bool) \<Rightarrow> catalogue \<Rightarrow> bool" where
  "blocksEverything permits c =
     (if \<not> catalogueComplete c then False else orElse (scanMembers permits c False) False)"

section \<open>Sentences\<close>

definition coveredNote :: "jstr \<Rightarrow> jstr" where
  "coveredNote entry = js ''Covered by '' @ entry @ js ''. Change it in the entries above.''"

definition catalogueSummary :: "catalogue \<Rightarrow> jstr" where
  "catalogueSummary c =
     (let failed = length (filter (\<lambda>m. mc_state m = FailedState) c);
          ok = map (\<lambda>m. m_name (mc_member m) @ js '', '' @ showNat (length (mc_tools m)) @ js '' '' @
                 (if length (mc_tools m) = 1 then js ''tool'' else js ''tools'') @ js ''.'')
               (filter (\<lambda>m. mc_state m = OkState) c);
          ok' = (if failed > 0
                 then ok @ [showNat failed @ js '' '' @ (if failed = 1 then js ''upstream'' else js ''upstreams'') @ js '' could not be loaded.'']
                 else ok)
      in joinWith (js '' '') ok')"

definition incompleteLine :: "catalogue \<Rightarrow> jstr" where
  "incompleteLine c =
     (if list_all (\<lambda>m. mc_state m = IdleState) c then []
      else (let names = incompleteMembers c in
        if length names = 0 then []
        else js ''Entries are not checked against what is advertised, because '' @
          (if length names = 1 then js ''one catalogue is incomplete'' else js ''these catalogues are incomplete'') @
          js '': '' @ joinWith (js '', '') names @ js ''.''))"

definition truncatedNote :: "nat \<Rightarrow> jstr" where
  "truncatedNote shown = js ''Not every tool is listed. '' @ showNat shown @ js '' shown. This server offers more.''"

definition unnameableNote :: "nat \<Rightarrow> jstr" where
  "unnameableNote n =
     (if n = 0 then []
      else if n = 1 then js ''1 tool is not listed: its name contains characters PoryMCP cannot hold a caller to.''
      else showNat n @ js '' tools are not listed: their names contain characters PoryMCP cannot hold a caller to.'')"

definition unnameableRowNote :: "rule_side \<Rightarrow> bool \<Rightarrow> bool \<Rightarrow> jstr" where
  "unnameableRowNote side hasPrefixes covered =
     (let base = js ''This name holds a space or a control character, so no tool entry can name it.'' in
      if covered then base
      else base @ (if hasPrefixes then js '' A prefix that stops before that character can.'' else []) @
        (if side = AllowSide then js '' It stays blocked, because it is not on the list.'' else []))"

definition notAdvertisedNote :: "rule_side \<Rightarrow> bool \<Rightarrow> jstr" where
  "notAdvertisedNote side keyList =
     (if keyList then js ''No tool advertised right now carries this name. The rule is kept.''
      else if side = AllowSide then js ''No member advertises this tool right now, so this entry admits nothing.''
      else js ''No member advertises this tool right now. The rule is kept and applies if the tool comes back.'')"

datatype mark_badge = NoBadge | CannotBeSaved | AlsoDenied | NotAdvertised | PrefixBadge | AnyMember

record entry_mark =
  em_badge :: mark_badge
  em_note :: jstr

definition entryMark ::
  "jstr \<Rightarrow> entry_kind \<Rightarrow> rule_side \<Rightarrow> bool \<Rightarrow> bool \<Rightarrow> jstr list \<Rightarrow> jstr option \<Rightarrow> jstr option \<Rightarrow> entry_mark" where
  "entryMark entry kind side groupTarget keyList unmatched overruled prefixNote =
     (let problem = entryProblem entry kind side groupTarget in
      if problem \<noteq> [] then \<lparr>em_badge = CannotBeSaved, em_note = problem\<rparr>
      else if orElse overruled [] \<noteq> [] then \<lparr>em_badge = AlsoDenied, em_note = orElse overruled []\<rparr>
      else if entry \<in> set unmatched then \<lparr>em_badge = NotAdvertised, em_note = notAdvertisedNote side keyList\<rparr>
      else if kind = PrefixKind then \<lparr>em_badge = PrefixBadge, em_note = orElse prefixNote []\<rparr>
      else if groupTarget \<and> \<not> se_scoped (splitEntry entry) then \<lparr>em_badge = AnyMember, em_note = []\<rparr>
      else \<lparr>em_badge = NoBadge, em_note = []\<rparr>)"

section \<open>Laws\<close>

text \<open>The tools a catalogue advertises, and those of its enabled members.\<close>

definition advertised :: "catalogue \<Rightarrow> (jstr \<times> jstr) set" where
  "advertised c = {(mc_slug m, t_name t) | m t. m \<in> set c \<and> t \<in> set (mc_tools m)}"

definition callable :: "catalogue \<Rightarrow> (jstr \<times> jstr) set" where
  "callable c = {(mc_slug m, t_name t) | m t. m \<in> set c \<and> m_enabled (mc_member m) \<and> t \<in> set (mc_tools m)}"

lemma idleMember_sel [simp]:
  "mc_member (idleMember m) = m" "mc_state (idleMember m) = IdleState" "mc_tools (idleMember m) = []"
  by (simp_all add: idleMember_def)

lemma memberFromDiscovery_sel [simp]:
  "mc_member (memberFromDiscovery m d) = m"
  "mc_state (memberFromDiscovery m d) = (if d_ok d then OkState else FailedState)"
  by (simp_all add: memberFromDiscovery_def Let_def)

lemma catalogueComplete_iff:
  "catalogueComplete c \<longleftrightarrow> c \<noteq> [] \<and> (\<forall>m \<in> set c. mc_state m = OkState \<and> \<not> mc_truncated m)"
  by (auto simp: catalogueComplete_def whole_def list_all_iff)

lemma incompleteMembers_complete: "c \<noteq> [] \<Longrightarrow> incompleteMembers c = [] \<longleftrightarrow> catalogueComplete c"
  by (auto simp: incompleteMembers_def catalogueComplete_def list_all_iff filter_empty_conv)

lemma unmatchedEntries_iff:
  "e \<in> set (unmatchedEntries entries c p) \<longleftrightarrow>
     catalogueComplete c \<and> e \<in> set entries \<and> (\<forall>(slug, name) \<in> advertised c. \<not> matchToolEntry e slug name p)"
  by (auto simp: unmatchedEntries_def advertised_def list_ex_iff)

lemma firstThat_Some: "firstThat P es = Some e \<Longrightarrow> e \<in> set es \<and> P e"
  by (induction es) (auto split: if_splits)

lemma firstThat_None: "firstThat P es = None \<longleftrightarrow> (\<forall>e \<in> set es. \<not> P e)"
  by (induction es) auto

lemma matchToolEntry_nonempty: "matchToolEntry e slug name p \<Longrightarrow> e \<noteq> []"
  by (auto simp: matchToolEntry_def)

text \<open>The entries that name a row besides its own.\<close>

definition covers :: "jstr \<Rightarrow> jstr \<Rightarrow> jstr list \<Rightarrow> jstr list \<Rightarrow> rule_side \<Rightarrow> bool \<Rightarrow> jstr set" where
  "covers slug name tools prefixes side groupTarget =
     {e. \<not> (side = AllowSide \<and> groupTarget \<and> \<not> se_scoped (splitEntry e)) \<and>
         ((e \<in> set tools \<and> e \<noteq> scopedToolName slug name \<and> matchToolEntry e slug name False) \<or>
          (e \<in> set prefixes \<and> matchToolEntry e slug name True))}"

lemma coveringEntry_covers:
  assumes "coveringEntry slug name tools prefixes side groupTarget \<noteq> []"
  shows "coveringEntry slug name tools prefixes side groupTarget \<in> covers slug name tools prefixes side groupTarget"
proof (cases "firstThat (\<lambda>e. e \<noteq> scopedToolName slug name \<and> \<not> (side = AllowSide \<and> groupTarget \<and> \<not> se_scoped (splitEntry e)) \<and>
      matchToolEntry e slug name False) tools")
  case (Some e)
  then have "coveringEntry slug name tools prefixes side groupTarget = e"
    by (simp add: coveringEntry_def Let_def)
  with firstThat_Some [OF Some] show ?thesis by (auto simp: covers_def)
next
  case None
  with assms obtain e where e: "firstThat (\<lambda>e. \<not> (side = AllowSide \<and> groupTarget \<and> \<not> se_scoped (splitEntry e)) \<and>
      matchToolEntry e slug name True) prefixes = Some e" "coveringEntry slug name tools prefixes side groupTarget = e"
    by (auto simp: coveringEntry_def Let_def orElse_def split: option.splits)
  with firstThat_Some [OF e(1)] show ?thesis by (auto simp: covers_def)
qed

lemma coveringEntry_none_iff:
  "coveringEntry slug name tools prefixes side groupTarget = [] \<longleftrightarrow> covers slug name tools prefixes side groupTarget = {}"
proof
  assume "covers slug name tools prefixes side groupTarget = {}"
  with coveringEntry_covers show "coveringEntry slug name tools prefixes side groupTarget = []" by blast
next
  assume c: "coveringEntry slug name tools prefixes side groupTarget = []"
  let ?sk = "\<lambda>e. side = AllowSide \<and> groupTarget \<and> \<not> se_scoped (splitEntry e)"
  let ?P = "\<lambda>e. e \<noteq> scopedToolName slug name \<and> \<not> ?sk e \<and> matchToolEntry e slug name False"
  let ?Q = "\<lambda>e. \<not> ?sk e \<and> matchToolEntry e slug name True"
  have t: "firstThat ?P tools = None"
  proof (cases "firstThat ?P tools")
    case (Some e)
    with c have "e = []" by (simp add: coveringEntry_def Let_def)
    with firstThat_Some [OF Some] show ?thesis by (auto dest: matchToolEntry_nonempty)
  qed
  have "firstThat ?Q prefixes = None"
  proof (cases "firstThat ?Q prefixes")
    case (Some e)
    with c t have "e = []" by (simp add: coveringEntry_def Let_def)
    with firstThat_Some [OF Some] show ?thesis by (auto dest: matchToolEntry_nonempty)
  qed
  with t show "covers slug name tools prefixes side groupTarget = {}"
    by (auto simp: firstThat_None covers_def)
qed

lemma scanTools_iff:
  "scanTools permits slug ts seen =
     (if \<exists>t \<in> set ts. permits slug (t_name t) then None else Some (seen \<or> ts \<noteq> []))"
  by (induction ts arbitrary: seen) auto

lemma callable_Cons:
  "callable (m # ms) = (if m_enabled (mc_member m) then (\<lambda>t. (mc_slug m, t_name t)) ` set (mc_tools m) else {}) \<union> callable ms"
  by (auto simp: callable_def)

lemma scanMembers_iff:
  "scanMembers permits c seen =
     (if \<exists>(slug, name) \<in> callable c. permits slug name then None else Some (seen \<or> callable c \<noteq> {}))"
proof (induction c arbitrary: seen)
  case Nil
  show ?case by (simp add: callable_def)
next
  case (Cons m ms)
  then show ?case
    by (auto simp: callable_Cons scanTools_iff split: if_splits)
qed

lemma blocksEverything_iff:
  "blocksEverything permits c \<longleftrightarrow>
     catalogueComplete c \<and> callable c \<noteq> {} \<and> (\<forall>(slug, name) \<in> callable c. \<not> permits slug name)"
  by (auto simp: blocksEverything_def scanMembers_iff)

section \<open>Properties\<close>

text \<open>
  Claim C14: the warning that a rule blocks everything is given exactly when every member answered
  in full, the enabled members advertise at least one tool, and the rule permits none of them.
\<close>

theorem blocks_everything_exact:
  "blocksEverything permits c \<longleftrightarrow>
     catalogueComplete c \<and> callable c \<noteq> {} \<and> (\<forall>(slug, name) \<in> callable c. \<not> permits slug name)"
  by (rule blocksEverything_iff)

theorem blocks_everything_exact_witness:
  "\<not> blocksEverything (\<lambda>slug name. name = js ''read'')
     [memberFromDiscovery \<lparr>m_upstream_id = [], m_slug = js ''a'', m_name = [], m_enabled = True, m_transport = [], m_kind = []\<rparr>
        \<lparr>d_ok = True, d_kind = [], d_http_status = None, d_latency_ms = 0, d_protocol_version = None, d_era = None, d_slug = None,
         d_tool_count = 1, d_tools = Some [\<lparr>t_name = js ''read'', t_title = None, t_description = None, t_description_truncated = False, t_scoped_name = None\<rparr>],
         d_truncated = False, d_unnameable_tools = None, d_error = None, d_upstream_message = None\<rparr>]"
  unfolding blocks_everything_exact by (auto simp: callable_def memberFromDiscovery_def mc_slug_def)

text \<open>
  An entry is flagged as matching nothing exactly when the catalogue is complete and no advertised
  tool matches it.
\<close>

theorem unmatched_entries_exact:
  "e \<in> set (unmatchedEntries entries c isPrefix) \<longleftrightarrow>
     catalogueComplete c \<and> e \<in> set entries \<and> (\<forall>(slug, name) \<in> advertised c. \<not> matchToolEntry e slug name isPrefix)"
  by (rule unmatchedEntries_iff)

theorem unmatched_entries_exact_witness:
  "js ''a__read'' \<notin> set (unmatchedEntries [js ''a__read'']
     [idleMember \<lparr>m_upstream_id = [], m_slug = js ''a'', m_name = [], m_enabled = True, m_transport = [], m_kind = []\<rparr>] False)"
  unfolding unmatched_entries_exact by (simp add: catalogueComplete_iff)

end
