(* ===== verification/RuleConflicts.thy ===== *)
theory RuleConflicts
  imports Catalogue
begin

text \<open>
  What one rule does to another: \<open>web/src/lib/rule-conflicts.ts\<close>, judged against the proxy's own
  decision (\<open>internal/proxy/policy.go\<close>, \<open>matchesAny\<close> and \<open>blockedBy\<close> on a resolved identity).

  The proxy checks a key's deny list, then its allow list, then the group's filter. The
  dashboard's sentences claim what those checks add up to. The lemmas show that the claims
  hold of the proxy's decision: a key said to call nothing calls nothing, a tool said to be
  blocked by the group is blocked, and the names beside a prefix are exactly the advertised
  tools it matches.
\<close>

section \<open>The proxy's decision\<close>

datatype block_reason = InvalidFilter | InvalidKeyLists | KeyDenylist | KeyAllowlist | GroupFilter

record tool_policy =
  tp_mode :: jstr
  tp_tools :: "jstr list"
  tp_prefixes :: "jstr list"
  tp_allow :: "jstr list"
  tp_deny :: "jstr list"
  tp_groupTarget :: bool
  tp_malformed :: bool
  tp_listsMalformed :: bool

definition matchesAny :: "tool_policy \<Rightarrow> jstr list \<Rightarrow> jstr \<Rightarrow> jstr \<Rightarrow> bool \<Rightarrow> bool \<Rightarrow> bool" where
  "matchesAny p entries slug name isPrefix allowSide =
     list_ex (\<lambda>e. \<not> (allowSide \<and> tp_groupTarget p \<and> \<not> se_scoped (splitEntry e)) \<and> matchToolEntry e slug name isPrefix) entries"

text \<open>\<open>blockedBy\<close> on a resolved identity. (A policy with no rules answers at once; it has no rule
  below that could refuse.)\<close>

definition blockedBy :: "tool_policy \<Rightarrow> jstr \<Rightarrow> jstr \<Rightarrow> block_reason option" where
  "blockedBy p slug name =
     (if tp_malformed p then Some InvalidFilter
      else if tp_listsMalformed p then Some InvalidKeyLists
      else if matchesAny p (tp_deny p) slug name False False then Some KeyDenylist
      else if length (tp_allow p) > 0 \<and> \<not> matchesAny p (tp_allow p) slug name False True then Some KeyAllowlist
      else if tp_mode p = js ''allow'' then
        (if length (tp_tools p) + length (tp_prefixes p) > 0 \<and>
            \<not> matchesAny p (tp_tools p) slug name False True \<and> \<not> matchesAny p (tp_prefixes p) slug name True True
         then Some GroupFilter else None)
      else if tp_mode p = js ''deny'' then
        (if matchesAny p (tp_tools p) slug name False False \<or> matchesAny p (tp_prefixes p) slug name True False
         then Some GroupFilter else None)
      else None)"

section \<open>Overruled entries\<close>

definition entryTool :: "jstr \<Rightarrow> jstr \<Rightarrow> (jstr \<times> jstr) option" where
  "entryTool entry targetSlug =
     (let sp = splitEntry entry in
      if se_scoped sp then (if se_rest sp = [] then None else Some (se_head sp, se_rest sp))
      else if targetSlug \<noteq> [] \<and> entry \<noteq> [] then Some (targetSlug, entry) else None)"

definition deniedBy :: "jstr \<Rightarrow> jstr \<Rightarrow> jstr list \<Rightarrow> jstr" where
  "deniedBy slug name deny = orElse (firstThat (\<lambda>d. matchToolEntry d slug name False) deny) []"

definition allowEntryDeniedBy :: "jstr \<Rightarrow> jstr list \<Rightarrow> jstr \<Rightarrow> jstr" where
  "allowEntryDeniedBy entry deny targetSlug =
     (case entryTool entry targetSlug of Some (slug, name) \<Rightarrow> deniedBy slug name deny | None \<Rightarrow> [])"

text \<open>The loop of \<open>allowListAdmitsNothing\<close>: \<open>None\<close> when it returns \<open>''\<close> early, else \<open>unnamed\<close>.\<close>

fun admitsLoop :: "jstr list \<Rightarrow> jstr list \<Rightarrow> bool \<Rightarrow> jstr \<Rightarrow> bool \<Rightarrow> bool option" where
  "admitsLoop [] deny groupTarget targetSlug unnamed = Some unnamed"
| "admitsLoop (entry # es) deny groupTarget targetSlug unnamed =
     (if groupTarget \<and> \<not> se_scoped (splitEntry entry) then admitsLoop es deny groupTarget targetSlug True
      else if entryTool entry targetSlug = None then None
      else if allowEntryDeniedBy entry deny targetSlug = [] then None
      else admitsLoop es deny groupTarget targetSlug unnamed)"

definition allowListAdmitsNothing :: "jstr list \<Rightarrow> jstr list \<Rightarrow> bool \<Rightarrow> jstr \<Rightarrow> jstr" where
  "allowListAdmitsNothing allow deny groupTarget targetSlug =
     (if length allow = 0 then []
      else (case admitsLoop allow deny groupTarget targetSlug False of
              None \<Rightarrow> []
            | Some unnamed \<Rightarrow>
                if unnamed then js ''Every entry on the allow list is either denied or names no member, so this key can call nothing.''
                else js ''Every tool on the allow list is also denied, so this key can call nothing.''))"

definition deniedRowNote :: "jstr \<Rightarrow> jstr" where
  "deniedRowNote denyEntry = js ''On the deny list as '' @ denyEntry @ js '', so it stays blocked whatever is ticked here.''"

section \<open>What a prefix reaches\<close>

definition PREFIX_NAMES_SHOWN :: nat where
  "PREFIX_NAMES_SHOWN = 5"

definition prefixMatches :: "jstr \<Rightarrow> catalogue \<Rightarrow> jstr list" where
  "prefixMatches pre c =
     (if \<not> catalogueComplete c then []
      else concat (map (\<lambda>m. map (\<lambda>t. scopedToolName (mc_slug m) (t_name t))
             (filter (\<lambda>t. matchToolEntry pre (mc_slug m) (t_name t) True) (mc_tools m))) c))"

definition prefixMatchNote :: "jstr \<Rightarrow> catalogue \<Rightarrow> jstr" where
  "prefixMatchNote pre c =
     (let names = prefixMatches pre c in
      if length names = 0 then []
      else (let shown = joinWith (js '', '') (take PREFIX_NAMES_SHOWN names);
                more = int (length names) - int PREFIX_NAMES_SHOWN;
                count = showNat (length names) @ js '' '' @ (if length names = 1 then js ''tool'' else js ''tools'')
            in js ''Matches '' @ count @ js '' advertised now: '' @ shown @
               (if more > 0 then js '', and '' @ showInt more @ js '' more'' else []) @ js ''.''))"

section \<open>The group's filter in the key dialog\<close>

definition GROUP_ENTRIES_SHOWN :: nat where
  "GROUP_ENTRIES_SHOWN = 12"

datatype tone = Zinc | Pink

record group_filter_summary =
  gs_tone :: tone
  gs_sentence :: jstr
  gs_tools :: "jstr list"
  gs_prefixes :: "jstr list"
  gs_more :: nat

definition groupFilterSummary :: "jstr \<Rightarrow> jval \<Rightarrow> bool \<Rightarrow> bool \<Rightarrow> group_filter_summary" where
  "groupFilterSummary name tool_filter listsAbove malformed =
     (let stored = parseToolFilter tool_filter;
          whereLine = js ''It is edited on the Groups page.'';
          empty = (\<lambda>t s. \<lparr>gs_tone = t, gs_sentence = s, gs_tools = [], gs_prefixes = [], gs_more = 0\<rparr>);
          unreadable = empty Pink (js ''The group '' @ name @ js '' has a filter that cannot be read, so every tool on it is blocked whatever this key allows. Replace it on the Groups page.'')
      in if malformed then unreadable
         else case stored of
           PUnreadable _ \<Rightarrow> unreadable
         | PNone \<Rightarrow> empty Zinc (js ''The group '' @ name @
             (if listsAbove then js '' has no filter, so the key's two lists above are the only rules on this key.''
              else js '' has no filter, so the two lists below are the only rules on this key.''))
         | PFilter f \<Rightarrow>
             (let tools = take GROUP_ENTRIES_SHOWN (ff_tools f);
                  prefixes = take (GROUP_ENTRIES_SHOWN - length tools) (ff_prefixes f);
                  more = length (ff_tools f) + length (ff_prefixes f) - length tools - length prefixes;
                  full = (\<lambda>t s. \<lparr>gs_tone = t, gs_sentence = js ''The group '' @ name @ s, gs_tools = tools, gs_prefixes = prefixes, gs_more = more\<rparr>)
              in if filterAdmitsNothing f \<noteq> [] then
                   full Pink (js '' has an allow filter whose entries name no member, so every tool on it is blocked whatever this key allows. '' @ whereLine)
                 else if length (ff_tools f) + length (ff_prefixes f) = 0 then
                   full Zinc (js '' has a deny filter that lists nothing, so it blocks nothing.'')
                 else if ff_mode f = AllowMode then
                   full Zinc (js '' allows only what is listed here. Everything else is blocked whatever this key allows. '' @ whereLine)
                 else full Zinc (js '' already denies what is listed here, whatever this key allows. '' @ whereLine)))"

definition groupBlocks :: "jval \<Rightarrow> jstr \<Rightarrow> jstr \<Rightarrow> bool" where
  "groupBlocks tool_filter =
     (case parseToolFilter tool_filter of
        PUnreadable _ \<Rightarrow> (\<lambda>slug name. True)
      | PNone \<Rightarrow> (\<lambda>slug name. False)
      | PFilter f \<Rightarrow> (\<lambda>slug name. \<not> filterPermits (modeStr (ff_mode f)) (ff_tools f) (ff_prefixes f) slug name))"

section \<open>Laws\<close>

text \<open>The policy a key on a group is judged by, from the parsed filter and the key's lists.\<close>

definition keyPolicy :: "parsed_filter \<Rightarrow> jstr list \<Rightarrow> jstr list \<Rightarrow> bool \<Rightarrow> bool \<Rightarrow> tool_policy" where
  "keyPolicy pf allow deny groupTarget listsMalformed =
     (let f = (case pf of PFilter f \<Rightarrow> f | _ \<Rightarrow> blankFilterForm) in
      \<lparr>tp_mode = modeStr (ff_mode f), tp_tools = ff_tools f, tp_prefixes = ff_prefixes f, tp_allow = allow, tp_deny = deny,
       tp_groupTarget = groupTarget, tp_malformed = (case pf of PUnreadable _ \<Rightarrow> True | _ \<Rightarrow> False),
       tp_listsMalformed = listsMalformed\<rparr>)"

interpretation proxy_list: entry_matcher
  "\<lambda>e t. matchToolEntry e (fst t) (snd t) isPrefix"
  "\<lambda>e. allowSide \<and> tp_groupTarget p \<and> \<not> se_scoped (splitEntry e)"
  "\<lambda>es t. matchesAny p es (fst t) (snd t) isPrefix allowSide"
  for p isPrefix allowSide
  by unfold_locales (auto simp: matchesAny_def list_ex_iff)

lemma matchesAny_group:
  "tp_groupTarget p \<Longrightarrow> matchesAny p es slug name isPrefix True = listedBy isPrefix True es (slug, name)"
  "matchesAny p es slug name isPrefix False = listedBy isPrefix False es (slug, name)"
  by (auto simp: matchesAny_def listedBy_def list_ex_iff)

lemma keyPolicy_sel [simp]:
  "tp_groupTarget (keyPolicy pf allow deny gt lm) = gt" "tp_allow (keyPolicy pf allow deny gt lm) = allow"
  "tp_deny (keyPolicy pf allow deny gt lm) = deny" "tp_listsMalformed (keyPolicy pf allow deny gt lm) = lm"
  by (simp_all add: keyPolicy_def Let_def)

lemma deniedBy_iff: "deniedBy slug name deny \<noteq> [] \<longleftrightarrow> (\<exists>d \<in> set deny. matchToolEntry d slug name False)"
proof (cases "firstThat (\<lambda>d. matchToolEntry d slug name False) deny")
  case None
  then have "\<forall>d \<in> set deny. \<not> matchToolEntry d slug name False" by (simp add: firstThat_None)
  with None show ?thesis by (simp add: deniedBy_def)
next
  case (Some d)
  with firstThat_Some [OF Some] show ?thesis
    by (auto simp: deniedBy_def dest: matchToolEntry_nonempty)
qed

lemma admitsLoop_Some:
  "admitsLoop allow deny gt ts u = Some u' \<Longrightarrow> e \<in> set allow \<Longrightarrow>
     (gt \<and> \<not> se_scoped (splitEntry e)) \<or> (entryTool e ts \<noteq> None \<and> allowEntryDeniedBy e deny ts \<noteq> [])"
  by (induction allow deny gt ts u rule: admitsLoop.induct) (auto split: if_splits)

lemma admitsLoop_None:
  "admitsLoop allow deny gt ts u = None \<Longrightarrow>
     \<exists>e \<in> set allow. \<not> (gt \<and> \<not> se_scoped (splitEntry e)) \<and> (entryTool e ts = None \<or> allowEntryDeniedBy e deny ts = [])"
  by (induction allow deny gt ts u rule: admitsLoop.induct) (auto split: if_splits)

text \<open>An entry the proxy would count names the tool \<open>entryTool\<close> says it names.\<close>

lemma entryTool_match:
  assumes "matchToolEntry e slug name False" "entryTool e ts \<noteq> None" "se_scoped (splitEntry e) \<or> slug = ts"
  shows "entryTool e ts = Some (slug, name)"
proof (cases "se_scoped (splitEntry e)")
  case True
  with assms show ?thesis by (auto simp: entryTool_def Let_def matchToolEntry_scoped split: if_splits)
next
  case False
  with assms show ?thesis by (auto simp: entryTool_def Let_def matchToolEntry_unscoped split: if_splits)
qed

lemma allowListAdmitsNothing_blocks:
  assumes "allowListAdmitsNothing (tp_allow p) (tp_deny p) (tp_groupTarget p) ts \<noteq> []"
    and "\<not> tp_groupTarget p \<longrightarrow> slug = ts"
  shows "blockedBy p slug name \<noteq> None"
proof (rule ccontr)
  assume "\<not> blockedBy p slug name \<noteq> None"
  then have nd: "\<not> matchesAny p (tp_deny p) slug name False False"
    and al: "tp_allow p = [] \<or> matchesAny p (tp_allow p) slug name False True"
    by (auto simp: blockedBy_def split: if_splits)
  from assms(1) obtain u where u: "admitsLoop (tp_allow p) (tp_deny p) (tp_groupTarget p) ts False = Some u"
    and "tp_allow p \<noteq> []"
    by (auto simp: allowListAdmitsNothing_def split: if_splits option.splits)
  with al obtain e where e: "e \<in> set (tp_allow p)" "\<not> (tp_groupTarget p \<and> \<not> se_scoped (splitEntry e))"
    "matchToolEntry e slug name False"
    by (auto simp: matchesAny_def list_ex_iff)
  with admitsLoop_Some [OF u] have d: "entryTool e ts \<noteq> None" "allowEntryDeniedBy e (tp_deny p) ts \<noteq> []" by auto
  from e assms(2) have "entryTool e ts = Some (slug, name)"
    by (intro entryTool_match) (use d in auto)
  with d(2) have "\<exists>x \<in> set (tp_deny p). matchToolEntry x slug name False"
    by (simp add: allowEntryDeniedBy_def deniedBy_iff)
  with nd show False by (auto simp: matchesAny_def list_ex_iff)
qed

text \<open>Conversely, on a group key whose scoped entries all name a tool, no sentence means some
  entry names a tool both lists let through.\<close>

lemma allowListAdmitsNothing_silent:
  assumes "allowListAdmitsNothing allow deny True ts = []" "allow \<noteq> []"
    and "\<forall>e \<in> set allow. se_scoped (splitEntry e) \<longrightarrow> se_rest (splitEntry e) \<noteq> []"
  shows "\<exists>slug name. blockedBy (keyPolicy PNone allow deny True False) slug name = None"
proof -
  from assms(1,2) have "admitsLoop allow deny True ts False = None"
    by (auto simp: allowListAdmitsNothing_def split: option.splits if_splits)
  then obtain e where e: "e \<in> set allow" "se_scoped (splitEntry e)"
    "entryTool e ts = None \<or> allowEntryDeniedBy e deny ts = []"
    using admitsLoop_None by blast
  let ?s = "se_head (splitEntry e)" let ?n = "se_rest (splitEntry e)"
  from e assms(3) have "entryTool e ts = Some (?s, ?n)" by (simp add: entryTool_def Let_def)
  with e(3) have nd: "\<not> (\<exists>d \<in> set deny. matchToolEntry d ?s ?n False)"
    using deniedBy_iff [of ?s ?n deny] by (simp add: allowEntryDeniedBy_def)
  have "matchToolEntry e ?s ?n False" using e(2) by (simp add: matchToolEntry_scoped)
  with e nd have "blockedBy (keyPolicy PNone allow deny True False) ?s ?n = None"
    by (auto simp: blockedBy_def keyPolicy_def matchesAny_def list_ex_iff blankFilterForm_def)
  then show ?thesis by blast
qed

lemma groupBlocks_proxy:
  "groupBlocks tf slug name \<longleftrightarrow> blockedBy (keyPolicy (parseToolFilter tf) [] [] True False) slug name \<noteq> None"
proof (cases "parseToolFilter tf")
  case (PFilter f)
  have wf: "wfFilter f" using PFilter by (rule parseToolFilter_wf)
  let ?p = "keyPolicy (parseToolFilter tf) [] [] True False"
  have sel: "tp_mode ?p = modeStr (ff_mode f)" "tp_tools ?p = ff_tools f" "tp_prefixes ?p = ff_prefixes f"
    "\<not> tp_malformed ?p"
    by (simp_all add: keyPolicy_def PFilter)
  from wf consider "ff_mode f = AllowMode" "ff_tools f \<noteq> [] \<or> ff_prefixes f \<noteq> []" | "ff_mode f = DenyMode"
    by (cases "ff_mode f") (auto simp: wfFilter_def)
  then show ?thesis
    using sel
    by cases (auto simp: groupBlocks_def PFilter blockedBy_def filterPermits_listed matchesAny_group)
qed (simp_all add: groupBlocks_def blockedBy_def keyPolicy_def matchesAny_def blankFilterForm_def)

lemma set_prefixMatches:
  "catalogueComplete c \<Longrightarrow>
     set (prefixMatches pre c) = {scopedToolName slug name | slug name. (slug, name) \<in> advertised c \<and> matchToolEntry pre slug name True}"
  by (auto simp: prefixMatches_def advertised_def)

lemma groupFilterSummary_counts:
  assumes "parseToolFilter tf = PFilter f"
  shows "length (gs_tools (groupFilterSummary name tf la False)) + length (gs_prefixes (groupFilterSummary name tf la False)) +
         gs_more (groupFilterSummary name tf la False) = length (ff_tools f) + length (ff_prefixes f)"
    and "length (gs_tools (groupFilterSummary name tf la False)) + length (gs_prefixes (groupFilterSummary name tf la False)) \<le> GROUP_ENTRIES_SHOWN"
  by (auto simp: groupFilterSummary_def assms Let_def min_def)

text \<open>A deny filter never blocks every name: a slug no entry mentions, with the empty name, gets
  through.\<close>

lemma deny_permits_some:
  assumes "ff_mode f = DenyMode"
  shows "\<exists>slug nm. formPermits f slug nm"
proof -
  let ?heads = "(\<lambda>e. se_head (splitEntry e)) ` (set (ff_tools f) \<union> set (ff_prefixes f))"
  have "infinite (UNIV :: jstr set)" by (rule infinite_UNIV_listI)
  moreover have "finite ?heads" by simp
  ultimately obtain slug :: jstr where slug: "slug \<notin> ?heads" by (metis ex_new_if_finite)
  have "\<not> matchToolEntry e slug [] p" if "e \<in> set (ff_tools f) \<union> set (ff_prefixes f)" for e p
  proof (cases "se_scoped (splitEntry e)")
    case True
    with that slug show ?thesis by (auto simp: matchToolEntry_scoped)
  next
    case False
    then show ?thesis by (auto simp: matchToolEntry_unscoped startsWith_iff)
  qed
  then have "formPermits f slug []"
    using assms by (auto simp: formPermits_def filterPermits_listed filter_list.lists_iff)
  then show ?thesis by blast
qed

lemma groupFilterSummary_pink:
  "gs_tone (groupFilterSummary name tf la False) = Pink \<longleftrightarrow> (\<forall>slug nm. groupBlocks tf slug nm)"
proof (cases "parseToolFilter tf")
  case (PFilter f)
  have wf: "wfFilter f" using PFilter by (rule parseToolFilter_wf)
  have tone: "gs_tone (groupFilterSummary name tf la False) = Pink \<longleftrightarrow> filterAdmitsNothing f \<noteq> []"
    by (simp add: groupFilterSummary_def PFilter Let_def)
  have gb: "groupBlocks tf slug nm \<longleftrightarrow> \<not> formPermits f slug nm" for slug nm
    by (simp add: groupBlocks_def PFilter formPermits_def)
  show ?thesis
  proof (cases "ff_mode f = AllowMode")
    case True
    with wf have "ff_tools f \<noteq> [] \<or> ff_prefixes f \<noteq> []" by (simp add: wfFilter_def)
    with admits_nothing_iff [OF True this] tone gb show ?thesis by simp
  next
    case False
    with wf have deny: "ff_mode f = DenyMode" by (cases "ff_mode f") (auto simp: wfFilter_def)
    have "\<exists>slug nm. formPermits f slug nm" by (rule deny_permits_some [OF deny])
    with tone gb deny show ?thesis by (auto simp: filterAdmitsNothing_def)
  qed
qed (simp_all add: groupFilterSummary_def groupBlocks_def Let_def)

section \<open>Properties\<close>

text \<open>
  Claim C1: when allowListAdmitsNothing has a sentence, the proxy refuses every tool: for a key on
  one upstream every tool of that upstream, for a key on a group every tool of every member.
\<close>

theorem said_to_call_nothing_calls_nothing:
  assumes "allowListAdmitsNothing (tp_allow p) (tp_deny p) (tp_groupTarget p) targetSlug \<noteq> []"
    and "\<not> tp_groupTarget p \<longrightarrow> slug = targetSlug"
  shows "blockedBy p slug name \<noteq> None"
  using assms by (rule allowListAdmitsNothing_blocks)

theorem said_to_call_nothing_witness:
  "blockedBy (keyPolicy PNone [js ''a__read'', js ''read''] [js ''a__read''] True False) (js ''a'') (js ''read'') \<noteq> None"
proof (rule said_to_call_nothing_calls_nothing [where targetSlug = "[]"])
  show "allowListAdmitsNothing (tp_allow (keyPolicy PNone [js ''a__read'', js ''read''] [js ''a__read''] True False))
      (tp_deny (keyPolicy PNone [js ''a__read'', js ''read''] [js ''a__read''] True False))
      (tp_groupTarget (keyPolicy PNone [js ''a__read'', js ''read''] [js ''a__read''] True False)) [] \<noteq> []"
    by code_simp
qed simp

text \<open>
  When the sentence is absent on a group key with an allow list whose scoped entries all name a
  tool, the proxy lets some tool through.
\<close>

theorem silent_key_calls_something:
  assumes "allowListAdmitsNothing allow deny True targetSlug = []" "allow \<noteq> []"
    and "\<forall>e \<in> set allow. se_scoped (splitEntry e) \<longrightarrow> se_rest (splitEntry e) \<noteq> []"
  shows "\<exists>slug name. blockedBy (keyPolicy PNone allow deny True False) slug name = None"
  using assms by (rule allowListAdmitsNothing_silent)

theorem silent_key_calls_something_witness:
  "\<exists>slug name. blockedBy (keyPolicy PNone [js ''a__read''] [js ''b__read''] True False) slug name = None"
  by (rule silent_key_calls_something [where targetSlug = "[]"]) code_simp+

text \<open>
  The key picker marks a row as blocked by the group exactly when the proxy, for a key with no
  rules of its own, refuses that tool.
\<close>

theorem group_row_note_is_the_proxy:
  "groupBlocks tf slug name \<longleftrightarrow> blockedBy (keyPolicy (parseToolFilter tf) [] [] True False) slug name \<noteq> None"
  by (rule groupBlocks_proxy)

text \<open>
  The summary of a group that loaded is drawn pink exactly when its stored filter, unreadable or
  dead, blocks every tool of every member.
\<close>

theorem pink_summary_exact:
  "gs_tone (groupFilterSummary name tf la False) = Pink \<longleftrightarrow> (\<forall>slug nm. groupBlocks tf slug nm)"
  by (rule groupFilterSummary_pink)

end
