(* ===== verification/ToolPicker.thy ===== *)
theory ToolPicker
  imports RuleConflicts UpstreamAuth
begin

text \<open>
  The tool picker and the entry list: \<open>web/src/app/tool-picker.tsx\<close> and
  \<open>web/src/app/tool-entries.tsx\<close>.

  A component is modelled by the values it draws: which lines a member's block has, what its
  button says, and for every tool row the entry a tick writes, whether there is a box, whether
  it is ticked, whether it can be changed, and the notes under it. The callbacks are the edits
  of the two lists a picker is drawn over.

  The lemmas show that the ticks are the rule: a row is ticked exactly when the list names its
  tool, an enabled box changes the verdict on that one tool, and the whole-member box covers
  every row of its member and no other.
\<close>

section \<open>Sentences\<close>

definition MEMBER_DISABLED :: jstr where
  "MEMBER_DISABLED = js ''Disabled. A virtual key on this group gets no endpoint for it.''"

definition MEMBER_NOT_IMPLEMENTED :: jstr where
  "MEMBER_NOT_IMPLEMENTED = js ''Not implemented. This member's endpoint fails, and so does the group endpoint, until the transport is Streamable HTTP or the member is disabled.''"

definition UNLISTED_STAYS_BLOCKED :: jstr where
  "UNLISTED_STAYS_BLOCKED = js ''A tool that is not listed cannot be ticked and stays blocked.''"

definition LOAD_RECORDS_A_TEST :: jstr where
  "LOAD_RECORDS_A_TEST = js ''Loading connects to each upstream with its stored credential and records the result as that upstream's last test.''"

section \<open>Entries of a list\<close>

record entry_row =
  er_text :: jstr
  er_kind :: entry_kind
  er_badge :: mark_badge
  er_note :: jstr

definition BADGE_TONE :: "mark_badge \<Rightarrow> jstr option" where
  "BADGE_TONE b = (case b of
     CannotBeSaved \<Rightarrow> Some (js ''pink'')
   | AlsoDenied \<Rightarrow> Some (js ''amber'')
   | NotAdvertised \<Rightarrow> Some (js ''amber'')
   | _ \<Rightarrow> None)"

text \<open>The badge of a row, \<open>BADGE_TONE[row.badge] ?? 'zinc'\<close>; a row with no badge draws none.\<close>

definition badgeColour :: "mark_badge \<Rightarrow> jstr option" where
  "badgeColour b = (if b = NoBadge then None else Some (orElse (BADGE_TONE b) (js ''zinc'')))"

text \<open>\<open>AddEntry.add\<close>: the entry handed to \<open>onAdd\<close>, if any, and the text the box is left with.\<close>

definition addByHand :: "jstr \<Rightarrow> jstr option \<times> jstr" where
  "addByHand box = (let entry = trim box in if entry = [] then (None, box) else (Some entry, []))"

text \<open>\<open>AddEntry\<close>: its box, and as a ghost what it handed to \<open>onAdd\<close>. The dialogs are forms, where Enter in a box submits unless
  the handler prevents it: a key gives the state after it and whether the form still sees it.\<close>

record add_state =
  ad_text :: jstr
  ad_given :: "jstr list"

definition addBlank :: add_state where
  "addBlank = \<lparr>ad_text = [], ad_given = []\<rparr>"

definition pressAdd :: "add_state \<Rightarrow> add_state" where
  "pressAdd s = (case addByHand (ad_text s) of (entry, rest) \<Rightarrow>
     s\<lparr>ad_text := rest, ad_given := ad_given s @ (case entry of Some e \<Rightarrow> [e] | None \<Rightarrow> [])\<rparr>)"

definition keyDownAdd :: "jstr \<Rightarrow> add_state \<Rightarrow> add_state \<times> bool" where
  "keyDownAdd key s = (if key \<noteq> js ''Enter'' then (s, True) else (pressAdd s, False))"

inductive add_reach :: "add_state \<Rightarrow> bool" where
  add_mounted: "add_reach addBlank"
| add_typed: "add_reach s \<Longrightarrow> add_reach (s\<lparr>ad_text := v\<rparr>)"
| add_key: "add_reach s \<Longrightarrow> add_reach (fst (keyDownAdd key s))"
| add_pressed: "add_reach s \<Longrightarrow> add_reach (pressAdd s)"

record entries_view =
  ev_heading :: jstr
  ev_empty :: "jstr option"
  ev_rows :: "entry_row list"

definition toolEntries :: "jstr \<Rightarrow> entry_row list \<Rightarrow> jstr \<Rightarrow> entries_view" where
  "toolEntries label entries emptyNote =
     \<lparr>ev_heading = label @ js '' ('' @ showNat (length entries) @ js '')'',
      ev_empty = (if length entries = 0 \<and> emptyNote \<noteq> [] then Some emptyNote else None),
      ev_rows = entries\<rparr>"

section \<open>The Load tools press\<close>

record load_press =
  lp_label :: jstr
  lp_busy :: bool
  lp_alert :: "jstr option"
  lp_summary :: jstr
  lp_incomplete :: "jstr option"

datatype load_view = LoadHint jstr | LoadPress load_press

definition anyLoading :: "catalogue \<Rightarrow> bool" where
  "anyLoading c = list_ex (\<lambda>m. mc_state m = LoadingState) c"

definition shownIf :: "jstr \<Rightarrow> jstr option" where
  "shownIf t = (if t \<noteq> [] then Some t else None)"

definition toolPickerLoad :: "catalogue \<Rightarrow> jstr \<Rightarrow> jstr \<Rightarrow> load_view" where
  "toolPickerLoad c rateLimited emptyHint =
     (if length c = 0 then LoadHint emptyHint
      else (let loading = anyLoading c;
                loadedAny = list_ex (\<lambda>m. mc_state m \<noteq> IdleState) c;
                incomplete = incompleteLine c
            in LoadPress \<lparr>lp_label = (if loading then js ''Loading'' @ [0x2026] else if loadedAny then js ''Reload tools'' else js ''Load tools''),
                 lp_busy = loading, lp_alert = shownIf rateLimited,
                 lp_summary = (if loading then [] else catalogueSummary c),
                 lp_incomplete = (if loading then None else shownIf incomplete)\<rparr>))"

section \<open>A member's rows\<close>

text \<open>The lists a picker is drawn over, and which rule they are.\<close>

record picker_rule =
  pk_side :: rule_side
  pk_groupTarget :: bool
  pk_tools :: "jstr list"
  pk_prefixes :: "jstr list"

record whole_member =
  wm_label :: "jstr \<Rightarrow> jstr"
  wm_isOn :: "jstr \<Rightarrow> bool"

type_synonym row_notes = "jstr \<Rightarrow> jstr \<Rightarrow> jstr list"

text \<open>\<open>pr_box\<close> is \<open>None\<close> for a row drawn with no box, else whether the box is ticked.\<close>

record picker_row =
  pr_tool :: discovered_tool
  pr_entry :: jstr
  pr_box :: "bool option"
  pr_disabled :: bool
  pr_notes :: "jstr list"

definition pickerRow :: "picker_rule \<Rightarrow> bool \<Rightarrow> row_notes option \<Rightarrow> jstr \<Rightarrow> discovered_tool \<Rightarrow> picker_row" where
  "pickerRow r hasWhole rowNotes slug tool =
     (let entry = tickEntry slug tool;
          nameable = cleanEntry entry;
          covered = coveringEntry slug (t_name tool) (pk_tools r) (pk_prefixes r) (pk_side r) (pk_groupTarget r);
          notes = (if \<not> nameable then [unnameableRowNote (pk_side r) hasWhole (covered \<noteq> [])] else []) @
                  (if covered \<noteq> [] then [coveredNote covered] else []) @
                  (case rowNotes of Some f \<Rightarrow> f slug (t_name tool) | None \<Rightarrow> [])
      in \<lparr>pr_tool = tool, pr_entry = entry,
          pr_box = (if nameable then Some (covered \<noteq> [] \<or> entry \<in> set (pk_tools r)) else None),
          pr_disabled = (covered \<noteq> []), pr_notes = notes\<rparr>)"

text \<open>The rows Find a tool leaves; \<open>lower\<close> is \<open>toLowerCase\<close>, \<open>s.includes(p)\<close> is \<open>s.indexOf(p) >= 0\<close>.\<close>

definition findShows :: "(jstr \<Rightarrow> jstr) \<Rightarrow> jstr \<Rightarrow> discovered_tool list \<Rightarrow> discovered_tool list" where
  "findShows lower needle tools =
     (if needle \<noteq> [] then filter (\<lambda>t. indexOf (lower (t_name t)) (lower needle) \<ge> 0) tools else tools)"

record member_block =
  mb_member :: member_catalogue
  mb_lines :: "jstr list"
  mb_whole :: "(jstr \<times> bool) option"
  mb_status :: jstr
  mb_action :: "jstr option"
  mb_busy :: bool
  mb_head :: "jstr list"
  mb_rows :: "picker_row list"
  mb_foot :: "jstr list"

definition memberAction :: "member_state \<Rightarrow> jstr" where
  "memberAction st = (case st of
     IdleState \<Rightarrow> js ''Load'' | FailedState \<Rightarrow> js ''Try again'' | LoadingState \<Rightarrow> js ''Loading'' @ [0x2026] | OkState \<Rightarrow> js ''Reload'')"

definition memberStatus :: "member_catalogue \<Rightarrow> jstr" where
  "memberStatus m = (case mc_state m of
     IdleState \<Rightarrow> js ''Not loaded.'' | LoadingState \<Rightarrow> js ''Loading'' @ [0x2026] | FailedState \<Rightarrow> mc_error m | OkState \<Rightarrow> [])"

definition memberBlock ::
  "(jstr \<Rightarrow> jstr) \<Rightarrow> bool \<Rightarrow> jstr \<Rightarrow> picker_rule \<Rightarrow> whole_member option \<Rightarrow> row_notes option \<Rightarrow> member_catalogue \<Rightarrow> member_block" where
  "memberBlock lower busy needle r wholeMember rowNotes m =
     (let unsupported = transportUnsupported (m_transport (mc_member m));
          shown = findShows lower needle (mc_tools m);
          unlisted = (pk_side r = AllowSide \<and> (mc_truncated m \<or> mc_unnameable m > 0));
          ok = (mc_state m = OkState)
      in \<lparr>mb_member = m,
          mb_lines = (if m_enabled (mc_member m) then [] else [MEMBER_DISABLED]) @ (if unsupported then [MEMBER_NOT_IMPLEMENTED] else []),
          mb_whole = map_option (\<lambda>w. (wm_label w (mc_slug m), wm_isOn w (mc_slug m))) wholeMember,
          mb_status = memberStatus m,
          mb_action = (if unsupported then None else Some (memberAction (mc_state m))),
          mb_busy = busy,
          mb_head = (if ok \<and> length (mc_tools m) = 0 then [js ''No tools. This server answered, and its catalogue is empty.''] else []) @
                    (if ok \<and> length (mc_tools m) > 0 \<and> length shown = 0 then [js ''No tool on this upstream matches.''] else []),
          mb_rows = (if ok then map (pickerRow r (wholeMember \<noteq> None) rowNotes (mc_slug m)) shown else []),
          mb_foot = (if ok then (if mc_truncated m then [truncatedNote (length (mc_tools m))] else []) @
                                (if mc_unnameable m > 0 then [unnameableNote (mc_unnameable m)] else []) @
                                (if unlisted then [UNLISTED_STAYS_BLOCKED] else [])
                     else [])\<rparr>)"

definition FIND_THRESHOLD :: nat where
  "FIND_THRESHOLD = 20"

definition catalogueRows :: "catalogue \<Rightarrow> nat" where
  "catalogueRows c = foldl (\<lambda>n m. n + length (mc_tools m)) 0 c"

text \<open>The picker: whether the Find a tool box is drawn, and the blocks. The box's text is state of the
  component and is applied to every block, drawn or not.\<close>

definition toolPicker ::
  "(jstr \<Rightarrow> jstr) \<Rightarrow> jstr \<Rightarrow> picker_rule \<Rightarrow> whole_member option \<Rightarrow> row_notes option \<Rightarrow> catalogue \<Rightarrow> bool \<times> member_block list" where
  "toolPicker lower needle r wholeMember rowNotes c =
     (catalogueRows c > FIND_THRESHOLD, map (memberBlock lower (anyLoading c) (trim needle) r wholeMember rowNotes) c)"

section \<open>The add-by-hand box\<close>

lemma enter_adds_and_never_submits:
  "keyDownAdd key s = (pressAdd s, False) \<or> keyDownAdd key s = (s, True) \<and> key \<noteq> js ''Enter''"
  by (simp add: keyDownAdd_def)

text \<open>Nothing typed is lost: the box is emptied exactly when its entry was handed on.\<close>

lemma pressAdd_cases:
  "pressAdd s = (if trim (ad_text s) = [] then s else \<lparr>ad_text = [], ad_given = ad_given s @ [trim (ad_text s)]\<rparr>)"
  by (simp add: pressAdd_def addByHand_def Let_def)

lemma hand_given_entries: "add_reach s \<Longrightarrow> e \<in> set (ad_given s) \<Longrightarrow> e \<noteq> [] \<and> trim e = e"
  by (induction rule: add_reach.induct) (auto simp: addBlank_def keyDownAdd_def pressAdd_cases split: if_splits)

section \<open>Ticks and lists\<close>

text \<open>What a list says of a tool, as the proxy reads it: on the allow side of a group target an
  unscoped entry is left out.\<close>

definition ruleLists :: "picker_rule \<Rightarrow> jstr \<Rightarrow> jstr \<Rightarrow> bool" where
  "ruleLists r slug name \<longleftrightarrow>
     listedBy False (pk_side r = AllowSide \<and> pk_groupTarget r) (pk_tools r) (slug, name) \<or>
     listedBy True (pk_side r = AllowSide \<and> pk_groupTarget r) (pk_prefixes r) (slug, name)"

lemma scopedToolName_scoped: "validSlug slug \<Longrightarrow> se_scoped (splitEntry (scopedToolName slug name))"
  by (simp add: splitEntry_scopedToolName)

lemma ruleLists_cover:
  assumes "validSlug slug"
  shows "ruleLists r slug name \<longleftrightarrow>
     covers slug name (pk_tools r) (pk_prefixes r) (pk_side r) (pk_groupTarget r) \<noteq> {} \<or> scopedToolName slug name \<in> set (pk_tools r)"
  using scopedToolName_scoped [OF assms, of name] matchToolEntry_own [OF assms, of name slug name False]
  by (auto simp: ruleLists_def covers_def filter_list.lists_iff)

text \<open>The entry a row writes is the scoped name: the server's \<open>scoped_name\<close> is that name when it is
  sent at all.\<close>

definition namesItself :: "jstr \<Rightarrow> discovered_tool \<Rightarrow> bool" where
  "namesItself slug tool \<longleftrightarrow> orElse (t_scoped_name tool) [] \<in> {[], scopedToolName slug (t_name tool)}"

lemma tickEntry_own: "namesItself slug tool \<Longrightarrow> tickEntry slug tool = scopedToolName slug (t_name tool)"
  by (auto simp: namesItself_def tickEntry_def orStr_def)

lemma pickerRow_sel [simp]:
  "pr_tool (pickerRow r w ns slug tool) = tool" "pr_entry (pickerRow r w ns slug tool) = tickEntry slug tool"
  "pr_disabled (pickerRow r w ns slug tool) \<longleftrightarrow>
     coveringEntry slug (t_name tool) (pk_tools r) (pk_prefixes r) (pk_side r) (pk_groupTarget r) \<noteq> []"
  "pr_box (pickerRow r w ns slug tool) = (if cleanEntry (tickEntry slug tool)
     then Some (pr_disabled (pickerRow r w ns slug tool) \<or> tickEntry slug tool \<in> set (pk_tools r)) else None)"
  by (simp_all add: pickerRow_def Let_def)

lemma pickerRow_disabled_iff:
  "pr_disabled (pickerRow r w ns slug tool) \<longleftrightarrow>
     covers slug (t_name tool) (pk_tools r) (pk_prefixes r) (pk_side r) (pk_groupTarget r) \<noteq> {}"
  by (simp add: coveringEntry_none_iff)

lemma pickerRow_ticked_iff:
  assumes "validSlug slug" "namesItself slug tool" "pr_box (pickerRow r w ns slug tool) = Some b"
  shows "b \<longleftrightarrow> ruleLists r slug (t_name tool)"
proof -
  have "b \<longleftrightarrow> pr_disabled (pickerRow r w ns slug tool) \<or> scopedToolName slug (t_name tool) \<in> set (pk_tools r)"
    using assms(2,3) tickEntry_own by (auto split: if_splits)
  then show ?thesis
    unfolding pickerRow_disabled_iff ruleLists_cover [OF assms(1)] .
qed

text \<open>A row with no box: no entry names it, so only a covering prefix lists it.\<close>

lemma pickerRow_unboxed_iff:
  assumes "validSlug slug" "namesItself slug tool" "pr_box (pickerRow r w ns slug tool) = None"
    and "\<forall>e \<in> set (pk_tools r). cleanEntry e"
  shows "pr_disabled (pickerRow r w ns slug tool) \<longleftrightarrow> ruleLists r slug (t_name tool)"
proof -
  have "\<not> cleanEntry (scopedToolName slug (t_name tool))"
    using assms(2,3) tickEntry_own by (auto split: if_splits)
  with assms(4) have "scopedToolName slug (t_name tool) \<notin> set (pk_tools r)" by blast
  then show ?thesis
    unfolding pickerRow_disabled_iff ruleLists_cover [OF assms(1)] by simp
qed

section \<open>What a tick changes\<close>

definition tickRow :: "jstr \<Rightarrow> bool \<Rightarrow> picker_rule \<Rightarrow> picker_rule" where
  "tickRow entry on r = r\<lparr>pk_tools := toggleEntry (pk_tools r) entry on\<rparr>"

definition toggleWhole :: "jstr \<Rightarrow> bool \<Rightarrow> picker_rule \<Rightarrow> picker_rule" where
  "toggleWhole slug on r = r\<lparr>pk_prefixes := toggleEntry (pk_prefixes r) (wholeMemberPrefix slug) on\<rparr>"

lemma listedBy_insert:
  "listedBy p a (toggleEntry es e True) t \<longleftrightarrow> listedBy p a es t \<or> (\<not> (a \<and> \<not> se_scoped (splitEntry e)) \<and> matchToolEntry e (fst t) (snd t) p)"
  by (auto simp: filter_list.lists_iff set_toggleEntry)

lemma listedBy_unmatched:
  "\<not> matchToolEntry e (fst t) (snd t) p \<Longrightarrow> listedBy p a (toggleEntry es e on) t = listedBy p a es t"
  unfolding filter_list.lists_iff set_toggleEntry by auto

lemma ruleLists_tick_other:
  assumes "validSlug slug" "(slug', name') \<noteq> (slug, name)"
  shows "ruleLists (tickRow (scopedToolName slug name) on r) slug' name' = ruleLists r slug' name'"
proof -
  have "\<not> matchToolEntry (scopedToolName slug name) slug' name' False"
    using assms matchToolEntry_own [OF assms(1)] by auto
  then show ?thesis
    by (simp add: ruleLists_def tickRow_def listedBy_unmatched)
qed

lemma ruleLists_tick_own:
  assumes "validSlug slug" "covers slug name (pk_tools r) (pk_prefixes r) (pk_side r) (pk_groupTarget r) = {}"
  shows "ruleLists (tickRow (scopedToolName slug name) on r) slug name = on"
  using assms(2) unfolding ruleLists_cover [OF assms(1)]
  by (auto simp: tickRow_def set_toggleEntry covers_def)

lemma ruleLists_whole:
  assumes "validSlug slug"
  shows "ruleLists (toggleWhole slug True r) slug' name \<longleftrightarrow> slug' = slug \<or> ruleLists r slug' name"
proof -
  have "wholeMemberPrefix slug = scopedToolName slug []"
    using validSlug_ends(1) [OF assms] by (simp add: wholeMemberPrefix_def scopedToolName_def)
  then have "se_scoped (splitEntry (wholeMemberPrefix slug))" using scopedToolName_scoped [OF assms] by simp
  then show ?thesis
    using wholeMemberPrefix_matches [OF assms] by (auto simp: ruleLists_def toggleWhole_def listedBy_insert)
qed

text \<open>With the whole-member box on, every row of that member is ticked and fixed.\<close>

lemma pickerRow_whole:
  assumes "validSlug slug" "wholeMemberPrefix slug \<in> set (pk_prefixes r)"
  shows "pr_disabled (pickerRow r w ns slug tool)" "pr_box (pickerRow r w ns slug tool) \<noteq> Some False"
proof -
  have "wholeMemberPrefix slug = scopedToolName slug []"
    using validSlug_ends(1) [OF assms(1)] by (simp add: wholeMemberPrefix_def scopedToolName_def)
  then have "wholeMemberPrefix slug \<in> covers slug (t_name tool) (pk_tools r) (pk_prefixes r) (pk_side r) (pk_groupTarget r)"
    using assms scopedToolName_scoped [OF assms(1)] wholeMemberPrefix_matches [OF assms(1)] by (auto simp: covers_def)
  then show d: "pr_disabled (pickerRow r w ns slug tool)" unfolding pickerRow_disabled_iff by blast
  then show "pr_box (pickerRow r w ns slug tool) \<noteq> Some False" unfolding pickerRow_sel(4) by auto
qed

section \<open>Find\<close>

lemma findShows_subset: "set (findShows lower needle ts) \<subseteq> set ts"
  by (auto simp: findShows_def)

lemma catalogueRows_sum: "catalogueRows c = sum_list (map (\<lambda>m. length (mc_tools m)) c)"
proof -
  have "foldl (\<lambda>n m. n + length (mc_tools m)) k c = k + sum_list (map (\<lambda>m. length (mc_tools m)) c)" for k
    by (induction c arbitrary: k) simp_all
  then show ?thesis by (simp add: catalogueRows_def)
qed

text \<open>The text of the Find a tool box outlives the box: once a reload leaves twenty rows or fewer the
  box is not drawn, and its text still hides rows.\<close>

definition oneTool :: "jstr \<Rightarrow> discovered_tool" where
  "oneTool n = \<lparr>t_name = n, t_title = None, t_description = None, t_description_truncated = False, t_scoped_name = None\<rparr>"

lemma find_outlives_its_box:
  assumes "mc_state m = OkState" "mc_tools m = [oneTool (js ''read'')]"
  shows "fst (toolPicker toLowerCase (js ''x'') r w ns [m]) = False"
    and "map mb_rows (snd (toolPicker toLowerCase (js ''x'') r w ns [m])) = [[]]"
proof -
  have "findShows toLowerCase (trim (js ''x'')) [oneTool (js ''read'')] = []" by code_simp
  then show "map mb_rows (snd (toolPicker toLowerCase (js ''x'') r w ns [m])) = [[]]"
    using assms by (simp add: toolPicker_def memberBlock_def Let_def)
qed (use assms in \<open>simp add: toolPicker_def catalogueRows_def FIND_THRESHOLD_def\<close>)

end
