(* ===== verification/DiscoveryPanel.thy ===== *)
theory DiscoveryPanel
  imports UpstreamsPage ToolPicker
begin

text \<open>
  The discovery panel: \<open>web/src/app/discovery-panel.tsx\<close>.

  The panel is drawn in the Add upstream dialog over the form (\<open>Draft\<close>) and in a row's Tools dialog
  (\<open>Saved\<close>). What it draws is a value; a result the render would throw on, one without a tool list,
  gives \<open>None\<close>. The Copy buttons are a small machine: a press awaits the clipboard, the answer sets the
  label and restarts the one timer, and the timer takes the label away.

  The lemmas show that a draft never offers a name to copy, that the failure line is the request's
  own failure or the server's sentence and never empty for a failed run, and that the label stands at
  one name only, the one copied last, with the timer that will clear it running.
\<close>

section \<open>The report\<close>

record server_info =
  si_name :: jstr
  si_version :: "jstr option"

text \<open>The rest of the wire type \<open>Discovery\<close>: what the server said about itself.\<close>

record discovery_report = discovery +
  d_supported_versions :: "jstr list option"
  d_capabilities :: "jstr list option"
  d_server_info :: "server_info option"

text \<open>A mark is a label and a badge colour; an item carries the colour of its badge and the label after it.\<close>

type_synonym badge_mark = "jstr \<times> jstr"

record reported_item =
  ri_text :: jstr
  ri_colour :: jstr
  ri_label :: "jstr option"

definition reportedItem :: "jstr \<Rightarrow> badge_mark option \<Rightarrow> reported_item" where
  "reportedItem it mark = (case mark of
     None \<Rightarrow> \<lparr>ri_text = it, ri_colour = js ''zinc'', ri_label = None\<rparr>
   | Some (label, colour) \<Rightarrow> \<lparr>ri_text = it, ri_colour = colour, ri_label = Some label\<rparr>)"

definition reportedList :: "jstr \<Rightarrow> jstr list \<Rightarrow> (jstr \<Rightarrow> badge_mark option) \<Rightarrow> (jstr \<times> reported_item list) option" where
  "reportedList label items markFor =
     (if length items = 0 then None else Some (label, map (\<lambda>i. reportedItem i (markFor i)) items))"

abbreviation unmarked :: "jstr \<Rightarrow> badge_mark option" where
  "unmarked \<equiv> \<lambda>_. None"

section \<open>Summaries\<close>

definition latencyText :: "int \<Rightarrow> jstr" where
  "latencyText ms = showInt ms @ js '' ms''"

definition serverText :: "discovery_report \<Rightarrow> jstr" where
  "serverText r = (case d_server_info r of
     None \<Rightarrow> []
   | Some i \<Rightarrow> joinWith (js '' '') (filter (\<lambda>x. x \<noteq> []) [si_name i, orElse (si_version i) []]))"

record summary_view =
  sm_server :: jstr
  sm_tools :: nat
  sm_latency :: jstr
  sm_protocol :: "jstr option"
  sm_reported :: "(jstr \<times> reported_item list) option list"

definition discoverySummary :: "discovery_report \<Rightarrow> summary_view" where
  "discoverySummary r =
     (let versions = orElse (d_supported_versions r) []; capabilities = orElse (d_capabilities r) [] in
      \<lparr>sm_server = orStr (serverText r) (js ''Not reported''), sm_tools = d_tool_count r, sm_latency = latencyText (d_latency_ms r),
       sm_protocol = shownIf (protocolSummary (discovery.truncate r)),
       sm_reported = (if length versions > 0 \<or> length capabilities > 0
         then [reportedList (js ''Supported versions'') versions unmarked, reportedList (js ''Capabilities'') capabilities unmarked]
         else [])\<rparr>)"

record probe_view =
  pb_status :: int
  pb_request :: jstr
  pb_latency :: jstr

definition probeSummary :: "int \<Rightarrow> discovery_report \<Rightarrow> jstr option \<Rightarrow> probe_view" where
  "probeSummary status r testPath =
     \<lparr>pb_status = status, pb_request = probeRequestLine testPath, pb_latency = latencyText (d_latency_ms r)\<rparr>"

section \<open>Tool rows\<close>

text \<open>A row of the panel; \<open>tr_copy\<close> is the label of its Copy button, if it has one.\<close>

record tool_row =
  tr_name :: jstr
  tr_scoped :: "jstr option"
  tr_description :: "jstr option"
  tr_clamped :: bool
  tr_copy :: "jstr option"
  tr_notes :: "jstr list"

definition toolRow :: "discovered_tool \<Rightarrow> jstr \<Rightarrow> bool \<Rightarrow> jstr option \<Rightarrow> tool_row" where
  "toolRow tool scoped clamped copyLabel =
     \<lparr>tr_name = t_name tool, tr_scoped = shownIf scoped, tr_description = shownIf (orElse (t_description tool) []),
      tr_clamped = clamped, tr_copy = copyLabel, tr_notes = []\<rparr>"

text \<open>The row of the tool picker: the names beside the box, the notes under the description, no Copy.\<close>

definition boxedRow :: "picker_row \<Rightarrow> tool_row" where
  "boxedRow r = (toolRow (pr_tool r) (pr_entry r) True None)\<lparr>tr_notes := pr_notes r\<rparr>"

section \<open>The panel\<close>

datatype surface = Saved | Draft

record copy_state =
  cs_copied :: "(jstr \<times> bool) option"
  cs_timer :: bool
  cs_waiting :: "jstr list"
  cs_last :: "(jstr \<times> bool) option"

record tool_list =
  tl_intro :: "jstr list"
  tl_expander :: "jstr option"
  tl_rows :: "tool_row list"
  tl_foot :: "jstr list"

datatype catalogue_view = EmptyCatalogue jstr | ToolCatalogue tool_list

record panel_view =
  dp_busy :: bool
  dp_pending :: "jstr option"
  dp_failure :: "jstr option"
  dp_said :: "jstr option"
  dp_plain :: bool
  dp_probe :: "probe_view option"
  dp_summary :: "summary_view option"
  dp_kept :: "jstr option"
  dp_catalogue :: "catalogue_view option"

record panel_props =
  pp_url :: jstr
  pp_authType :: jstr
  pp_slug :: jstr
  pp_surface :: surface
  pp_kind :: jstr
  pp_testPath :: "jstr option"

definition pendingLine :: "jstr \<Rightarrow> jstr" where
  "pendingLine host = (if host \<noteq> [] then js ''Connecting to '' @ host @ [0x2026] else js ''Connecting'' @ [0x2026])"

definition UNREACHED :: jstr where
  "UNREACHED = js ''That server could not be reached.''"

definition panelFailure :: "jstr \<Rightarrow> discovery_report option \<Rightarrow> jstr" where
  "panelFailure err result = orStr err (case result of
     Some r \<Rightarrow> if d_ok r then [] else orStr (orElse (d_error r) []) UNREACHED | None \<Rightarrow> [])"

definition learnedOf :: "discovery_report \<Rightarrow> bool" where
  "learnedOf r \<longleftrightarrow> orElse (d_protocol_version r) [] \<noteq> [] \<or> d_server_info r \<noteq> None \<or> orElse (d_era r) [] \<noteq> [] \<or> d_latency_ms r > 0"

definition keptLine :: "jstr \<Rightarrow> surface \<Rightarrow> jstr" where
  "keptLine kind surface =
     (if kind = js ''http'' then
        (if surface = Saved then js ''PoryMCP records when this upstream was last tested and whether it passed. The Status column shows it.''
         else js ''Tested just now with these settings. Nothing is saved.'')
      else if surface = Saved then js ''PoryMCP records when this upstream was last tested and whether it passed. The Status column shows it. The tool list itself is not stored; this is what the server said just now.''
      else js ''Discovered just now from the server; PoryMCP does not store this list.'')"

definition scopedOf :: "jstr \<Rightarrow> discovered_tool \<Rightarrow> jstr" where
  "scopedOf slug tool = orStr (orElse (t_scoped_name tool) []) (scopedToolName slug (t_name tool))"

definition copyLabel :: "(jstr \<times> bool) option \<Rightarrow> jstr \<Rightarrow> jstr" where
  "copyLabel copied scoped = (case copied of
     Some (name, ok) \<Rightarrow> if name = scoped then (if ok then js ''Copied'' else js ''Copy failed'') else js ''Copy''
   | None \<Rightarrow> js ''Copy'')"

definition panelRow :: "panel_props \<Rightarrow> bool \<Rightarrow> (jstr \<times> bool) option \<Rightarrow> discovered_tool \<Rightarrow> tool_row" where
  "panelRow p expanded copied tool =
     (let scoped = scopedOf (pp_slug p) tool
      in toolRow tool scoped (\<not> expanded) (if pp_surface p = Saved \<and> scoped \<noteq> [] then Some (copyLabel copied scoped) else None))"

definition panelCatalogue :: "panel_props \<Rightarrow> bool \<Rightarrow> (jstr \<times> bool) option \<Rightarrow> discovery_report \<Rightarrow> discovered_tool list \<Rightarrow> catalogue_view" where
  "panelCatalogue p expanded copied r tools =
     (if length tools = 0 then EmptyCatalogue (js ''No tools. This server answered, and its catalogue is empty.'')
      else ToolCatalogue
        \<lparr>tl_intro = (if pp_slug p \<noteq> []
            then [js ''Each tool is listed by the name this server publishes, then by the name a group endpoint gives it.'']
            else [js ''Each tool is listed by the name this server publishes.'',
                  js ''Name this upstream to see the names a group endpoint would give these tools.'']),
         tl_expander = (if list_ex (\<lambda>t. orElse (t_description t) [] \<noteq> []) tools
            then Some (if expanded then js ''Shorten descriptions'' else js ''Show full descriptions'') else None),
         tl_rows = map (panelRow p expanded copied) tools,
         tl_foot = (if d_truncated r then [truncatedNote (d_tool_count r)] else []) @
                   (if orElse (d_unnameable_tools r) 0 > 0 then [unnameableNote (orElse (d_unnameable_tools r) 0)] else [])\<rparr>)"

definition discoveryPanel ::
  "url_parser \<Rightarrow> panel_props \<Rightarrow> discovery_report option \<Rightarrow> bool \<Rightarrow> jstr \<Rightarrow> bool \<Rightarrow> (jstr \<times> bool) option \<Rightarrow> panel_view option" where
  "discoveryPanel URL p result pending err expanded copied =
     (case (case result of None \<Rightarrow> Some [] | Some r \<Rightarrow> d_tools r) of
        None \<Rightarrow> None
      | Some tools \<Rightarrow>
          (let http = (pp_kind p = js ''http'') in
           Some \<lparr>dp_busy = pending,
             dp_pending = (if pending then Some (pendingLine (hostOf URL (pp_url p))) else None),
             dp_failure = shownIf (panelFailure err result),
             dp_said = (if http then None else case result of Some r \<Rightarrow>
                 map_option (\<lambda>m. js ''The server said: '' @ m) (shownIf (orElse (d_upstream_message r) [])) | None \<Rightarrow> None),
             dp_plain = (result \<noteq> None \<and> plainHTTPCredential URL (pp_url p) (pp_authType p)),
             dp_probe = (if http then (case result of Some r \<Rightarrow>
                 (case d_http_status r of Some n \<Rightarrow> if n \<noteq> 0 then Some (probeSummary n r (pp_testPath p)) else None | None \<Rightarrow> None) | None \<Rightarrow> None) else None),
             dp_summary = (if http then None else case result of Some r \<Rightarrow> if learnedOf r then Some (discoverySummary r) else None | None \<Rightarrow> None),
             dp_kept = map_option (\<lambda>_. keptLine (pp_kind p) (pp_surface p)) result,
             dp_catalogue = (if http then None else case result of Some r \<Rightarrow>
                 if d_ok r then Some (panelCatalogue p expanded copied r tools) else None | None \<Rightarrow> None)\<rparr>))"

section \<open>Copying\<close>

text \<open>\<open>copyText\<close> of \<open>lib/clipboard.ts\<close>: outside a secure context there is no clipboard, a write may be refused, and either
  answers \<open>false\<close>.\<close>

datatype clipboard = NoClipboard | Clipboard "jstr \<Rightarrow> bool"

definition copyText :: "clipboard \<Rightarrow> jstr \<Rightarrow> bool" where
  "copyText cb t = (case cb of NoClipboard \<Rightarrow> False | Clipboard writes \<Rightarrow> writes t)"

text \<open>\<open>copy\<close> to its \<open>await\<close>, the rest of it, and the timer; a new timer replaces the one before. \<open>cs_last\<close>
  is a ghost, the copy that finished last.\<close>

definition copyBlank :: copy_state where
  "copyBlank = \<lparr>cs_copied = None, cs_timer = False, cs_waiting = [], cs_last = None\<rparr>"

definition copyPress :: "jstr \<Rightarrow> copy_state \<Rightarrow> copy_state" where
  "copyPress scoped s = s\<lparr>cs_waiting := cs_waiting s @ [scoped]\<rparr>"

definition copyDone :: "nat \<Rightarrow> bool \<Rightarrow> copy_state \<Rightarrow> copy_state" where
  "copyDone i ok s = (let name = cs_waiting s ! i
     in s\<lparr>cs_copied := Some (name, ok), cs_timer := True, cs_waiting := take i (cs_waiting s) @ drop (Suc i) (cs_waiting s), cs_last := Some (name, ok)\<rparr>)"

definition copyTimer :: "copy_state \<Rightarrow> copy_state" where
  "copyTimer s = s\<lparr>cs_copied := None, cs_timer := False\<rparr>"

text \<open>The panel is closed: the timer is cleared. A \<open>copy\<close> still awaiting the clipboard runs on.\<close>

definition copyUnmount :: "copy_state \<Rightarrow> copy_state" where
  "copyUnmount s = s\<lparr>cs_timer := False\<rparr>"

inductive copy_reach :: "copy_state \<Rightarrow> bool" where
  copy_mounted: "copy_reach copyBlank"
| copy_pressed: "copy_reach s \<Longrightarrow> copy_reach (copyPress scoped s)"
| copy_answered: "copy_reach s \<Longrightarrow> i < length (cs_waiting s) \<Longrightarrow> copy_reach (copyDone i ok s)"
| copy_timed: "copy_reach s \<Longrightarrow> cs_timer s \<Longrightarrow> copy_reach (copyTimer s)"

section \<open>Laws\<close>

lemma discoveryPanel_renders:
  "discoveryPanel URL p result pending err expanded copied = None \<longleftrightarrow> (\<exists>r. result = Some r \<and> d_tools r = None)"
  by (auto simp: discoveryPanel_def Let_def split: option.splits)

lemma draft_copies_nothing: "pp_surface p = Draft \<Longrightarrow> tr_copy (panelRow p expanded copied tool) = None"
  by (simp add: panelRow_def toolRow_def Let_def)

text \<open>A run that failed is told: the line is the failed request's, else the server's sentence, else a default.\<close>

lemma panelFailure_told: "panelFailure err result = [] \<longleftrightarrow> err = [] \<and> (case result of Some r \<Rightarrow> d_ok r | None \<Rightarrow> True)"
  by (auto simp: panelFailure_def orStr_def UNREACHED_def split: option.splits)

lemma panel_tells_failure:
  assumes "discoveryPanel URL p (Some r) pending err expanded copied = Some v" "\<not> d_ok r"
  shows "dp_failure v \<noteq> None" "dp_catalogue v = None"
proof -
  obtain tools where "d_tools r = Some tools" using assms(1) by (cases "d_tools r") (simp_all add: discoveryPanel_def)
  with assms show "dp_failure v \<noteq> None" "dp_catalogue v = None"
    using panelFailure_told [of err "Some r"] by (auto simp: discoveryPanel_def Let_def shownIf_def)
qed

lemma copy_inv: "copy_reach s \<Longrightarrow> cs_copied s \<noteq> None \<Longrightarrow> cs_copied s = cs_last s \<and> cs_timer s"
  by (induction rule: copy_reach.induct) (auto simp: copyBlank_def copyPress_def copyDone_def copyTimer_def Let_def)

text \<open>After the panel is closed a timer runs only for a copy that was still waiting for the clipboard.\<close>

lemma timer_after_unmount:
  "\<not> cs_timer (copyUnmount s)" "cs_waiting (copyUnmount s) = cs_waiting s" "i < length (cs_waiting s) \<Longrightarrow> cs_timer (copyDone i ok (copyUnmount s))"
  by (simp_all add: copyUnmount_def copyDone_def Let_def)

text \<open>The label stands at the name copied last and at no other.\<close>

lemma copied_label_is_the_last:
  assumes "copy_reach s" "copyLabel (cs_copied s) scoped \<noteq> js ''Copy''"
  shows "\<exists>ok. cs_last s = Some (scoped, ok) \<and> copyLabel (cs_copied s) scoped = (if ok then js ''Copied'' else js ''Copy failed'') \<and> cs_timer s"
proof -
  obtain ok where ok: "cs_copied s = Some (scoped, ok)" using assms(2) by (auto simp: copyLabel_def split: option.splits if_splits)
  with copy_inv [OF assms(1)] have "cs_last s = Some (scoped, ok)" "cs_timer s" by auto
  with ok show ?thesis by (auto simp: copyLabel_def)
qed

end
