(* ===== verification/UpstreamView.thy ===== *)
theory UpstreamView
  imports DiscoveryPanel Views
begin

text \<open>
  The fields of the Add and Edit upstream dialogs, \<open>web/src/app/upstream-form.tsx\<close>, and what
  \<open>app/(app)/upstreams/page.tsx\<close> draws over its state.

  A dialog is the list of its fields in order; a text box is a value with its attributes and the
  edit its \<open>onChange\<close> makes. \<open>row\<close> is the upstream being edited and absent in the Add dialog; the page
  passes \<open>mode\<close> and \<open>before\<close> from the same state, so one argument stands for both. The client boxes
  are drawn only while their disclosure is open. Help paragraphs are left out.

  The lemmas show that the boxes ask exactly what \<open>fieldsValid\<close> asks, that a box shows what is typed
  into it, that an opened Edit dialog holds no secret, that a credential the dialog requires has a box,
  that the selects offer what the form holds, and that the enabled controls are the steps of the page.
\<close>

section \<open>Fields\<close>

datatype box_pattern = AnyText | SlashFirst | OneVisible | ParamChars

record form_box =
  bx_name :: jstr
  bx_label :: jstr
  bx_value :: jstr
  bx_secret :: bool
  bx_required :: bool
  bx_pattern :: box_pattern
  bx_max :: "nat option"
  bx_notes :: "jstr list"
  bx_edit :: "jstr \<Rightarrow> form_edit"

text \<open>A box without its attributes; the dialogs add the ones they give.\<close>

definition plainBox :: "jstr \<Rightarrow> jstr \<Rightarrow> jstr \<Rightarrow> (jstr \<Rightarrow> form_edit) \<Rightarrow> form_box" where
  "plainBox name label v edit = \<lparr>bx_name = name, bx_label = label, bx_value = v, bx_secret = False, bx_required = False,
     bx_pattern = AnyText, bx_max = None, bx_notes = [], bx_edit = edit\<rparr>"

record form_tick =
  ft_name :: jstr
  ft_label :: jstr
  ft_checked :: bool
  ft_note :: "jstr option"
  ft_edit :: "bool \<Rightarrow> form_edit"

datatype field_view =
    IntroField jstr
  | KindField "(jstr \<times> jstr) list" jstr
  | BoxField form_box
  | SelectField form_select
  | ClientField bool "form_box list" "form_tick option"
  | TickField form_tick

definition notesOf :: "jstr option list \<Rightarrow> jstr list" where
  "notesOf ns = filter (\<lambda>n. n \<noteq> []) (map (\<lambda>n. orElse n []) ns)"

definition EDIT_INTRO :: jstr where
  "EDIT_INTRO = js ''Changes take effect immediately. Virtual keys already connected use the new settings on their next call. No key stops working.''"

definition kindOptions :: "(jstr \<times> jstr) list" where
  "kindOptions = [(js ''mcp'', js ''MCP server''), (js ''http'', js ''HTTP API'')]"

definition nameField :: "upstream_form \<Rightarrow> form_box" where
  "nameField f = (plainBox (js ''name'') (js ''Name'') (uf_name f) EName)\<lparr>bx_required := True\<rparr>"

definition slugField :: "upstream_form \<Rightarrow> form_box" where
  "slugField f = (plainBox (js ''slug'') (js ''Slug'') (uf_slug f) ESlug)\<lparr>bx_max := Some 40,
     bx_notes := [js ''Used in URLs and in tool names on the group endpoint. Fixed once the upstream is created.'']\<rparr>"

definition urlField :: "url_parser \<Rightarrow> upstream option \<Rightarrow> upstream_form \<Rightarrow> form_box" where
  "urlField URL row f =
     (let isHTTP = (uf_kind f = js ''http'') in
      (plainBox (js ''url'') (if isHTTP then js ''Base URL'' else js ''URL'') (uf_url f) EUrl)\<lparr>bx_required := True,
       bx_notes := notesOf
         [if isHTTP then Some (js ''Requests to the key's endpoint are sent here with the stored credential. The path after /api/ is appended.'') else None,
          if queryShaped (uf_auth_type f) \<and> row = None then Some (js ''Enter the URL without the key. PoryMCP adds the parameter when it connects.'') else None,
          urlChangeDescription row (uf_url f),
          if row \<noteq> None \<and> plainHTTPCredential URL (uf_url f) (uf_auth_type f) then Some PLAIN_HTTP_NOTE else None]\<rparr>)"

definition testPathField :: "upstream_form \<Rightarrow> form_box" where
  "testPathField f = (plainBox (js ''test_path'') (js ''Test path'') (uf_test_path f) ETestPath)\<lparr>bx_pattern := SlashFirst, bx_max := Some 256,
     bx_notes := [js ''A path the connection test requests, such as /user. Left empty, the base URL is tested.'']\<rparr>"

definition descriptionField :: "upstream_form \<Rightarrow> form_box" where
  "descriptionField f = plainBox (js ''description'') (js ''Description'') (uf_description f) EDescription"

text \<open>The stored transport keeps its own option when the proxy refuses it.\<close>

definition transportSelect :: "upstream_form \<Rightarrow> form_select" where
  "transportSelect f =
     (let t = uf_transport f in
      \<lparr>fs_name = js ''transport'', fs_value = t,
       fs_options = [(js ''streamable-http'', js ''Streamable HTTP'')] @
         (if transportUnsupported t then [(t, t @ js '' (unsupported)'')] else []),
       fs_notes = (if transportUnsupported t
         then [js ''Not implemented. Requests through this upstream fail until the transport is Streamable HTTP. The URL stays as it is.''] else [])\<rparr>)"

definition authOptions :: "(jstr \<times> jstr) list" where
  "authOptions = [(js ''none'', js ''None''), (js ''bearer'', js ''Bearer''), (js ''header'', js ''Header''),
     (js ''api_key'', js ''API key''), (js ''query'', js ''Query parameter''), (js ''custom'', js ''Custom''), (js ''oauth'', js ''OAuth'')]"

definition oauthNote :: "upstream option \<Rightarrow> upstream_form \<Rightarrow> jstr option" where
  "oauthNote row f =
     (if uf_auth_type f = js ''oauth'' then Some (case row of
        Some b \<Rightarrow> editCredentialDescription b f
      | None \<Rightarrow> js ''After Create, choose Connect in the upstream's Actions menu to sign in to the vendor.'') else None)"

definition authSelect :: "upstream option \<Rightarrow> upstream_form \<Rightarrow> form_select" where
  "authSelect row f =
     \<lparr>fs_name = js ''auth_type'', fs_value = uf_auth_type f,
      fs_options = filter (\<lambda>(v, _). \<not> (uf_kind f = js ''http'' \<and> v = js ''oauth'')) authOptions,
      fs_notes = notesOf [removeCredentialDescription row f, oauthNote row f]\<rparr>"

section \<open>Credential boxes\<close>

definition credentialDescription :: "upstream option \<Rightarrow> upstream_form \<Rightarrow> jstr option" where
  "credentialDescription row f =
     (case row of
        None \<Rightarrow>
          (if uf_auth_type f = js ''bearer'' then Some (js ''Stored encrypted. It will not be shown after save.'')
           else if queryShaped (uf_auth_type f) then Some (js ''Stored encrypted. PoryMCP adds it to the URL on every request. It is not shown after save.'')
           else None)
      | Some b \<Rightarrow> Some (editCredentialDescription b f))"

definition credRequired :: "upstream option \<Rightarrow> upstream_form \<Rightarrow> bool" where
  "credRequired row f = (case row of Some b \<Rightarrow> credentialRequired b f | None \<Rightarrow> False)"

definition secretBox :: "jstr \<Rightarrow> jstr \<Rightarrow> jstr \<Rightarrow> (jstr \<Rightarrow> form_edit) \<Rightarrow> bool \<Rightarrow> jstr option \<Rightarrow> form_box" where
  "secretBox name label v edit required note =
     (plainBox name label v edit)\<lparr>bx_secret := True, bx_required := required, bx_notes := notesOf [note]\<rparr>"

definition clientBoxes :: "upstream option \<Rightarrow> upstream_form \<Rightarrow> form_box list" where
  "clientBoxes row f =
     [(plainBox (js ''client_id'') (js ''Client ID'') (uf_client_id f) EClientId)\<lparr>bx_required := (uf_client_secret f \<noteq> [])\<rparr>,
      secretBox (js ''client_secret'') (js ''Client secret'') (uf_client_secret f) EClientSecret False
        (Some (if clientSecretAlone f then CLIENT_SECRET_ALONE
               else if row \<noteq> None then js ''Leave blank to keep the stored client. Saving a new one disconnects this upstream.''
               else js ''Optional. A public client has no secret.''))]"

definition registerTick :: "upstream_form \<Rightarrow> form_tick" where
  "registerTick f = \<lparr>ft_name = js ''register_client'',
     ft_label = js ''Register PoryMCP with the vendor instead of publishing its client document'', ft_checked = uf_register_client f,
     ft_note = Some (js ''Use this when the vendor cannot reach this PoryMCP address. It applies to the next Connect on the row.''), ft_edit = ERegister\<rparr>"

text \<open>The disclosure starts open when a supplied client is stored; \<open>open\<close> is where the operator left it.\<close>

definition clientDefaultOpen :: "upstream option \<Rightarrow> bool" where
  "clientDefaultOpen row = (case Option.bind row u_oauth of Some oa \<Rightarrow> oa_client_source oa = Some (js ''supplied'') | None \<Rightarrow> False)"

definition clientField :: "upstream option \<Rightarrow> bool \<Rightarrow> upstream_form \<Rightarrow> field_view" where
  "clientField row open f = ClientField open (if open then clientBoxes row f else []) (if open \<and> row \<noteq> None then Some (registerTick f) else None)"

definition bearerBoxes :: "upstream option \<Rightarrow> upstream_form \<Rightarrow> form_box list" where
  "bearerBoxes row f = [secretBox (js ''token'') (js ''Bearer token'') (uf_token f) EToken (credRequired row f) (credentialDescription row f)]"

definition headerBoxes :: "upstream option \<Rightarrow> upstream_form \<Rightarrow> form_box list" where
  "headerBoxes row f =
     [(plainBox (js ''header'') (js ''Header name'') (uf_header f) EHeader)\<lparr>bx_required := headerRequired row f, bx_pattern := OneVisible\<rparr>,
      secretBox (js ''value'') (js ''Header value'') (uf_value f) EValue (credRequired row f) (credentialDescription row f)]"

definition queryBoxes :: "upstream option \<Rightarrow> upstream_form \<Rightarrow> form_box list" where
  "queryBoxes row f =
     [(plainBox (js ''param'') (js ''Parameter name'') (uf_param f) EParam)\<lparr>bx_required := (if row \<noteq> None then paramRequired row f else True),
        bx_pattern := ParamChars, bx_max := Some 64,
        bx_notes := [js ''The name the server's documentation gives for the key in its URL, such as api_key. Letters, digits and . _ ~ - only.'']\<rparr>,
      secretBox (js ''value'') (js ''Parameter value'') (uf_value f) EValue (if row \<noteq> None then credRequired row f else True) (credentialDescription row f)]"

definition enabledTick :: "upstream_form \<Rightarrow> form_tick" where
  "enabledTick f = \<lparr>ft_name = js ''enabled'', ft_label = js ''Enabled'', ft_checked = uf_enabled f, ft_note = None, ft_edit = EEnabled\<rparr>"

definition clearStoredTick :: "upstream option \<Rightarrow> upstream_form \<Rightarrow> form_tick list" where
  "clearStoredTick row f = (case clearStoredDescription row f of
     Some d \<Rightarrow> [\<lparr>ft_name = js ''clear_stored'', ft_label = js ''Remove the stored value'', ft_checked = uf_clear_stored f, ft_note = Some d, ft_edit = EClearStored\<rparr>]
   | None \<Rightarrow> [])"

definition upstreamFields :: "url_parser \<Rightarrow> upstream option \<Rightarrow> bool \<Rightarrow> upstream_form \<Rightarrow> field_view list" where
  "upstreamFields URL row open f =
     (let isHTTP = (uf_kind f = js ''http''); auth = uf_auth_type f in
      (if row \<noteq> None then [IntroField EDIT_INTRO] else [KindField kindOptions (uf_kind f)]) @
      [BoxField (nameField f)] @
      (if row = None then [BoxField (slugField f)] else []) @
      [BoxField (urlField URL row f)] @
      (if isHTTP then [BoxField (testPathField f)] else []) @
      [BoxField (descriptionField f)] @
      (if isHTTP then [] else [SelectField (transportSelect f)]) @
      [SelectField (authSelect row f)] @
      (if auth = js ''oauth'' then [clientField row open f] else []) @
      (if auth = js ''bearer'' then map BoxField (bearerBoxes row f) else []) @
      (if headerShaped auth then map BoxField (headerBoxes row f) else []) @
      (if queryShaped auth then map BoxField (queryBoxes row f) else []) @
      TickField (enabledTick f) # map TickField (clearStoredTick row f))"

section \<open>What the boxes ask\<close>

fun patternHolds :: "box_pattern \<Rightarrow> jstr \<Rightarrow> bool" where
  "patternHolds AnyText v = True"
| "patternHolds SlashFirst v = (v = [] \<or> hd v = 0x2f)"
| "patternHolds OneVisible v = (v = [] \<or> list_ex (\<lambda>c. \<not> isWhite c) v)"
| "patternHolds ParamChars v = (v = [] \<or> paramPattern v)"

definition boxValid :: "form_box \<Rightarrow> bool" where
  "boxValid b \<longleftrightarrow> filled (bx_required b) (bx_value b) \<and> patternHolds (bx_pattern b) (bx_value b)"

fun boxesOf :: "field_view \<Rightarrow> form_box list" where
  "boxesOf (BoxField b) = [b]"
| "boxesOf (ClientField _ bs _) = bs"
| "boxesOf _ = []"

definition upstreamBoxes :: "url_parser \<Rightarrow> upstream option \<Rightarrow> bool \<Rightarrow> upstream_form \<Rightarrow> form_box list" where
  "upstreamBoxes URL row open f = concat (map boxesOf (upstreamFields URL row open f))"

lemma boxesOf_map [simp]: "concat (map (boxesOf \<circ> BoxField) bs) = bs" "concat (map (boxesOf \<circ> TickField) ts) = []"
  by (induction bs) simp_all

lemma upstreamBoxes_eq:
  "upstreamBoxes URL row open f =
     (let auth = uf_auth_type f in
      [nameField f] @ (if row = None then [slugField f] else []) @ [urlField URL row f] @
      (if uf_kind f = js ''http'' then [testPathField f] else []) @ [descriptionField f] @
      (if auth = js ''oauth'' \<and> open then clientBoxes row f else []) @
      (if auth = js ''bearer'' then bearerBoxes row f else []) @
      (if headerShaped auth then headerBoxes row f else []) @
      (if queryShaped auth then queryBoxes row f else []))"
  by (simp add: upstreamBoxes_def upstreamFields_def clientField_def Let_def)

lemmas box_defs = nameField_def slugField_def urlField_def testPathField_def descriptionField_def clientBoxes_def bearerBoxes_def
  headerBoxes_def queryBoxes_def secretBox_def plainBox_def

lemma box_values [simp]:
  "boxValid (nameField f) \<longleftrightarrow> filled True (uf_name f)" "boxValid (slugField f)" "boxValid (urlField URL row f) \<longleftrightarrow> filled True (uf_url f)"
  "boxValid (testPathField f) \<longleftrightarrow> patternHolds SlashFirst (uf_test_path f)" "boxValid (descriptionField f)"
  "list_all boxValid (clientBoxes row f) \<longleftrightarrow> filled (uf_client_secret f \<noteq> []) (uf_client_id f)"
  "list_all boxValid (bearerBoxes row f) \<longleftrightarrow> filled (credRequired row f) (uf_token f)"
  "list_all boxValid (headerBoxes row f) \<longleftrightarrow> filled (headerRequired row f) (uf_header f) \<and> patternHolds OneVisible (uf_header f) \<and>
     filled (credRequired row f) (uf_value f)"
  "list_all boxValid (queryBoxes row f) \<longleftrightarrow> filled (if row \<noteq> None then paramRequired row f else True) (uf_param f) \<and>
     patternHolds ParamChars (uf_param f) \<and> filled (if row \<noteq> None then credRequired row f else True) (uf_value f)"
  by (simp_all add: box_defs boxValid_def filled_def Let_def)

text \<open>The boxes with the disclosure open hold a submit to \<open>fieldsValid\<close>; with it closed the submit handler's own
  check of a lone client secret makes up the difference.\<close>

lemma list_all_if: "list_all P (if c then xs else []) \<longleftrightarrow> (c \<longrightarrow> list_all P xs)"
  by simp

lemma upstreamBoxes_valid:
  "list_all boxValid (upstreamBoxes URL row open f) \<longleftrightarrow>
     filled True (uf_name f) \<and> filled True (uf_url f) \<and> (uf_kind f = js ''http'' \<longrightarrow> patternHolds SlashFirst (uf_test_path f)) \<and>
     (uf_auth_type f = js ''oauth'' \<and> open \<longrightarrow> list_all boxValid (clientBoxes row f)) \<and>
     (uf_auth_type f = js ''bearer'' \<longrightarrow> list_all boxValid (bearerBoxes row f)) \<and>
     (headerShaped (uf_auth_type f) \<longrightarrow> list_all boxValid (headerBoxes row f)) \<and>
     (queryShaped (uf_auth_type f) \<longrightarrow> list_all boxValid (queryBoxes row f))"
  by (simp only: upstreamBoxes_eq Let_def list_all_append list_all_if list.pred_inject box_values simp_thms conj_assoc)

lemma boxes_ask_fieldsValid: "list_all boxValid (upstreamBoxes URL row True f) \<longleftrightarrow> fieldsValid row f"
  unfolding upstreamBoxes_valid box_values(6-9) fieldsValid_def credRequired_def Let_def patternHolds.simps by simp

lemma closed_client_boxes:
  assumes "list_all boxValid (upstreamBoxes URL row open f)" "\<not> clientSecretAlone f"
  shows "fieldsValid row f"
proof -
  have "filled (uf_client_secret f \<noteq> []) (uf_client_id f)" if "uf_auth_type f = js ''oauth''"
    using assms(2) that by (auto simp: clientSecretAlone_def filled_def)
  then have "list_all boxValid (upstreamBoxes URL row True f)" using assms(1) unfolding upstreamBoxes_valid box_values(6) by blast
  then show ?thesis by (simp add: boxes_ask_fieldsValid)
qed

section \<open>Boxes are controlled\<close>

text \<open>What a box shows and what it asks for are a function of the form, and its edit writes the field it shows.\<close>

definition boxShows :: "jstr \<Rightarrow> form_box list \<Rightarrow> jstr option" where
  "boxShows name bs = map_of (map (\<lambda>b. (bx_name b, bx_value b)) bs) name"

lemma box_names:
  "map bx_name (upstreamBoxes URL row open f) =
     (let auth = uf_auth_type f in
      [js ''name''] @ (if row = None then [js ''slug''] else []) @ [js ''url''] @
      (if uf_kind f = js ''http'' then [js ''test_path''] else []) @ [js ''description''] @
      (if auth = js ''oauth'' \<and> open then [js ''client_id'', js ''client_secret''] else []) @
      (if auth = js ''bearer'' then [js ''token''] else []) @
      (if headerShaped auth then [js ''header'', js ''value''] else []) @
      (if queryShaped auth then [js ''param'', js ''value''] else []))"
  by (simp add: upstreamBoxes_eq box_defs Let_def)

lemma box_names_distinct: "distinct (map bx_name (upstreamBoxes URL row open f))"
  by (auto simp: box_names Let_def headerShaped_def queryShaped_def)

text \<open>The edit of a box keeps the kind and the auth type, so it keeps the boxes drawn.\<close>

definition fieldOf :: "jstr \<Rightarrow> upstream_form \<Rightarrow> jstr" where
  "fieldOf name f = orElse (map_of [(js ''name'', uf_name f), (js ''slug'', uf_slug f), (js ''url'', uf_url f), (js ''test_path'', uf_test_path f),
     (js ''description'', uf_description f), (js ''client_id'', uf_client_id f), (js ''client_secret'', uf_client_secret f),
     (js ''token'', uf_token f), (js ''header'', uf_header f), (js ''param'', uf_param f), (js ''value'', uf_value f)] name) []"

definition ownField :: "upstream_form \<Rightarrow> form_box \<Rightarrow> bool" where
  "ownField f b \<longleftrightarrow> bx_value b = fieldOf (bx_name b) f \<and>
     (\<forall>v. let g = applyEdit (bx_edit b v) f in fieldOf (bx_name b) g = v \<and> uf_kind g = uf_kind f \<and> uf_auth_type g = uf_auth_type f)"

lemma fieldOf_eval [simp]:
  "fieldOf (js ''name'') f = uf_name f" "fieldOf (js ''slug'') f = uf_slug f" "fieldOf (js ''url'') f = uf_url f"
  "fieldOf (js ''test_path'') f = uf_test_path f" "fieldOf (js ''description'') f = uf_description f" "fieldOf (js ''client_id'') f = uf_client_id f"
  "fieldOf (js ''client_secret'') f = uf_client_secret f" "fieldOf (js ''token'') f = uf_token f" "fieldOf (js ''header'') f = uf_header f"
  "fieldOf (js ''param'') f = uf_param f" "fieldOf (js ''value'') f = uf_value f"
  by (simp_all add: fieldOf_def)

lemma own_fields:
  "ownField f (nameField f)" "ownField f (slugField f)" "ownField f (urlField URL row f)" "ownField f (testPathField f)"
  "ownField f (descriptionField f)" "list_all (ownField f) (clientBoxes row f)" "list_all (ownField f) (bearerBoxes row f)"
  "list_all (ownField f) (headerBoxes row f)" "list_all (ownField f) (queryBoxes row f)"
  unfolding ownField_def box_defs Let_def by simp_all

lemma boxes_own_fields: "list_all (ownField f) (upstreamBoxes URL row open f)"
  unfolding upstreamBoxes_eq Let_def list_all_append list_all_if list.pred_inject by (simp add: own_fields)

lemma box_is_field:
  assumes "b \<in> set (upstreamBoxes URL row open f)"
  shows "bx_value b = fieldOf (bx_name b) f"
    and "fieldOf (bx_name b) (applyEdit (bx_edit b v) f) = v"
    and "uf_kind (applyEdit (bx_edit b v) f) = uf_kind f" "uf_auth_type (applyEdit (bx_edit b v) f) = uf_auth_type f"
  using boxes_own_fields [of f URL row "open"] assms unfolding list_all_iff ownField_def Let_def by blast+

lemma boxShows_field: "boxShows name (upstreamBoxes URL row open f) = (if name \<in> bx_name ` set (upstreamBoxes URL row open f) then Some (fieldOf name f) else None)"
proof -
  have "map (\<lambda>b. (bx_name b, bx_value b)) (upstreamBoxes URL row open f) = map (\<lambda>n. (n, fieldOf n f)) (map bx_name (upstreamBoxes URL row open f))"
    by (simp add: box_is_field(1))
  then show ?thesis unfolding boxShows_def by (simp add: map_of_map_restrict restrict_map_def image_image flip: map_map)
qed

lemma typed_shows:
  assumes "b \<in> set (upstreamBoxes URL row open f)"
  shows "boxShows (bx_name b) (upstreamBoxes URL row open (applyEdit (bx_edit b v) f)) = Some v"
proof -
  let ?g = "applyEdit (bx_edit b v) f"
  have "map bx_name (upstreamBoxes URL row open ?g) = map bx_name (upstreamBoxes URL row open f)"
    by (simp add: box_names box_is_field(3,4) [OF assms])
  then have "bx_name b \<in> bx_name ` set (upstreamBoxes URL row open ?g)" using assms by (metis image_eqI list.set_map)
  then show ?thesis by (simp add: boxShows_field box_is_field(2) [OF assms])
qed

section \<open>Secrets, required credentials, selects\<close>

lemma secret_boxes:
  assumes "b \<in> set (upstreamBoxes URL row open f)" "bx_secret b"
  shows "bx_value b \<in> {uf_client_secret f, uf_token f, uf_value f}"
  using assms unfolding upstreamBoxes_eq Let_def by (auto simp: box_defs Let_def split: if_splits)

text \<open>The Edit dialog opens with every secret box empty, whatever was typed before.\<close>

lemma edit_holds_no_secret:
  assumes "b \<in> set (upstreamBoxes URL (up_editing (openEditUp u s)) open (up_form (openEditUp u s)))" "bx_secret b"
  shows "bx_value b = []"
  using secret_boxes [OF assms] by (auto simp: openEditUp_def openedUp_def resetFormDiscovery_def formFromUpstream_def)

text \<open>A credential the dialog requires has a box that asks for it.\<close>

lemma required_has_a_box:
  assumes "credentialRequired before f" "uf_auth_type f \<in> fst ` set authOptions"
  shows "\<exists>b \<in> set (upstreamBoxes URL (Some before) open f). bx_secret b \<and> bx_required b"
proof -
  have "uf_auth_type f = js ''bearer'' \<or> headerShaped (uf_auth_type f) \<or> queryShaped (uf_auth_type f)"
    using assms by (auto simp: authOptions_def headerShaped_def queryShaped_def credentialRequired_def split: if_splits)
  moreover have "\<exists>b \<in> set bs. bx_secret b \<and> bx_required b"
    if "bs \<in> {bearerBoxes (Some before) f, headerBoxes (Some before) f, queryBoxes (Some before) f}" for bs
    using that assms(1) by (auto simp: bearerBoxes_def headerBoxes_def queryBoxes_def secretBox_def credRequired_def)
  ultimately show ?thesis unfolding upstreamBoxes_eq Let_def by (elim disjE) (auto simp: Bex_def)
qed

lemma transport_offered: "uf_transport f \<noteq> [] \<Longrightarrow> offers (transportSelect f)"
  by (auto simp: offers_def transportSelect_def transportUnsupported_def Let_def)

lemma auth_offered: "offers (authSelect row f) \<longleftrightarrow>
    uf_auth_type f \<in> fst ` set authOptions \<and> \<not> (uf_kind f = js ''http'' \<and> uf_auth_type f = js ''oauth'')"
  by (auto simp: offers_def authSelect_def)

text \<open>Changing the kind keeps the auth select on an option it offers.\<close>

lemma kind_keeps_offer: "offers (authSelect row f) \<Longrightarrow> offers (authSelect row (applyKindChange f k))"
proof -
  have "js ''none'' \<in> fst ` set authOptions" by (simp add: authOptions_def)
  then show "offers (authSelect row f) \<Longrightarrow> ?thesis" unfolding auth_offered by (auto simp: applyKindChange_def Let_def)
qed

section \<open>The table\<close>

fun DOT :: "test_tone \<Rightarrow> jstr" where
  "DOT NeverTone = js ''bg-zinc-400 dark:bg-zinc-500''"
| "DOT PassedTone = js ''bg-lime-500 dark:bg-lime-400''"
| "DOT FailedTone = js ''bg-pink-500 dark:bg-pink-400''"

record test_line =
  tln_dot :: jstr
  tln_word :: jstr
  tln_time :: "(jstr \<times> jstr) option"

definition testStateLine :: "(jstr \<Rightarrow> int option) \<Rightarrow> upstream \<Rightarrow> int \<Rightarrow> test_line" where
  "testStateLine dateParse u nowMs =
     (let s = testState dateParse (u_last_test_at u) (u_last_test_ok u) nowMs in
      \<lparr>tln_dot = DOT (ts_tone s), tln_word = ts_word s,
       tln_time = (case ts_at s of Some at \<Rightarrow> if at \<noteq> [] then Some (at, orElse (ts_ago s) []) else None | None \<Rightarrow> None)\<rparr>)"

record auth_cell =
  acl_type :: jstr
  acl_badge :: "(jstr \<times> badge_color) option"
  acl_set :: "jstr option"
  acl_until :: "jstr option"

definition authCell :: "upstream \<Rightarrow> auth_cell" where
  "authCell u =
     (let a = rowAuthState u; badge = authBadge a; until = orElse (as_expiresAt a) []; ok = (badge = None \<and> as_tone a = OkTone) in
      \<lparr>acl_type = u_auth_type u, acl_badge = map_option (\<lambda>c. (as_label a, c)) badge,
       acl_set = (if ok then Some (if until \<noteq> [] then as_label a else js ''set'') else None),
       acl_until = (if ok then shownIf until else None)\<rparr>)"

record upstream_row =
  ur_name :: jstr
  ur_slug :: jstr
  ur_url :: jstr
  ur_kind :: jstr
  ur_unsupported :: bool
  ur_auth :: auth_cell
  ur_status :: jstr
  ur_test :: test_line
  ur_actions :: "(up_state \<Rightarrow> up_state) actions_view option"

text \<open>The handlers a row binds to its menu.\<close>

fun rowHandler :: "upstream \<Rightarrow> upstream_action \<Rightarrow> up_state \<Rightarrow> up_state" where
  "rowHandler u UConnect s = connectUp u s"
| "rowHandler u UTools s = openTools u s"
| "rowHandler u UEdit s = openEditUp u s"
| "rowHandler u UDelete s = s\<lparr>up_pendingDelete := Some u\<rparr>"

definition upstreamSections :: "upstream \<Rightarrow> (jstr \<times> (up_state \<Rightarrow> up_state) \<times> bool) list list" where
  "upstreamSections u = bindRowActions (upstreamActions u) (rowHandler u)"

definition upstreamRow :: "(jstr \<Rightarrow> int option) \<Rightarrow> up_state \<Rightarrow> upstream \<Rightarrow> upstream_row" where
  "upstreamRow dateParse s u =
     (let c = rowConnectState (u_id u) (up_connecting s) in
      \<lparr>ur_name = u_name u, ur_slug = u_slug u, ur_url = u_url u, ur_kind = kindLabel (u_kind u),
       ur_unsupported = (u_kind u \<noteq> js ''http'' \<and> transportUnsupported (u_transport u)), ur_auth = authCell u,
       ur_status = (if u_enabled u then js ''Enabled'' else js ''Disabled''), ur_test = testStateLine dateParse u (up_loadedAt s),
       ur_actions = rowActions (u_name u) (upstreamSections u) (fst c) (snd c)\<rparr>)"

datatype upstream_table = NoUpstreams jstr | UpstreamTable "upstream_row list"

definition upstreamsTable :: "(jstr \<Rightarrow> int option) \<Rightarrow> up_state \<Rightarrow> upstream_table" where
  "upstreamsTable dateParse s =
     (if length (up_items s) = 0 then NoUpstreams (js ''No upstreams yet. Add the first MCP server or HTTP API.'')
      else UpstreamTable (map (upstreamRow dateParse s) (up_items s)))"

section \<open>Dialogs and alerts\<close>

definition discoverButton :: "url_parser \<Rightarrow> up_state \<Rightarrow> button_view" where
  "discoverButton URL s =
     (let f = up_form s; pending = ds_pending (up_formDiscovery s) in
      \<lparr>bt_label = (if uf_kind f = js ''http'' then (if pending then js ''Testing'' @ [0x2026] else js ''Test'')
                   else if pending then js ''Discovering'' @ [0x2026] else js ''Discover tools''),
       bt_disabled = (\<not> discoverable URL (uf_url f) \<or> pending \<or> uf_auth_type f = js ''oauth'')\<rparr>)"

definition discoverCaption :: "upstream_form \<Rightarrow> jstr" where
  "discoverCaption f =
     (if uf_kind f = js ''http'' then js ''Sends one GET to the base URL and test path using these credentials, and shows the status. Nothing is saved, and this check is not recorded as a test.''
      else if uf_auth_type f = js ''oauth'' then js ''Discovery needs a token. Create the upstream, connect it, then use Tools on its row.''
      else js ''Connects to the URL above using these credentials and lists the tools that server offers. Nothing is saved, and this check is not recorded as a test.'')"

definition draftProps :: "upstream_form \<Rightarrow> panel_props" where
  "draftProps f = \<lparr>pp_url = uf_url f, pp_authType = uf_auth_type f, pp_slug = trim (uf_slug f), pp_surface = Draft,
     pp_kind = uf_kind f, pp_testPath = Some (trim (uf_test_path f))\<rparr>"

definition savedProps :: "upstream \<Rightarrow> panel_props" where
  "savedProps u = \<lparr>pp_url = u_url u, pp_authType = u_auth_type u, pp_slug = u_slug u, pp_surface = Saved,
     pp_kind = u_kind u, pp_testPath = u_test_path u\<rparr>"

definition revokeWords :: "upstream \<Rightarrow> revoke_copy" where
  "revokeWords u = REVOKE_COPY (orElse (rowRevokeKind u) RClient)"

record revoke_view =
  rvk_button :: button_view
  rvk_caption :: jstr
  rvk_line :: "jstr option"

definition revokeSection :: "up_state \<Rightarrow> revoke_view option" where
  "revokeSection s =
     (case up_editing s of
        Some u \<Rightarrow>
          (if u_auth_type u = js ''oauth'' then
             Some \<lparr>rvk_button = \<lparr>bt_label = rc_button (revokeWords u), bt_disabled = (rowRevokeKind u = None \<or> up_revoking s)\<rparr>,
                   rvk_caption = rc_caption (revokeWords u), rvk_line = shownIf (up_revokeLine s)\<rparr>
           else None)
      | None \<Rightarrow> None)"

definition dialogTitle :: "up_state \<Rightarrow> jstr" where
  "dialogTitle s = (if up_editing s \<noteq> None then js ''Edit upstream'' else js ''Add upstream'')"

definition dialogDescription :: "up_state \<Rightarrow> jstr option" where
  "dialogDescription s = map_option (\<lambda>u. js ''Slug: '' @ u_slug u @ js ''. Kind: '' @ kindLabel (u_kind u) @
     js ''. Both are fixed once the upstream is created.'') (up_editing s)"

definition submitButton :: "up_state \<Rightarrow> button_view" where
  "submitButton s = \<lparr>bt_label = (if up_saving s then js ''Saving'' @ [0x2026] else if up_editing s \<noteq> None then js ''Save changes'' else js ''Create''),
     bt_disabled = up_saving s\<rparr>"

definition refreshButton :: "up_state \<Rightarrow> button_view" where
  "refreshButton s =
     (let pending = ds_pending (up_rowDiscovery s) in
      \<lparr>bt_label = (if map_option u_kind (up_tools s) = Some (js ''http'') then (if pending then js ''Testing'' @ [0x2026] else js ''Test again'')
                   else if pending then js ''Refreshing'' @ [0x2026] else js ''Refresh''), bt_disabled = pending\<rparr>)"

definition refreshTools :: "up_state \<Rightarrow> up_state" where
  "refreshTools s = (case up_tools s of Some u \<Rightarrow> discoverRow u s | None \<Rightarrow> s)"

definition revokeAlert :: "up_state \<Rightarrow> alert_view" where
  "revokeAlert s =
     (let kind = Option.bind (up_pendingRevoke s) rowRevokeKind; copy = REVOKE_COPY (orElse kind RClient) in
      \<lparr>av_title = rc_title copy,
       av_text = (case up_pendingRevoke s of
           Some u \<Rightarrow> revokeDescription (orElse (rowRevokeKind u) RClient) (u_name u) (Option.bind (u_oauth u) oa_client_source = Some (js ''supplied''))
         | None \<Rightarrow> []),
       av_error = shownIf (up_revokeError s),
       av_confirm = \<lparr>bt_label = (if up_revoking s then (if kind = Some RConnected then js ''Disconnecting'' @ [0x2026] else js ''Removing'' @ [0x2026])
                                 else rc_confirm copy), bt_disabled = up_revoking s\<rparr>\<rparr>)"

definition deleteAlert :: "up_state \<Rightarrow> alert_view" where
  "deleteAlert s =
     \<lparr>av_title = js ''Delete this upstream?'',
      av_text = (case up_pendingDelete s of
          Some u \<Rightarrow> u_name u @ js '' will be removed. Its stored credential is deleted with it. This cannot be undone.'' | None \<Rightarrow> []),
      av_error = shownIf (up_deleteError s),
      av_confirm = \<lparr>bt_label = (if up_deleting s then js ''Deleting'' @ [0x2026] else js ''Delete''), bt_disabled = up_deleting s\<rparr>\<rparr>"

section \<open>What the page draws is what it does\<close>

text \<open>The dot: one class per state, and the green one only beside a test that was run and passed.\<close>

lemma dots_apart: "DOT a = DOT b \<longleftrightarrow> a = b"
  by (cases a; cases b; simp)

lemma green_dot_is_a_passed_test:
  "tln_dot (testStateLine dateParse u now) = DOT PassedTone \<longleftrightarrow>
     u_last_test_ok u = Some True \<and> (\<exists>at t. u_last_test_at u = Some at \<and> at \<noteq> [] \<and> dateParse at = Some t)"
  by (simp add: testStateLine_def dots_apart testState_passed Let_def del: DOT.simps)

lemma upstream_items:
  "(l, h, d) \<in> set (concat (upstreamSections u)) \<longleftrightarrow>
     (\<exists>spec \<in> set (concat (upstreamActions u)). l = ac_label spec \<and> h = rowHandler u (ac_action spec) \<and> d = ac_destructive spec)"
  by (auto simp: upstreamSections_def bindRowActions_def)

interpretation upstream_menu: row_menu upstreamSections up_items "\<lambda>s. True" "up_step URL" up_sent
proof unfold_locales
  fix sec and r :: upstream assume "sec \<in> set (upstreamSections r)"
  then show "sec \<noteq> []" by (auto simp: upstreamSections_def bindRowActions_def upstreamActions_def)
next
  fix r :: upstream
  show "distinct (map fst (concat (upstreamSections r)))"
    by (simp add: upstreamSections_def bindRowActions_def upstreamActions_def item_def removeItem_def connectLabel_def toolsLabel_def)
next
  fix s :: up_state and r :: upstream and l h d
  assume "(l, h, d) \<in> set (concat (upstreamSections r))"
  then obtain act where "h = rowHandler r act" unfolding upstream_items by blast
  then show "up_step URL s (h s)"
    by (cases act) (simp_all add: up_step.connect up_step.open_tools up_step.open_edit up_step.ask_delete)
next
  fix l h and r :: upstream and s :: up_state
  assume "(l, h, True) \<in> set (concat (upstreamSections r))"
  then have "h = rowHandler r UDelete" unfolding upstream_items by (auto simp: upstreamActions_def item_def removeItem_def split: if_splits)
  then show "up_sent (h s) = up_sent s" by simp
qed

lemma discover_step: "up_editing s = None \<Longrightarrow> \<not> bt_disabled (discoverButton URL s) \<Longrightarrow> up_step URL s (discoverForm s)"
  by (auto simp: discoverButton_def Let_def intro: up_step.discover)

lemma refresh_step: "up_tools s \<noteq> None \<Longrightarrow> up_step URL s (refreshTools s)"
  by (auto simp: refreshTools_def intro: up_step.tools_again)

text \<open>A row that needs a sign-in wears an amber badge, and its menu has the item that signs in. \<open>expired\<close> is a state
  the server gives oauth rows only.\<close>

lemma amber_has_connect:
  assumes "acl_badge (authCell u) = Some (l, BadgeAmber)" "u_auth_status u = js ''expired'' \<Longrightarrow> u_auth_type u = js ''oauth''"
  shows "(connectLabel (u_oauth u), connectUp u, False) \<in> set (concat (upstreamSections u))"
proof -
  have "rowHandler u UConnect = connectUp u" by (rule ext) simp
  moreover have "as_tone (rowAuthState u) \<in> {HeldTone, IdleTone}"
    using assms(1) by (auto simp: authCell_def authBadge_def Let_def split: auth_tone.splits)
  then have "u_auth_type u = js ''oauth''"
    using assms(2) by (auto simp: rowAuthState_def authState_def Let_def split: if_splits option.splits)
  ultimately show ?thesis by (simp add: upstreamSections_def bindRowActions_def upstreamActions_def item_def)
qed

text \<open>A row reads as set only when its credential is usable, and never beside a badge.\<close>

lemma set_is_usable: "acl_set (authCell u) \<noteq> None \<longleftrightarrow> as_tone (rowAuthState u) = OkTone"
  by (auto simp: authCell_def Let_def authBadge_None_iff)

lemma set_or_badge: "acl_set (authCell u) = None \<or> acl_badge (authCell u) = None"
  by (simp add: authCell_def Let_def)

text \<open>The alert asks about the row it revokes, in the words of what the request will remove.\<close>

lemma revoke_words_agree:
  assumes "up_pendingRevoke s = Some u"
  shows "up_tasks (revokeUp s) = up_tasks s @ [RevokeTask u (orElse (rowRevokeKind u) RClient)]"
    and "av_title (revokeAlert s) = rc_title (revokeWords u)"
    and "up_revoking s \<Longrightarrow> bt_label (av_confirm (revokeAlert s)) = js ''Disconnecting'' @ [0x2026] \<longleftrightarrow> rc_confirm (revokeWords u) = js ''Disconnect''"
  using assms by (auto simp: revokeUp_def revokeAlert_def revokeWords_def up_light REVOKE_COPY_def Let_def orElse_def split: option.splits revoke_kind.splits)

section \<open>The redirect URL\<close>

text \<open>\<open>RedirectURILine\<close>: one request on mount, whose answer is dropped after an unmount, and a Copy button that is
  the discovery panel's. \<open>rd_redirect\<close> is \<open>None\<close> while nothing was answered; \<open>rd_served\<close> is a ghost, the list answered.\<close>

record redirect_state =
  rd_redirect :: "jstr option option"
  rd_alive :: bool
  rd_asked :: bool
  rd_served :: "jstr list option"
  rd_copy :: copy_state

definition redirectMount :: redirect_state where
  "redirectMount = \<lparr>rd_redirect = None, rd_alive = True, rd_asked = True, rd_served = None, rd_copy = copyBlank\<rparr>"

definition redirectAnswer :: "jstr list option \<Rightarrow> redirect_state \<Rightarrow> redirect_state" where
  "redirectAnswer ans s =
     (let s1 = s\<lparr>rd_asked := False, rd_served := ans\<rparr> in
      if \<not> rd_alive s then s1
      else s1\<lparr>rd_redirect := Some (case ans of Some (u # _) \<Rightarrow> Some u | _ \<Rightarrow> None)\<rparr>)"

definition redirectUnmount :: "redirect_state \<Rightarrow> redirect_state" where
  "redirectUnmount s = s\<lparr>rd_alive := False, rd_copy := (rd_copy s)\<lparr>cs_timer := False\<rparr>\<rparr>"

datatype redirect_line = RedirectWaiting jstr | RedirectMissing jstr | RedirectShown jstr jstr

definition redirectLine :: "redirect_state \<Rightarrow> redirect_line" where
  "redirectLine s =
     (case rd_redirect s of
        None \<Rightarrow> RedirectWaiting LOADING
      | Some None \<Rightarrow> RedirectMissing (js ''Could not load the redirect URL. Reload the page to try again.'')
      | Some (Some u) \<Rightarrow> RedirectShown u (case cs_copied (rd_copy s) of
          None \<Rightarrow> js ''Copy'' | Some (_, ok) \<Rightarrow> if ok then js ''Copied'' else js ''Copy failed''))"

inductive redirect_reach :: "redirect_state \<Rightarrow> bool" where
  rd_mounted: "redirect_reach redirectMount"
| rd_answered: "redirect_reach s \<Longrightarrow> rd_asked s \<Longrightarrow> redirect_reach (redirectAnswer ans s)"
| rd_pressed: "redirect_reach s \<Longrightarrow> rd_alive s \<Longrightarrow> rd_redirect s = Some (Some u) \<Longrightarrow> redirect_reach (s\<lparr>rd_copy := copyPress u (rd_copy s)\<rparr>)"
| rd_copied: "redirect_reach s \<Longrightarrow> i < length (cs_waiting (rd_copy s)) \<Longrightarrow> redirect_reach (s\<lparr>rd_copy := copyDone i ok (rd_copy s)\<rparr>)"
| rd_timed: "redirect_reach s \<Longrightarrow> cs_timer (rd_copy s) \<Longrightarrow> redirect_reach (s\<lparr>rd_copy := copyTimer (rd_copy s)\<rparr>)"
| rd_gone: "redirect_reach s \<Longrightarrow> redirect_reach (redirectUnmount s)"

text \<open>While it is on screen the line is driven as the panel's copy machine, and only its own URL is ever copied.\<close>

definition redirect_inv :: "redirect_state \<Rightarrow> bool" where
  "redirect_inv s \<longleftrightarrow> (rd_alive s \<longrightarrow> copy_reach (rd_copy s)) \<and>
     (rd_asked s \<longrightarrow> rd_redirect s = None) \<and>
     (\<forall>u. rd_redirect s = Some (Some u) \<longrightarrow> (\<exists>us. rd_served s = Some (u # us))) \<and>
     (\<forall>n \<in> set (cs_waiting (rd_copy s)). rd_redirect s = Some (Some n)) \<and>
     (\<forall>n ok. cs_copied (rd_copy s) = Some (n, ok) \<longrightarrow> rd_redirect s = Some (Some n))"

lemma set_drop_nth: "x \<in> set (take i xs @ drop (Suc i) xs) \<Longrightarrow> x \<in> set xs"
  by (auto dest: in_set_takeD in_set_dropD)

lemma redirect_reach_inv: "redirect_reach s \<Longrightarrow> redirect_inv s"
proof (induction rule: redirect_reach.induct)
  case rd_mounted show ?case by (simp add: redirect_inv_def redirectMount_def copyBlank_def copy_reach.copy_mounted [unfolded copyBlank_def])
next
  case (rd_answered s ans)
  then have "cs_waiting (rd_copy s) = []" "cs_copied (rd_copy s) = None" "rd_redirect s = None"
    by (auto simp: redirect_inv_def dest: hd_in_set split: option.splits) (metis hd_in_set not_None_eq surj_pair)+
  with rd_answered show ?case by (auto simp: redirect_inv_def redirectAnswer_def Let_def split: option.splits list.splits)
next
  case (rd_pressed s u) then show ?case by (auto simp: redirect_inv_def copyPress_def copy_reach.copy_pressed [unfolded copyPress_def])
next
  case (rd_copied s i ok)
  have "cs_waiting (rd_copy s) ! i \<in> set (cs_waiting (rd_copy s))" using rd_copied.hyps by simp
  with rd_copied show ?case
    using copy_reach.copy_answered [of "rd_copy s" i ok] set_drop_nth [of _ i "cs_waiting (rd_copy s)"]
    by (auto simp: redirect_inv_def copyDone_def Let_def)
next
  case (rd_timed s) then show ?case using copy_reach.copy_timed [of "rd_copy s"] by (auto simp: redirect_inv_def copyTimer_def)
next
  case (rd_gone s) then show ?case by (auto simp: redirect_inv_def redirectUnmount_def)
qed

text \<open>The URL shown is the first the server served, and the label is the one of its last copy.\<close>

lemma redirect_shown:
  assumes "redirect_reach s" "rd_alive s" "redirectLine s = RedirectShown u l"
  shows "\<exists>us. rd_served s = Some (u # us)" "l = copyLabel (cs_copied (rd_copy s)) u"
    and "l \<noteq> js ''Copy'' \<Longrightarrow> \<exists>ok. cs_last (rd_copy s) = Some (u, ok) \<and> l = (if ok then js ''Copied'' else js ''Copy failed'')"
proof -
  have inv: "redirect_inv s" by (rule redirect_reach_inv [OF assms(1)])
  have u: "rd_redirect s = Some (Some u)" using assms(3) by (auto simp: redirectLine_def split: option.splits)
  with inv show "\<exists>us. rd_served s = Some (u # us)" by (auto simp: redirect_inv_def)
  show l: "l = copyLabel (cs_copied (rd_copy s)) u"
    using inv u assms(3) by (auto simp: redirect_inv_def redirectLine_def copyLabel_def split: option.splits)
  assume "l \<noteq> js ''Copy''"
  then show "\<exists>ok. cs_last (rd_copy s) = Some (u, ok) \<and> l = (if ok then js ''Copied'' else js ''Copy failed'')"
    using copied_label_is_the_last [of "rd_copy s" u] inv assms(2) l by (auto simp: redirect_inv_def)
qed

section \<open>Properties\<close>


text \<open>
  A text typed into a box of the upstream dialog is what that box shows after the edit, and the
  boxes drawn stay the same; names of boxes are unique in the dialog.
\<close>

theorem typed_is_shown:
  assumes "b \<in> set (upstreamBoxes URL row open f)"
  shows "boxShows (bx_name b) (upstreamBoxes URL row open (applyEdit (bx_edit b v) f)) = Some v \<and>
     map bx_name (upstreamBoxes URL row open (applyEdit (bx_edit b v) f)) = map bx_name (upstreamBoxes URL row open f) \<and>
     distinct (map bx_name (upstreamBoxes URL row open f))"
  using typed_shows [OF assms] box_names_distinct by (simp add: box_names box_is_field(3,4) [OF assms])

theorem typed_is_shown_witness:
  "boxShows (js ''name'') (upstreamBoxes (\<lambda>_. None) None False (applyEdit (EName (js ''git'')) blankUpstreamForm)) = Some (js ''git'')"
proof -
  have "nameField blankUpstreamForm \<in> set (upstreamBoxes (\<lambda>_. None) None False blankUpstreamForm)"
    "bx_name (nameField blankUpstreamForm) = js ''name''" "bx_edit (nameField blankUpstreamForm) (js ''git'') = EName (js ''git'')"
    by (simp_all add: upstreamBoxes_eq nameField_def plainBox_def Let_def)
  then show ?thesis using typed_is_shown [of "nameField blankUpstreamForm" "\<lambda>_. None" None False blankUpstreamForm "js ''git''"] by simp
qed

end
