(* ===== verification/DiscoverMany.thy ===== *)
theory DiscoverMany
  imports Catalogue
begin

text \<open>
  One Load tools press: \<open>web/src/lib/discover-many.ts\<close>, and the hook that owns a dialog's
  catalogue, \<open>web/src/lib/use-catalogue.ts\<close>.

  \<open>discoverMembers\<close> runs at most \<open>PICKER_IN_FLIGHT\<close> workers over one shared counter. JavaScript
  runs a worker without interruption between two \<open>await\<close>s, so the state changes in two kinds of
  turn: \<open>launch\<close>, which runs every worker to its first \<open>await\<close>, and \<open>settleWorker\<close>, in which
  one awaited discovery answers and its worker runs on to the next \<open>await\<close> or its end. Which
  worker is answered next, and with what, is the environment's choice, so a press is a
  relation; \<open>stale\<close> is read at each turn.

  The lemmas show that at most two discoveries are in flight, that the members are asked in
  order and each at most once, that nothing starts after a 429 and nothing is painted once the
  dialog moved on, and that every press ends.
\<close>

section \<open>Workers\<close>

definition PICKER_IN_FLIGHT :: nat where
  "PICKER_IN_FLIGHT = 2"

datatype worker = WReady | WAwait nat | WDone

text \<open>\<open>dm_calls\<close> and \<open>dm_updates\<close> record the calls of \<open>discover\<close> and \<open>onUpdate\<close>, by the index of
  the member they are about.\<close>

record dm_state =
  dm_next :: nat
  dm_rateLimited :: jstr
  dm_workers :: "worker list"
  dm_calls :: "nat list"
  dm_updates :: "(nat \<times> member_catalogue) list"

definition setWorker :: "nat \<Rightarrow> worker \<Rightarrow> dm_state \<Rightarrow> dm_state" where
  "setWorker w x s = s\<lparr>dm_workers := (dm_workers s)[w := x]\<rparr>"

definition onUpdate :: "nat \<Rightarrow> member_catalogue \<Rightarrow> dm_state \<Rightarrow> dm_state" where
  "onUpdate i m s = s\<lparr>dm_updates := dm_updates s @ [(i, m)]\<rparr>"

text \<open>The head of the \<open>while\<close> loop: take the next member and start its discovery, or end.\<close>

definition workerLoop :: "member list \<Rightarrow> bool \<Rightarrow> nat \<Rightarrow> dm_state \<Rightarrow> dm_state" where
  "workerLoop members stale w s =
     (if dm_next s < length members \<and> dm_rateLimited s = [] \<and> \<not> stale then
        (let i = dm_next s; m = members ! i;
             s1 = onUpdate i ((idleMember m)\<lparr>mc_state := LoadingState\<rparr>) (s\<lparr>dm_next := Suc i\<rparr>)
         in setWorker w (WAwait i) (s1\<lparr>dm_calls := dm_calls s1 @ [i]\<rparr>))
      else setWorker w WDone s)"

text \<open>The rest of the body, once the awaited discovery answered or threw.\<close>

definition settleWorker :: "member list \<Rightarrow> bool \<Rightarrow> nat \<Rightarrow> nat \<Rightarrow> failure + discovery \<Rightarrow> dm_state \<Rightarrow> dm_state" where
  "settleWorker members stale w i ans s =
     (if stale then setWorker w WDone s
      else (let m = members ! i in
        case ans of
          Inr d \<Rightarrow> workerLoop members stale w (onUpdate i (memberFromDiscovery m d) s)
        | Inl err \<Rightarrow>
            (case err of
               ApiErr e \<Rightarrow>
                 (if err_status e = 429 then
                    workerLoop members stale w
                      (onUpdate i (idleMember m) (s\<lparr>dm_rateLimited := orStr (dm_rateLimited s) (discoveryErrorMessage err)\<rparr>))
                  else workerLoop members stale w
                      (onUpdate i ((idleMember m)\<lparr>mc_state := FailedState, mc_error := discoveryErrorMessage err\<rparr>) s))
             | OtherErr _ \<Rightarrow> workerLoop members stale w
                   (onUpdate i ((idleMember m)\<lparr>mc_state := FailedState, mc_error := discoveryErrorMessage err\<rparr>) s))))"

definition dmBlank :: "member list \<Rightarrow> dm_state" where
  "dmBlank members = \<lparr>dm_next = 0, dm_rateLimited = [],
     dm_workers = replicate (min PICKER_IN_FLIGHT (length members)) WReady, dm_calls = [], dm_updates = []\<rparr>"

text \<open>\<open>Array.from({ length: ... }, worker)\<close>: each worker runs to its first \<open>await\<close>, in order.\<close>

definition launch :: "member list \<Rightarrow> bool \<Rightarrow> dm_state" where
  "launch members stale =
     fold (workerLoop members stale) [0..<min PICKER_IN_FLIGHT (length members)] (dmBlank members)"

inductive dm_step :: "member list \<Rightarrow> bool \<Rightarrow> dm_state \<Rightarrow> dm_state \<Rightarrow> bool" where
  settle: "w < length (dm_workers s) \<Longrightarrow> dm_workers s ! w = WAwait i \<Longrightarrow>
     dm_step members stale s (settleWorker members stale w i ans s)"

inductive_cases dm_stepE: "dm_step members stale s t"

inductive dm_reach :: "member list \<Rightarrow> dm_state \<Rightarrow> bool" where
  launched: "dm_reach members (launch members stale)"
| stepped: "dm_reach members s \<Longrightarrow> dm_step members stale s t \<Longrightarrow> dm_reach members t"

definition dmFinished :: "dm_state \<Rightarrow> bool" where
  "dmFinished s \<longleftrightarrow> list_all (\<lambda>w. w = WDone) (dm_workers s)"

section \<open>Invariant\<close>

definition awaited :: "dm_state \<Rightarrow> nat list" where
  "awaited s = concat (map (\<lambda>w. case w of WAwait i \<Rightarrow> [i] | _ \<Rightarrow> []) (dm_workers s))"

text \<open>The last thing painted for a member.\<close>

definition lastUpdate :: "dm_state \<Rightarrow> nat \<Rightarrow> member_catalogue option" where
  "lastUpdate s i = map_of (rev (dm_updates s)) i"

definition dm_inv :: "member list \<Rightarrow> dm_state \<Rightarrow> bool" where
  "dm_inv members s \<longleftrightarrow>
     dm_next s \<le> length members \<and> dm_calls s = [0..<dm_next s] \<and>
     length (dm_workers s) \<le> PICKER_IN_FLIGHT \<and>
     (\<forall>i. WAwait i \<in> set (dm_workers s) \<longrightarrow> i < dm_next s) \<and>
     (\<forall>(i, u) \<in> set (dm_updates s). i < dm_next s \<and> mc_member u = members ! i)"

lemma setWorker_sel [simp]:
  "dm_next (setWorker w x s) = dm_next s" "dm_rateLimited (setWorker w x s) = dm_rateLimited s"
  "dm_calls (setWorker w x s) = dm_calls s" "dm_updates (setWorker w x s) = dm_updates s"
  "dm_workers (setWorker w x s) = (dm_workers s)[w := x]"
  by (simp_all add: setWorker_def)

lemma onUpdate_sel [simp]:
  "dm_next (onUpdate i m s) = dm_next s" "dm_rateLimited (onUpdate i m s) = dm_rateLimited s"
  "dm_calls (onUpdate i m s) = dm_calls s" "dm_updates (onUpdate i m s) = dm_updates s @ [(i, m)]"
  "dm_workers (onUpdate i m s) = dm_workers s"
  by (simp_all add: onUpdate_def)

lemma dm_inv_workerLoop:
  assumes "dm_inv members s"
  shows "dm_inv members (workerLoop members stale w s)"
proof -
  have upd: "set ((dm_workers s)[w := x]) \<subseteq> insert x (set (dm_workers s))" for x
    by (rule set_update_subset_insert)
  show ?thesis
  proof (cases "dm_next s < length members \<and> dm_rateLimited s = [] \<and> \<not> stale")
    case True
    then have r: "workerLoop members stale w s =
        setWorker w (WAwait (dm_next s)) ((onUpdate (dm_next s) ((idleMember (members ! dm_next s))\<lparr>mc_state := LoadingState\<rparr>)
          (s\<lparr>dm_next := Suc (dm_next s)\<rparr>))\<lparr>dm_calls := dm_calls s @ [dm_next s]\<rparr>)"
      by (simp add: workerLoop_def Let_def)
    show ?thesis
      unfolding r dm_inv_def using assms True upd [of "WAwait (dm_next s)"]
      by (fastforce simp: dm_inv_def less_Suc_eq)
  next
    case False
    then have "workerLoop members stale w s = setWorker w WDone s" by (auto simp: workerLoop_def)
    with assms upd [of WDone] show ?thesis by (auto simp: dm_inv_def)
  qed
qed

lemma dm_inv_onUpdate:
  "dm_inv members s \<Longrightarrow> i < dm_next s \<Longrightarrow> mc_member m = members ! i \<Longrightarrow> dm_inv members (onUpdate i m s)"
  by (auto simp: dm_inv_def)

lemma dm_inv_rateLimited: "dm_inv members (s\<lparr>dm_rateLimited := r\<rparr>) = dm_inv members s"
  by (simp add: dm_inv_def)

lemma dm_inv_setDone: "dm_inv members s \<Longrightarrow> dm_inv members (setWorker w WDone s)"
  using set_update_subset_insert [of "dm_workers s" w WDone] by (auto simp: dm_inv_def)

lemma dm_inv_settle:
  assumes "dm_inv members s" "i < dm_next s"
  shows "dm_inv members (settleWorker members stale w i ans s)"
proof (cases stale)
  case True
  with assms show ?thesis by (simp add: settleWorker_def dm_inv_setDone)
next
  case False
  then show ?thesis
    by (auto simp: settleWorker_def Let_def dm_inv_rateLimited assms split: sum.splits failure.splits
        intro!: dm_inv_workerLoop dm_inv_onUpdate)
qed

lemma dm_inv_fold: "dm_inv members s \<Longrightarrow> dm_inv members (fold (workerLoop members stale) ws s)"
  by (induction ws arbitrary: s) (auto simp: dm_inv_workerLoop)

lemma dm_inv_launch: "dm_inv members (launch members stale)"
  unfolding launch_def by (rule dm_inv_fold) (auto simp: dm_inv_def dmBlank_def)

lemma dm_inv_step: "dm_step members stale s t \<Longrightarrow> dm_inv members s \<Longrightarrow> dm_inv members t"
proof (erule dm_stepE)
  fix w i ans
  assume inv: "dm_inv members s" and w: "w < length (dm_workers s)" "dm_workers s ! w = WAwait i"
    and t: "t = settleWorker members stale w i ans s"
  from w have "WAwait i \<in> set (dm_workers s)" by (metis nth_mem)
  with inv have "i < dm_next s" by (simp add: dm_inv_def)
  with inv t show "dm_inv members t" by (simp add: dm_inv_settle)
qed

lemma dm_reach_inv: "dm_reach members s \<Longrightarrow> dm_inv members s"
  by (induction rule: dm_reach.induct) (auto intro: dm_inv_launch dm_inv_step)

section \<open>In flight\<close>

lemma length_awaited: "length (awaited s) \<le> length (dm_workers s)"
proof -
  have "length (concat (map (\<lambda>w. case w of WAwait i \<Rightarrow> [i] | _ \<Rightarrow> []) ws)) \<le> length ws" for ws :: "worker list"
    by (induction ws) (auto split: worker.splits)
  then show ?thesis by (simp add: awaited_def)
qed

section \<open>Progress\<close>

text \<open>No worker waits to be started once the press was launched.\<close>

lemma workers_workerLoop:
  "w < length (dm_workers s) \<Longrightarrow>
     dm_workers (workerLoop members stale w s) = (dm_workers s)[w := dm_workers (workerLoop members stale w s) ! w]"
  by (simp add: workerLoop_def Let_def)

lemma workerLoop_not_ready:
  "w < length (dm_workers s) \<Longrightarrow> dm_workers (workerLoop members stale w s) ! w \<noteq> WReady"
  by (simp add: workerLoop_def Let_def)

lemma length_workers_workerLoop [simp]:
  "length (dm_workers (workerLoop members stale w s)) = length (dm_workers s)"
  by (simp add: workerLoop_def Let_def)

lemma nth_workers_workerLoop:
  "v \<noteq> w \<Longrightarrow> dm_workers (workerLoop members stale w s) ! v = dm_workers s ! v"
  by (simp add: workerLoop_def Let_def)

lemma launch_fold_started:
  "\<forall>v < length (dm_workers s). v \<notin> set ws \<longrightarrow> dm_workers s ! v \<noteq> WReady \<Longrightarrow>
   \<forall>v < length (dm_workers (fold (workerLoop members stale) ws s)).
     dm_workers (fold (workerLoop members stale) ws s) ! v \<noteq> WReady"
proof (induction ws arbitrary: s)
  case (Cons w ws)
  have "\<forall>v < length (dm_workers (workerLoop members stale w s)). v \<notin> set ws \<longrightarrow> dm_workers (workerLoop members stale w s) ! v \<noteq> WReady"
    using Cons.prems workerLoop_not_ready nth_workers_workerLoop
    by (metis length_workers_workerLoop set_ConsD)
  from Cons.IH [OF this] show ?case by simp
qed simp

lemma length_workers_settle [simp]:
  "length (dm_workers (settleWorker members stale w i ans s)) = length (dm_workers s)"
  by (simp add: settleWorker_def Let_def split: sum.splits failure.splits)

lemma settle_not_ready:
  assumes "v < length (dm_workers s)" "w < length (dm_workers s)" "v \<noteq> w \<longrightarrow> dm_workers s ! v \<noteq> WReady"
  shows "dm_workers (settleWorker members stale w i ans s) ! v \<noteq> WReady"
proof (cases "v = w")
  case True
  with assms show ?thesis
    by (auto simp: settleWorker_def Let_def workerLoop_not_ready split: sum.splits failure.splits)
next
  case False
  with assms show ?thesis
    by (auto simp: settleWorker_def Let_def nth_workers_workerLoop split: sum.splits failure.splits)
qed

lemma dm_reach_started: "dm_reach members s \<Longrightarrow> WReady \<notin> set (dm_workers s)"
proof (induction rule: dm_reach.induct)
  case (launched members stale)
  have "\<forall>v < length (dm_workers (dmBlank members)). v \<notin> set [0..<min PICKER_IN_FLIGHT (length members)] \<longrightarrow>
      dm_workers (dmBlank members) ! v \<noteq> WReady"
    by (simp add: dmBlank_def)
  from launch_fold_started [OF this] show ?case by (auto simp: launch_def in_set_conv_nth)
next
  case (stepped members s stale t)
  then show ?case
    by (elim dm_stepE) (metis in_set_conv_nth length_workers_settle settle_not_ready)
qed

section \<open>Every press ends\<close>

definition dm_measure :: "member list \<Rightarrow> dm_state \<Rightarrow> nat" where
  "dm_measure members s = (length members - dm_next s) + length (filter (\<lambda>w. w \<noteq> WDone) (dm_workers s))"

lemma filter_update_count:
  "w < length ws \<Longrightarrow> P (ws ! w) \<Longrightarrow>
     length (filter P (ws[w := x])) = (if P x then length (filter P ws) else length (filter P ws) - 1)"
proof (induction ws arbitrary: w)
  case (Cons a ws)
  show ?case
  proof (cases w)
    case 0
    with Cons.prems show ?thesis by simp
  next
    case (Suc v)
    with Cons have IH: "length (filter P (ws[v := x])) = (if P x then length (filter P ws) else length (filter P ws) - 1)"
      by simp
    have "filter P ws \<noteq> []" using Cons.prems Suc by (auto simp: filter_empty_conv)
    with IH Suc show ?thesis by (cases "filter P ws") (auto split: if_splits)
  qed
qed simp

lemma measure_setDone:
  assumes "w < length (dm_workers s)" "dm_workers s ! w \<noteq> WDone"
  shows "dm_measure members (setWorker w WDone s) < dm_measure members s"
proof -
  have "dm_workers s ! w \<in> set (filter (\<lambda>w. w \<noteq> WDone) (dm_workers s))" using assms by auto
  then have "0 < length (filter (\<lambda>w. w \<noteq> WDone) (dm_workers s))" by (metis length_pos_if_in_set)
  with filter_update_count [where P = "\<lambda>w. w \<noteq> WDone" and x = WDone, OF assms] show ?thesis
    by (simp add: dm_measure_def)
qed

lemma measure_workerLoop:
  assumes "w < length (dm_workers s)" "dm_workers s ! w \<noteq> WDone"
  shows "dm_measure members (workerLoop members stale w s) < dm_measure members s"
proof (cases "dm_next s < length members \<and> dm_rateLimited s = [] \<and> \<not> stale")
  case True
  then have n: "length members - Suc (dm_next s) < length members - dm_next s" by linarith
  from True filter_update_count [where P = "\<lambda>w. w \<noteq> WDone" and x = "WAwait (dm_next s)", OF assms] show ?thesis
    using n by (simp add: workerLoop_def Let_def dm_measure_def del: diff_diff_left diff_is_0_eq)
next
  case False
  then have "workerLoop members stale w s = setWorker w WDone s" by (auto simp: workerLoop_def)
  with measure_setDone [OF assms] show ?thesis by simp
qed

lemma measure_onUpdate [simp]: "dm_measure members (onUpdate i m s) = dm_measure members s"
  by (simp add: dm_measure_def)

lemma measure_rateLimited [simp]: "dm_measure members (s\<lparr>dm_rateLimited := r\<rparr>) = dm_measure members s"
  by (simp add: dm_measure_def)

lemma dm_step_decreases:
  assumes "dm_step members stale s t"
  shows "dm_measure members t < dm_measure members s"
  using assms
proof cases
  case (settle w i ans)
  have loop: "dm_measure members (workerLoop members stale w (onUpdate i m s')) < dm_measure members s"
    if "dm_workers s' = dm_workers s" "dm_next s' = dm_next s" for m s'
    using measure_workerLoop [of w "onUpdate i m s'" members stale] settle that
    by (simp add: dm_measure_def)
  have fin: "dm_measure members (setWorker w WDone s) < dm_measure members s"
    using settle by (intro measure_setDone) auto
  show ?thesis
  proof (cases stale)
    case True
    with fin show ?thesis by (simp add: settle(1) settleWorker_def)
  next
    case False
    then show ?thesis
      using loop
      by (auto simp: settle(1) settleWorker_def Let_def split: sum.splits failure.splits)
  qed
qed

lemma dm_not_finished_steps:
  assumes "dm_reach members s" "\<not> dmFinished s"
  shows "\<exists>t. dm_step members stale s t"
proof -
  from assms(2) obtain x where "x \<in> set (dm_workers s)" "x \<noteq> WDone" by (auto simp: dmFinished_def list_all_iff)
  moreover have "x \<noteq> WReady" using dm_reach_started [OF assms(1)] calculation(1) by auto
  ultimately obtain w i where "w < length (dm_workers s)" "dm_workers s ! w = WAwait i"
    by (metis in_set_conv_nth worker.exhaust)
  then show ?thesis by (blast intro: dm_step.settle)
qed

section \<open>Rate limits and stale dialogs\<close>

lemma discoveryErrorMessage_429: "err_status e = 429 \<Longrightarrow> discoveryErrorMessage (ApiErr e) \<noteq> []"
  by (simp add: discoveryErrorMessage_def split: option.splits)

lemma workerLoop_limited:
  "dm_rateLimited s \<noteq> [] \<or> stale \<Longrightarrow>
     dm_calls (workerLoop members stale w s) = dm_calls s \<and> dm_next (workerLoop members stale w s) = dm_next s \<and>
     dm_updates (workerLoop members stale w s) = dm_updates s \<and> dm_rateLimited (workerLoop members stale w s) = dm_rateLimited s"
  by (auto simp: workerLoop_def Let_def)

lemma workerLoop_rateLimited [simp]: "dm_rateLimited (workerLoop members stale w s) = dm_rateLimited s"
  by (simp add: workerLoop_def Let_def)

lemma dm_step_limited:
  assumes "dm_step members stale s t" "dm_rateLimited s \<noteq> []"
  shows "dm_calls t = dm_calls s \<and> dm_rateLimited t = dm_rateLimited s"
  using assms
  by (auto simp: settleWorker_def Let_def workerLoop_limited elim!: dm_stepE split: sum.splits failure.splits)

lemma dm_step_stale:
  assumes "dm_step members True s t"
  shows "dm_calls t = dm_calls s \<and> dm_updates t = dm_updates s \<and> dm_rateLimited t = dm_rateLimited s"
  using assms by (auto simp: settleWorker_def elim!: dm_stepE)

section \<open>What a finished press painted\<close>

inductive dm_live :: "member list \<Rightarrow> dm_state \<Rightarrow> bool" where
  live_launched: "dm_live members (launch members False)"
| live_stepped: "dm_live members s \<Longrightarrow> dm_step members False s t \<Longrightarrow> dm_live members t"

lemma dm_live_reach: "dm_live members s \<Longrightarrow> dm_reach members s"
  by (induction rule: dm_live.induct) (auto intro: dm_reach.intros)

definition settled :: "dm_state \<Rightarrow> nat \<Rightarrow> bool" where
  "settled s i \<longleftrightarrow> (\<exists>u. lastUpdate s i = Some u \<and> mc_state u \<noteq> LoadingState)"

definition live_inv :: "member list \<Rightarrow> dm_state \<Rightarrow> bool" where
  "live_inv members s \<longleftrightarrow>
     (\<forall>i < dm_next s. WAwait i \<in> set (dm_workers s) \<or> settled s i) \<and>
     (WDone \<in> set (dm_workers s) \<longrightarrow> dm_rateLimited s \<noteq> [] \<or> dm_next s = length members)"

lemma lastUpdate_onUpdate: "lastUpdate (onUpdate i m s) j = (if j = i then Some m else lastUpdate s j)"
  by (simp add: lastUpdate_def)

lemma settled_setWorker [simp]: "settled (setWorker w x s) i = settled s i"
  by (simp add: settled_def lastUpdate_def)

lemma await_kept:
  "WAwait j \<in> set ws \<Longrightarrow> ws ! w \<noteq> WAwait j \<Longrightarrow> WAwait j \<in> set (ws[w := x])"
  by (metis in_set_conv_nth length_list_update nth_list_update_neq)

text \<open>The loop head keeps the invariant for every member but the one its worker just let go of,
  which is settled.\<close>

lemma live_inv_workerLoop:
  assumes w: "w < length (dm_workers s)"
    and old: "\<forall>j < dm_next s. (WAwait j \<in> set (dm_workers s) \<and> dm_workers s ! w \<noteq> WAwait j) \<or> settled s j"
    and fin: "WDone \<in> set (dm_workers s) \<longrightarrow> dm_rateLimited s \<noteq> [] \<or> dm_next s = length members"
    and le: "dm_next s \<le> length members"
  shows "live_inv members (workerLoop members False w s)"
proof (cases "dm_next s < length members \<and> dm_rateLimited s = []")
  case True
  let ?n = "dm_next s"
  let ?t = "workerLoop members False w s"
  have ws: "dm_workers ?t = (dm_workers s)[w := WAwait ?n]" and nx: "dm_next ?t = Suc ?n"
    and rl: "dm_rateLimited ?t = []"
    using True by (simp_all add: workerLoop_def Let_def)
  have keep: "settled ?t j" if "settled s j" "j \<noteq> ?n" for j
    using that True by (simp add: workerLoop_def Let_def settled_def lastUpdate_def)
  have "WAwait ?n \<in> set (dm_workers ?t)" using w ws by (simp add: set_update_memI)
  moreover have "WDone \<notin> set (dm_workers ?t)"
    using ws fin True set_update_subset_insert [of "dm_workers s" w "WAwait ?n"] by auto
  ultimately show ?thesis
    using old keep await_kept [of _ "dm_workers s" w "WAwait ?n"]
    by (auto simp: live_inv_def nx ws less_Suc_eq)
next
  case False
  then have t: "workerLoop members False w s = setWorker w WDone s" by (auto simp: workerLoop_def)
  from False le have "dm_rateLimited s \<noteq> [] \<or> dm_next s = length members" by auto
  with old await_kept [of _ "dm_workers s" w WDone] show ?thesis
    by (auto simp: live_inv_def t)
qed

lemma live_inv_fold:
  assumes "\<forall>v \<in> set ws. v < length (dm_workers s) \<and> dm_workers s ! v = WReady" "distinct ws"
    "live_inv members s" "dm_inv members s"
  shows "live_inv members (fold (workerLoop members False) ws s)"
  using assms
proof (induction ws arbitrary: s)
  case (Cons w ws)
  have "live_inv members (workerLoop members False w s)"
    using Cons.prems by (intro live_inv_workerLoop) (auto simp: live_inv_def dm_inv_def)
  moreover have "dm_inv members (workerLoop members False w s)"
    using Cons.prems by (simp add: dm_inv_workerLoop)
  moreover have "\<forall>v \<in> set ws. v < length (dm_workers (workerLoop members False w s)) \<and>
      dm_workers (workerLoop members False w s) ! v = WReady"
  proof
    fix v assume v: "v \<in> set ws"
    with Cons.prems(2) have "v \<noteq> w" by auto
    with v Cons.prems(1) show "v < length (dm_workers (workerLoop members False w s)) \<and>
        dm_workers (workerLoop members False w s) ! v = WReady"
      by (simp add: nth_workers_workerLoop)
  qed
  ultimately show ?case using Cons by simp
qed simp

lemma live_inv_settle:
  assumes "live_inv members s" "dm_inv members s" "w < length (dm_workers s)" "dm_workers s ! w = WAwait i"
  shows "live_inv members (settleWorker members False w i ans s)"
proof -
  have i: "i < dm_next s" using assms(2,4) nth_mem [OF assms(3)] by (simp add: dm_inv_def)
  have loop: "live_inv members (workerLoop members False w (onUpdate i m (s\<lparr>dm_rateLimited := r\<rparr>)))"
    if "mc_state m \<noteq> LoadingState" "dm_rateLimited s \<noteq> [] \<longrightarrow> r \<noteq> []" for m r
    using assms that i
    by (intro live_inv_workerLoop) (auto simp: live_inv_def dm_inv_def settled_def lastUpdate_onUpdate,
        auto simp: lastUpdate_def)
  have same: "s\<lparr>dm_rateLimited := dm_rateLimited s\<rparr> = s" by simp
  show ?thesis
    using loop loop [where r = "dm_rateLimited s", unfolded same] discoveryErrorMessage_429
    by (auto simp: settleWorker_def Let_def orStr_def split: sum.splits failure.splits)
qed

lemma live_inv_launch: "live_inv members (launch members False)"
  unfolding launch_def
  by (rule live_inv_fold) (auto simp: dmBlank_def live_inv_def dm_inv_def)

lemma dm_live_inv: "dm_live members s \<Longrightarrow> live_inv members s"
proof (induction rule: dm_live.induct)
  case (live_stepped members s t)
  have "dm_inv members s" using live_stepped.hyps(1) dm_live_reach dm_reach_inv by blast
  with live_stepped show ?case by (elim dm_stepE) (auto intro: live_inv_settle)
qed (rule live_inv_launch)

lemma length_workers_fold [simp]:
  "length (dm_workers (fold (workerLoop members stale) ws s)) = length (dm_workers s)"
  by (induction ws arbitrary: s) simp_all

lemma dm_live_workers: "dm_live members s \<Longrightarrow> length (dm_workers s) = min PICKER_IN_FLIGHT (length members)"
proof (induction rule: dm_live.induct)
  case (live_launched members)
  show ?case by (simp add: launch_def dmBlank_def)
next
  case (live_stepped members s t)
  then show ?case by (elim dm_stepE) simp
qed

lemma live_finished_settled:
  assumes live: "dm_live members s" and fin: "dmFinished s" and free: "dm_rateLimited s = []" and i: "i < length members"
  shows "\<exists>u. lastUpdate s i = Some u \<and> mc_member u = members ! i \<and> mc_state u \<noteq> LoadingState"
proof -
  have inv: "dm_inv members s" using live by (intro dm_reach_inv dm_live_reach)
  have fin_all: "x = WDone" if "x \<in> set (dm_workers s)" for x
    using that fin by (simp add: dmFinished_def list_all_iff)
  have "dm_workers s \<noteq> []" using dm_live_workers [OF live] i by (auto simp: PICKER_IN_FLIGHT_def)
  then have "WDone \<in> set (dm_workers s)" using fin_all by (metis list.set_sel(1))
  then have "dm_next s = length members" using dm_live_inv [OF live] free by (simp add: live_inv_def)
  then have "settled s i" using dm_live_inv [OF live] i fin_all by (fastforce simp: live_inv_def)
  then obtain u where u: "lastUpdate s i = Some u" "mc_state u \<noteq> LoadingState" by (auto simp: settled_def)
  then have "(i, u) \<in> set (dm_updates s)" by (auto simp: lastUpdate_def dest: map_of_SomeD)
  then have "mc_member u = members ! i" using inv by (auto simp: dm_inv_def)
  with u show ?thesis by blast
qed

section \<open>Properties\<close>

text \<open>
  Claim C24: in every reachable state of a press at most PICKER_IN_FLIGHT discoveries are awaited,
  and the calls made are the members from the first on, in order and each once.
\<close>

theorem press_bounded_and_in_order:
  assumes "dm_reach members s"
  shows "length (awaited s) \<le> PICKER_IN_FLIGHT \<and> dm_calls s = [0..<dm_next s] \<and> dm_next s \<le> length members"
  using dm_reach_inv [OF assms] length_awaited [of s] by (auto simp: dm_inv_def)

theorem press_bounded_and_in_order_witness:
  "length (awaited (launch (replicate 3 \<lparr>m_upstream_id = [], m_slug = js ''a'', m_name = [], m_enabled = True, m_transport = [], m_kind = []\<rparr>) False)) \<le> PICKER_IN_FLIGHT \<and> dm_next (launch (replicate 3 \<lparr>m_upstream_id = [], m_slug = js ''a'', m_name = [], m_enabled = True, m_transport = [], m_kind = []\<rparr>) False) = 2 \<and>
   dm_calls (launch (replicate 3 \<lparr>m_upstream_id = [], m_slug = js ''a'', m_name = [], m_enabled = True, m_transport = [], m_kind = []\<rparr>) False) = [0..<dm_next (launch (replicate 3 \<lparr>m_upstream_id = [], m_slug = js ''a'', m_name = [], m_enabled = True, m_transport = [], m_kind = []\<rparr>) False)]"
proof -
  have "dm_next (launch (replicate 3 \<lparr>m_upstream_id = [], m_slug = js ''a'', m_name = [], m_enabled = True, m_transport = [], m_kind = []\<rparr>) False) = 2" by code_simp
  with press_bounded_and_in_order [OF dm_reach.launched] show ?thesis by blast
qed

text \<open>
  Once a press was told to slow down, no later answer starts another discovery or replaces the
  sentence.
\<close>

theorem rate_limited_press_starts_nothing:
  assumes "dm_step members stale s t" "dm_rateLimited s \<noteq> []"
  shows "dm_calls t = dm_calls s \<and> dm_rateLimited t = dm_rateLimited s"
  using assms by (rule dm_step_limited)

theorem rate_limited_press_starts_nothing_witness:
  "\<exists>s t. dm_step (replicate 3 \<lparr>m_upstream_id = [], m_slug = js ''a'', m_name = [], m_enabled = True, m_transport = [], m_kind = []\<rparr>) False s t \<and> dm_calls t = dm_calls s \<and> dm_rateLimited s \<noteq> [] \<and> dm_rateLimited t = dm_rateLimited s"
proof -
  let ?ms = "(replicate 3 \<lparr>m_upstream_id = [], m_slug = js ''a'', m_name = [], m_enabled = True, m_transport = [], m_kind = []\<rparr>)"
  let ?s = "settleWorker ?ms False 0 0 (Inl (ApiErr \<lparr>err_status = 429, err_message = [], err_retryAfter = None\<rparr>)) (launch ?ms False)"
  have "1 < length (dm_workers ?s) \<and> dm_workers ?s ! 1 = WAwait 1 \<and> dm_rateLimited ?s \<noteq> []" by code_simp
  then have "dm_step ?ms False ?s (settleWorker ?ms False 1 1 (Inl (OtherErr [])) ?s)" "dm_rateLimited ?s \<noteq> []"
    by (blast intro: dm_step.settle)+
  from this rate_limited_press_starts_nothing [OF this] show ?thesis by blast
qed

text \<open>
  Claim C25: a reachable press is finished or waits for an answer that moves it on, and every
  answer strictly decreases a measure, so every press ends.
\<close>

theorem press_ends:
  assumes "dm_reach members s"
  shows "(dmFinished s \<or> (\<exists>t. dm_step members stale s t)) \<and>
    (\<forall>t. dm_step members stale s t \<longrightarrow> dm_measure members t < dm_measure members s)"
  using dm_not_finished_steps [OF assms] dm_step_decreases by blast

theorem press_ends_witness:
  "\<exists>t. dm_step (replicate 3 \<lparr>m_upstream_id = [], m_slug = js ''a'', m_name = [], m_enabled = True, m_transport = [], m_kind = []\<rparr>) False (launch (replicate 3 \<lparr>m_upstream_id = [], m_slug = js ''a'', m_name = [], m_enabled = True, m_transport = [], m_kind = []\<rparr>) False) t \<and> dm_measure (replicate 3 \<lparr>m_upstream_id = [], m_slug = js ''a'', m_name = [], m_enabled = True, m_transport = [], m_kind = []\<rparr>) t < dm_measure (replicate 3 \<lparr>m_upstream_id = [], m_slug = js ''a'', m_name = [], m_enabled = True, m_transport = [], m_kind = []\<rparr>) (launch (replicate 3 \<lparr>m_upstream_id = [], m_slug = js ''a'', m_name = [], m_enabled = True, m_transport = [], m_kind = []\<rparr>) False)"
proof -
  have "\<not> dmFinished (launch (replicate 3 \<lparr>m_upstream_id = [], m_slug = js ''a'', m_name = [], m_enabled = True, m_transport = [], m_kind = []\<rparr>) False)" by code_simp
  with press_ends [OF dm_reach.launched] show ?thesis by blast
qed



end
