(* ===== verification/UseCatalogue.thy ===== *)
theory UseCatalogue
  imports DiscoverMany
begin

text \<open>
  The hook that owns a dialog's tool catalogue: \<open>web/src/lib/use-catalogue.ts\<close>.

  The state is the hook's: the two \<open>useState\<close> values, the seen reset key and the two refs, with
  the presses whose promise has not settled. A render under a new reset key and the effect that
  records it are one step (\<open>rerender\<close>): the key changes in a click handler, and React flushes the
  effects of a discrete event before it yields. A reset key is an open count, so it only grows.

  The lemmas show that one dialog never has two presses in flight, so at most two discoveries
  run for it, that an answer for a dialog that moved on changes nothing on screen, and that the
  catalogue shown is exactly the current members, in order.
\<close>

record catalogue_run =
  run_started :: nat
  run_targets :: "member list"
  run_dm :: dm_state

record uc_state =
  uc_byId :: "jstr \<rightharpoonup> member_catalogue"
  uc_rateLimited :: jstr
  uc_seenKey :: nat
  uc_current :: nat
  uc_running :: "nat option"
  uc_runs :: "catalogue_run list"
  uc_asked :: "jstr list"

definition ucInit :: "nat \<Rightarrow> uc_state" where
  "ucInit k = \<lparr>uc_byId = Map.empty, uc_rateLimited = [], uc_seenKey = k, uc_current = k, uc_running = None, uc_runs = [], uc_asked = []\<rparr>"

text \<open>\<open>setById((prev) => ({ ...prev, [m.upstream_id]: m }))\<close> for each update, in order.\<close>

definition applyUpdates :: "(nat \<times> member_catalogue) list \<Rightarrow> (jstr \<rightharpoonup> member_catalogue) \<Rightarrow> (jstr \<rightharpoonup> member_catalogue)" where
  "applyUpdates us byId = fold (\<lambda>(i, u) m. m(m_upstream_id (mc_member u) \<mapsto> u)) us byId"

definition rerender :: "nat \<Rightarrow> uc_state \<Rightarrow> uc_state" where
  "rerender k s =
     (let s1 = (if uc_seenKey s \<noteq> k then s\<lparr>uc_seenKey := k, uc_byId := Map.empty, uc_rateLimited := []\<rparr> else s)
      in s1\<lparr>uc_current := k\<rparr>)"

definition shownCatalogue :: "member list \<Rightarrow> uc_state \<Rightarrow> catalogue" where
  "shownCatalogue members s =
     map (\<lambda>m. case uc_byId s (m_upstream_id m) of Some u \<Rightarrow> u\<lparr>mc_member := m\<rparr> | None \<Rightarrow> idleMember m) members"

text \<open>The ghost \<open>uc_asked\<close>: the upstreams whose discovery was asked for, in order.\<close>

definition idsOf :: "member list \<Rightarrow> nat list \<Rightarrow> jstr list" where
  "idsOf targets calls = map (\<lambda>i. m_upstream_id (targets ! i)) calls"

text \<open>\<open>load(upstreamId?)\<close> under the reset key \<open>k\<close> of the render that made it.\<close>

definition loadTools :: "nat \<Rightarrow> member list \<Rightarrow> jstr option \<Rightarrow> uc_state \<Rightarrow> uc_state" where
  "loadTools k members upstreamId s =
     (if uc_running s = Some k then s
      else (let target = orElse upstreamId [];
                targets = (if target \<noteq> [] then filter (\<lambda>m. m_upstream_id m = target) members else members);
                dm = launch targets (uc_current s \<noteq> k)
            in s\<lparr>uc_running := Some k, uc_rateLimited := [],
                 uc_byId := applyUpdates (dm_updates dm) (uc_byId s),
                 uc_runs := uc_runs s @ [\<lparr>run_started = k, run_targets = targets, run_dm = dm\<rparr>],
                 uc_asked := uc_asked s @ idsOf targets (dm_calls dm)\<rparr>))"

text \<open>One awaited discovery of run \<open>r\<close> answers.\<close>

definition answerRun :: "nat \<Rightarrow> nat \<Rightarrow> nat \<Rightarrow> failure + discovery \<Rightarrow> uc_state \<Rightarrow> uc_state" where
  "answerRun r w i ans s =
     (let run = uc_runs s ! r;
          dm = run_dm run;
          dm' = settleWorker (run_targets run) (uc_current s \<noteq> run_started run) w i ans dm
      in s\<lparr>uc_byId := applyUpdates (drop (length (dm_updates dm)) (dm_updates dm')) (uc_byId s),
           uc_runs := (uc_runs s)[r := run\<lparr>run_dm := dm'\<rparr>],
           uc_asked := uc_asked s @ idsOf (run_targets run) (drop (length (dm_calls dm)) (dm_calls dm'))\<rparr>)"

text \<open>The \<open>.then\<close> and \<open>.finally\<close> of a press whose workers have all returned.\<close>

definition finishRun :: "nat \<Rightarrow> uc_state \<Rightarrow> uc_state" where
  "finishRun r s =
     (let run = uc_runs s ! r;
          s1 = (if uc_current s = run_started run then s\<lparr>uc_rateLimited := dm_rateLimited (run_dm run)\<rparr> else s);
          s2 = (if uc_running s1 = Some (run_started run) then s1\<lparr>uc_running := None\<rparr> else s1)
      in s2\<lparr>uc_runs := take r (uc_runs s) @ drop (Suc r) (uc_runs s)\<rparr>)"

inductive uc_step :: "uc_state \<Rightarrow> uc_state \<Rightarrow> bool" where
  reset: "uc_current s < k \<Longrightarrow> uc_step s (rerender k s)"
| press: "uc_step s (loadTools (uc_current s) members upstreamId s)"
| answer: "r < length (uc_runs s) \<Longrightarrow> w < length (dm_workers (run_dm (uc_runs s ! r))) \<Longrightarrow>
     dm_workers (run_dm (uc_runs s ! r)) ! w = WAwait i \<Longrightarrow> uc_step s (answerRun r w i ans s)"
| finish: "r < length (uc_runs s) \<Longrightarrow> dmFinished (run_dm (uc_runs s ! r)) \<Longrightarrow> uc_step s (finishRun r s)"

inductive_cases uc_stepE: "uc_step s t"

inductive uc_reach :: "uc_state \<Rightarrow> bool" where
  uc_start: "uc_reach (ucInit k)"
| uc_next: "uc_reach s \<Longrightarrow> uc_step s t \<Longrightarrow> uc_reach t"

section \<open>One press at a time\<close>

definition liveRuns :: "uc_state \<Rightarrow> catalogue_run list" where
  "liveRuns s = filter (\<lambda>r. run_started r = uc_current s) (uc_runs s)"

text \<open>Every answer is kept under its own upstream's id.\<close>

definition keyed :: "(jstr \<rightharpoonup> member_catalogue) \<Rightarrow> bool" where
  "keyed byId \<longleftrightarrow> (\<forall>i u. byId i = Some u \<longrightarrow> m_upstream_id (mc_member u) = i)"

definition runs_ok :: "nat \<Rightarrow> catalogue_run list \<Rightarrow> bool" where
  "runs_ok k rs \<longleftrightarrow> (\<forall>r \<in> set rs. run_started r \<le> k \<and> dm_reach (run_targets r) (run_dm r))"

definition uc_inv :: "uc_state \<Rightarrow> bool" where
  "uc_inv s \<longleftrightarrow>
     uc_seenKey s = uc_current s \<and> runs_ok (uc_current s) (uc_runs s) \<and>
     length (liveRuns s) \<le> 1 \<and>
     (liveRuns s \<noteq> [] \<longrightarrow> uc_running s = Some (uc_current s)) \<and>
     keyed (uc_byId s)"

lemma uc_invI:
  "uc_seenKey s = uc_current s \<Longrightarrow> runs_ok (uc_current s) (uc_runs s) \<Longrightarrow> length (liveRuns s) \<le> 1 \<Longrightarrow>
   (liveRuns s \<noteq> [] \<Longrightarrow> uc_running s = Some (uc_current s)) \<Longrightarrow> keyed (uc_byId s) \<Longrightarrow> uc_inv s"
  by (simp add: uc_inv_def)

lemma uc_invD:
  assumes "uc_inv s"
  shows "uc_seenKey s = uc_current s" "runs_ok (uc_current s) (uc_runs s)" "length (liveRuns s) \<le> 1"
    "liveRuns s \<noteq> [] \<Longrightarrow> uc_running s = Some (uc_current s)" "keyed (uc_byId s)"
  using assms by (simp_all add: uc_inv_def)

lemma keyed_empty [simp]: "keyed Map.empty"
  by (simp add: keyed_def)

lemma keyed_upd: "keyed byId \<Longrightarrow> keyed (byId(m_upstream_id (mc_member v) \<mapsto> v))"
  by (simp add: keyed_def)

lemma keyed_applyUpdates: "keyed byId \<Longrightarrow> keyed (applyUpdates us byId)"
proof (induction us arbitrary: byId)
  case (Cons x us)
  then have "keyed (applyUpdates us (byId(m_upstream_id (mc_member (snd x)) \<mapsto> snd x)))" by (blast intro: keyed_upd)
  then show ?case by (simp add: applyUpdates_def split_beta)
qed (simp add: applyUpdates_def)

lemma rerender_sel:
  "uc_seenKey (rerender k s) = k" "uc_current (rerender k s) = k" "uc_running (rerender k s) = uc_running s"
  "uc_runs (rerender k s) = uc_runs s" "uc_byId (rerender k s) = (if uc_seenKey s \<noteq> k then Map.empty else uc_byId s)"
  by (simp_all add: rerender_def Let_def)

lemma answerRun_sel:
  "uc_seenKey (answerRun r w i ans s) = uc_seenKey s" "uc_current (answerRun r w i ans s) = uc_current s"
  "uc_running (answerRun r w i ans s) = uc_running s" "\<exists>us. uc_byId (answerRun r w i ans s) = applyUpdates us (uc_byId s)"
  by (auto simp: answerRun_def Let_def)

lemma finishRun_sel:
  "uc_seenKey (finishRun r s) = uc_seenKey s" "uc_current (finishRun r s) = uc_current s" "uc_byId (finishRun r s) = uc_byId s"
  "uc_runs (finishRun r s) = take r (uc_runs s) @ drop (Suc r) (uc_runs s)"
  "uc_running (finishRun r s) = (if uc_running s = Some (run_started (uc_runs s ! r)) then None else uc_running s)"
  by (simp_all add: finishRun_def Let_def)

lemma uc_inv_init: "uc_inv (ucInit k)"
  by (rule uc_invI) (simp_all add: ucInit_def liveRuns_def runs_ok_def)

lemma uc_inv_rerender:
  assumes inv: "uc_inv s" and k: "uc_current s < k"
  shows "uc_inv (rerender k s)"
proof (rule uc_invI)
  have "\<forall>r \<in> set (uc_runs s). run_started r \<noteq> k" using uc_invD(2) [OF inv] k by (fastforce simp: runs_ok_def)
  then have none: "liveRuns (rerender k s) = []" by (simp add: liveRuns_def rerender_sel filter_empty_conv)
  then show "length (liveRuns (rerender k s)) \<le> 1" by simp
  show "liveRuns (rerender k s) \<noteq> [] \<Longrightarrow> uc_running (rerender k s) = Some (uc_current (rerender k s))" using none by simp
  show "runs_ok (uc_current (rerender k s)) (uc_runs (rerender k s))"
    using uc_invD(2) [OF inv] k by (fastforce simp: runs_ok_def rerender_sel)
qed (use uc_invD(5) [OF inv] in \<open>simp_all add: rerender_sel\<close>)

lemma uc_inv_load:
  assumes inv: "uc_inv s"
  shows "uc_inv (loadTools (uc_current s) members upstreamId s)" (is "uc_inv ?t")
proof (cases "uc_running s = Some (uc_current s)")
  case False
  with uc_invD(4) [OF inv] have none: "liveRuns s = []" by blast
  define targets where "targets = (if orElse upstreamId [] \<noteq> [] then filter (\<lambda>m. m_upstream_id m = orElse upstreamId []) members else members)"
  define run where "run = \<lparr>run_started = uc_current s, run_targets = targets, run_dm = launch targets False\<rparr>"
  have t: "?t = s\<lparr>uc_running := Some (uc_current s), uc_rateLimited := [],
      uc_byId := applyUpdates (dm_updates (launch targets False)) (uc_byId s), uc_runs := uc_runs s @ [run],
      uc_asked := uc_asked s @ idsOf targets (dm_calls (launch targets False))\<rparr>"
    using False by (simp add: loadTools_def Let_def targets_def run_def)
  have live: "liveRuns ?t = [run]" using none by (simp add: t liveRuns_def run_def)
  have "runs_ok (uc_current s) (uc_runs s @ [run])"
    using uc_invD(2) [OF inv] by (auto simp: runs_ok_def run_def intro: dm_reach.launched)
  then show ?thesis
    using uc_invD(1,5) [OF inv] by (intro uc_invI) (simp_all add: live, simp_all add: t keyed_applyUpdates)
qed (use assms in \<open>simp add: loadTools_def\<close>)

lemma live_update:
  "r < length rs \<Longrightarrow> run_started x = run_started (rs ! r) \<Longrightarrow>
     length (filter (\<lambda>y. run_started y = k) (rs[r := x])) = length (filter (\<lambda>y. run_started y = k) rs)"
proof (induction rs arbitrary: r)
  case (Cons y rs)
  then show ?case by (cases r) auto
qed simp

lemma uc_inv_answer:
  assumes inv: "uc_inv s" and r: "r < length (uc_runs s)" and w: "w < length (dm_workers (run_dm (uc_runs s ! r)))"
    and i: "dm_workers (run_dm (uc_runs s ! r)) ! w = WAwait i"
  shows "uc_inv (answerRun r w i ans s)"
proof -
  let ?run = "uc_runs s ! r" and ?t = "answerRun r w i ans s"
  define dm where "dm = settleWorker (run_targets ?run) (uc_current s \<noteq> run_started ?run) w i ans (run_dm ?run)"
  have runs: "uc_runs ?t = (uc_runs s)[r := ?run\<lparr>run_dm := dm\<rparr>]" by (simp add: answerRun_def Let_def dm_def)
  have old: "run_started ?run \<le> uc_current s" "dm_reach (run_targets ?run) (run_dm ?run)"
    using uc_invD(2) [OF inv] r by (simp_all add: runs_ok_def)
  have "dm_reach (run_targets ?run) dm"
    unfolding dm_def using old(2) w i by (blast intro: dm_reach.stepped dm_step.settle)
  with old(1) uc_invD(2) [OF inv] have ok: "runs_ok (uc_current ?t) (uc_runs ?t)"
    using set_update_subset_insert [of "uc_runs s" r "?run\<lparr>run_dm := dm\<rparr>"]
    by (fastforce simp: runs_ok_def runs answerRun_sel)
  have len: "length (liveRuns ?t) = length (liveRuns s)"
    using r by (simp add: liveRuns_def runs answerRun_sel live_update)
  have key: "keyed (uc_byId ?t)"
    using answerRun_sel(4) [of r w i ans s] keyed_applyUpdates [OF uc_invD(5) [OF inv]] by fastforce
  have "liveRuns ?t \<noteq> [] \<Longrightarrow> liveRuns s \<noteq> []" using len by fastforce
  then show ?thesis
    using ok key uc_invD(1,3,4) [OF inv] len by (intro uc_invI) (simp_all add: answerRun_sel)
qed

lemma uc_inv_finish:
  assumes inv: "uc_inv s" and r: "r < length (uc_runs s)"
  shows "uc_inv (finishRun r s)" (is "uc_inv ?t")
proof (rule uc_invI)
  let ?run = "uc_runs s ! r"
  let ?rest = "take r (uc_runs s) @ drop (Suc r) (uc_runs s)"
  let ?live = "\<lambda>rs. filter (\<lambda>x. run_started x = uc_current s) rs"
  have split: "uc_runs s = take r (uc_runs s) @ ?run # drop (Suc r) (uc_runs s)" by (rule id_take_nth_drop [OF r])
  have cnt: "length (?live (uc_runs s)) = length (?live ?rest) + (if run_started ?run = uc_current s then 1 else 0)"
    by (subst split) simp
  have one: "length (?live (uc_runs s)) \<le> 1" using uc_invD(3) [OF inv] by (simp add: liveRuns_def)
  have live: "liveRuns ?t = ?live ?rest" by (simp add: liveRuns_def finishRun_sel)
  show "length (liveRuns ?t) \<le> 1" using cnt one live by simp
  show "uc_running ?t = Some (uc_current ?t)" if ne: "liveRuns ?t \<noteq> []"
  proof -
    have pos: "length (?live ?rest) > 0" using ne live by simp
    with cnt one have other: "run_started ?run \<noteq> uc_current s" by (auto split: if_splits)
    from pos cnt have "length (?live (uc_runs s)) > 0" by simp
    then have "liveRuns s \<noteq> []" by (simp add: liveRuns_def)
    with uc_invD(4) [OF inv] other show ?thesis by (simp add: finishRun_sel)
  qed
  show "runs_ok (uc_current ?t) (uc_runs ?t)"
    using uc_invD(2) [OF inv] by (auto simp: runs_ok_def finishRun_sel dest: in_set_takeD in_set_dropD)
qed (use uc_invD(1,5) [OF inv] in \<open>simp_all add: finishRun_sel\<close>)

lemma uc_inv_step: "uc_step s t \<Longrightarrow> uc_inv s \<Longrightarrow> uc_inv t"
  by (erule uc_stepE) (auto intro: uc_inv_rerender uc_inv_load uc_inv_answer uc_inv_finish)

lemma uc_reach_inv: "uc_reach s \<Longrightarrow> uc_inv s"
  by (induction rule: uc_reach.induct) (auto intro: uc_inv_init uc_inv_step)

text \<open>The discoveries in flight for the dialog on screen.\<close>

definition inFlight :: "uc_state \<Rightarrow> nat" where
  "inFlight s = sum_list (map (\<lambda>r. length (awaited (run_dm r))) (liveRuns s))"

lemma uc_inv_inFlight:
  assumes "uc_inv s"
  shows "inFlight s \<le> PICKER_IN_FLIGHT"
proof (cases "liveRuns s")
  case (Cons r rs)
  with assms have "rs = []" by (simp add: uc_inv_def)
  moreover have "dm_reach (run_targets r) (run_dm r)"
    using uc_invD(2) [OF assms] Cons filter_set [of "\<lambda>r. run_started r = uc_current s" "uc_runs s"]
    by (auto simp: runs_ok_def liveRuns_def)
  then have "length (awaited (run_dm r)) \<le> PICKER_IN_FLIGHT"
    using dm_reach_inv length_awaited [of "run_dm r"] by (fastforce simp: dm_inv_def)
  ultimately show ?thesis by (simp add: inFlight_def Cons)
qed (simp add: inFlight_def)

lemma answerRun_stale:
  assumes "uc_current s \<noteq> run_started (uc_runs s ! r)"
  shows "uc_byId (answerRun r w i ans s) = uc_byId s" "uc_rateLimited (answerRun r w i ans s) = uc_rateLimited s"
  using assms by (simp_all add: answerRun_def Let_def settleWorker_def applyUpdates_def)

lemma shownCatalogue_members: "map mc_member (shownCatalogue members s) = members"
  by (simp add: shownCatalogue_def comp_def split: option.splits) (rule map_idI, simp split: option.splits)

section \<open>Properties\<close>

text \<open>
  In every reachable state of the hook the dialog on screen has at most one press running, and at
  most PICKER_IN_FLIGHT discoveries in flight.
\<close>

theorem one_press_in_flight:
  assumes "uc_reach s"
  shows "length (liveRuns s) \<le> 1 \<and> inFlight s \<le> PICKER_IN_FLIGHT"
  using uc_inv_inFlight [OF uc_reach_inv [OF assms]] uc_invD(3) [OF uc_reach_inv [OF assms]] by simp

theorem one_press_in_flight_witness:
  "length (liveRuns (loadTools 0 [] None (ucInit 0))) \<le> 1 \<and> inFlight (loadTools 0 [] None (ucInit 0)) \<le> PICKER_IN_FLIGHT"
proof (rule one_press_in_flight)
  have "uc_step (ucInit 0) (loadTools (uc_current (ucInit 0)) [] None (ucInit 0))" by (rule uc_step.press)
  then show "uc_reach (loadTools 0 [] None (ucInit 0))" using uc_reach.intros by (auto simp: ucInit_def)
qed

text \<open>
  An answer for a press that belongs to an earlier opening of the dialog leaves the catalogue and
  the rate limit line as they are.
\<close>

theorem late_answer_not_shown:
  assumes "uc_current s \<noteq> run_started (uc_runs s ! r)"
  shows "shownCatalogue members (answerRun r w i ans s) = shownCatalogue members s \<and>
    uc_rateLimited (answerRun r w i ans s) = uc_rateLimited s"
  using answerRun_stale [OF assms, of w i ans] by (simp add: shownCatalogue_def)

theorem late_answer_not_shown_witness:
  "let s = (ucInit 1)\<lparr>uc_runs := [\<lparr>run_started = 0, run_targets = [], run_dm = launch [] False\<rparr>]\<rparr>
   in shownCatalogue [] (answerRun 0 0 0 (Inl (OtherErr [])) s) = shownCatalogue [] s \<and>
      uc_rateLimited (answerRun 0 0 0 (Inl (OtherErr [])) s) = uc_rateLimited s"
  unfolding Let_def by (rule late_answer_not_shown) (simp add: ucInit_def)

end
