(* ===== verification/GroupForm.thy ===== *)
theory GroupForm
  imports PatchForm ToolFilter
begin

text \<open>
  The Create and Edit group dialogs' form: \<open>web/src/lib/group-form.ts\<close>.

  The lemmas show what a group save sends: nothing for an untouched form, the members exactly
  when the membership changed, the filter exactly when its meaning changed, a stored filter the
  proxy cannot read only after Replace and a mode, and never a filter the write rules refuse.
  \<open>groupPolicyStale\<close> is inequality of meaning, so a save that passes it overwrites the policy
  the dialog showed.
\<close>

section \<open>The form\<close>

record group_form =
  gf_name :: jstr
  gf_description :: jstr
  gf_upstream_ids :: "jstr list"
  gf_filter :: filter_form
  gf_filterUnreadable :: jstr
  gf_filterReplace :: bool
  gf_filterChosen :: bool

definition blankGroupForm :: group_form where
  "blankGroupForm = \<lparr>gf_name = [], gf_description = [], gf_upstream_ids = [], gf_filter = blankFilterForm,
     gf_filterUnreadable = [], gf_filterReplace = False, gf_filterChosen = False\<rparr>"

text \<open>\<open>stored.kind === 'filter' ? stored.form : blankFilterForm()\<close>.\<close>

definition storedForm :: "parsed_filter \<Rightarrow> filter_form" where
  "storedForm p = (case p of PFilter f \<Rightarrow> f | _ \<Rightarrow> blankFilterForm)"

definition formFromGroup :: "group \<Rightarrow> group_form" where
  "formFromGroup g =
     (let stored = parseToolFilter (g_tool_filter g) in
      \<lparr>gf_name = g_name g, gf_description = orElse (g_description g) [], gf_upstream_ids = g_upstream_ids g,
       gf_filter = storedForm stored, gf_filterUnreadable = (case stored of PUnreadable t \<Rightarrow> t | _ \<Rightarrow> []),
       gf_filterReplace = False, gf_filterChosen = False\<rparr>)"

definition sameMembers :: "jstr list \<Rightarrow> jstr list \<Rightarrow> bool" where
  "sameMembers a b = (if length a \<noteq> length b then False else list_all (\<lambda>i. i \<in> set b) a)"

section \<open>Request bodies\<close>

definition strArr :: "jstr list \<Rightarrow> jval" where
  "strArr xs = JArr (map JStr xs)"

definition groupCreateBody :: "group_form \<Rightarrow> jobj" where
  "groupCreateBody f =
     [(js ''name'', JStr (gf_name f)), (js ''description'', JStr (gf_description f)), (js ''upstream_ids'', strArr (gf_upstream_ids f))] @
     optMember (ff_mode (gf_filter f) \<noteq> NoMode) (js ''tool_filter'') (filterValue (gf_filter f))"

definition sendsFilter :: "group \<Rightarrow> group_form \<Rightarrow> bool" where
  "sendsFilter before f =
     (case parseToolFilter (g_tool_filter before) of
        PUnreadable _ \<Rightarrow> gf_filterReplace f \<and> gf_filterChosen f
      | stored \<Rightarrow> \<not> sameFilter (storedForm stored) (gf_filter f))"

definition groupPatchBody :: "group \<Rightarrow> group_form \<Rightarrow> jobj" where
  "groupPatchBody before f =
     optMember (trim (gf_name f) \<noteq> g_name before) (js ''name'') (JStr (trim (gf_name f))) @
     optMember (gf_description f \<noteq> orElse (g_description before) []) (js ''description'') (JStr (gf_description f)) @
     optMember (\<not> sameMembers (gf_upstream_ids f) (g_upstream_ids before)) (js ''upstream_ids'') (strArr (gf_upstream_ids f)) @
     optMember (sendsFilter before f) (js ''tool_filter'') (filterValue (gf_filter f))"

definition groupSaveBlocked :: "group option \<Rightarrow> group_form \<Rightarrow> jstr" where
  "groupSaveBlocked before f =
     (if gf_filterReplace f \<and> \<not> gf_filterChosen f then js ''Choose a mode to replace the stored filter.''
      else (let sends = (case before of Some b \<Rightarrow> sendsFilter b f | None \<Rightarrow> ff_mode (gf_filter f) \<noteq> NoMode) in
        if sends then filterProblem (gf_filter f) else []))"

definition groupPolicyStale :: "group \<Rightarrow> group \<Rightarrow> bool" where
  "groupPolicyStale seed fresh =
     (case (parseToolFilter (g_tool_filter seed), parseToolFilter (g_tool_filter fresh)) of
        (PUnreadable a, PUnreadable b) \<Rightarrow> a \<noteq> b
      | (PFilter a, PFilter b) \<Rightarrow> \<not> sameFilter a b
      | (PNone, PNone) \<Rightarrow> False
      | _ \<Rightarrow> True)"

definition GROUP_FILTER_STALE :: jstr where
  "GROUP_FILTER_STALE = js ''This group's filter changed since you opened it. Close this dialog and open it again to see the current filter.''"

datatype badge_tone = ZincTone | PinkTone

definition groupFilterBadge :: "group \<Rightarrow> (jstr \<times> badge_tone) option" where
  "groupFilterBadge g =
     (case parseToolFilter (g_tool_filter g) of
        PUnreadable _ \<Rightarrow> Some (js ''Filter unreadable'', PinkTone)
      | PFilter f \<Rightarrow> Some (if ff_mode f = AllowMode then js ''Allow filter'' else js ''Deny filter'', ZincTone)
      | PNone \<Rightarrow> None)"

section \<open>Laws\<close>

lemma sameMembers_refl [simp]: "sameMembers a a"
  by (simp add: sameMembers_def list_all_iff)

text \<open>The two lists hold no id twice: the server stores members as a set and the checkboxes filter
  or append. For such lists the comparison is equality of membership.\<close>

lemma sameMembers_iff:
  assumes "distinct a" "distinct b"
  shows "sameMembers a b \<longleftrightarrow> set a = set b"
proof
  assume "sameMembers a b"
  then have "length a = length b" "set a \<subseteq> set b" by (auto simp: sameMembers_def list_all_iff split: if_splits)
  then show "set a = set b"
    using distinct_card [OF assms(1)] distinct_card [OF assms(2)] by (intro card_subset_eq) simp_all
next
  assume "set a = set b"
  then show "sameMembers a b"
    using distinct_card [OF assms(1)] distinct_card [OF assms(2)] by (simp add: sameMembers_def list_all_iff)
qed

lemma storedForm_simps [simp]:
  "storedForm PNone = blankFilterForm" "storedForm (PFilter f) = f" "storedForm (PUnreadable t) = blankFilterForm"
  by (simp_all add: storedForm_def)

lemma formFromGroup_filter [simp]: "gf_filter (formFromGroup g) = storedForm (parseToolFilter (g_tool_filter g))"
  by (simp add: formFromGroup_def Let_def)

lemma sendsFilter_seed: "\<not> sendsFilter g (formFromGroup g)"
  by (auto simp: sendsFilter_def split: parsed_filter.splits) (auto simp: formFromGroup_def Let_def)

definition stableGroup :: "group \<Rightarrow> bool" where
  "stableGroup g \<longleftrightarrow> trim (g_name g) = g_name g"

definition groupPatchFields :: "jstr list" where
  "groupPatchFields = [js ''name'', js ''description'', js ''upstream_ids'', js ''tool_filter'']"

lemma groupPatch_untouched: "stableGroup g \<Longrightarrow> groupPatchBody g (formFromGroup g) = []"
  using sendsFilter_seed [of g] by (simp add: groupPatchBody_def stableGroup_def) (simp add: formFromGroup_def Let_def)

interpretation group_patch: patch_form formFromGroup groupPatchBody stableGroup groupPatchFields
proof
  show "distinct (map fst (groupPatchBody r f))" for r f
    unfolding groupPatchBody_def distinct_optMember_append by (simp add: map_fst_optMember)
  show "objHas k (groupPatchBody r f) \<Longrightarrow> k \<in> set groupPatchFields" for k r f
    by (auto simp: groupPatchBody_def groupPatchFields_def)
qed (rule groupPatch_untouched)

lemma groupPatch_filter:
  "objGet (js ''tool_filter'') (groupPatchBody g f) = (if sendsFilter g f then Some (filterValue (gf_filter f)) else None)"
  by (simp add: groupPatchBody_def objGet_append)

lemma groupPatch_members:
  "objGet (js ''upstream_ids'') (groupPatchBody g f) =
     (if sameMembers (gf_upstream_ids f) (g_upstream_ids g) then None else Some (strArr (gf_upstream_ids f)))"
  by (simp add: groupPatchBody_def objGet_append)

text \<open>What the stored filter permits, when it can be read.\<close>

lemma not_sent_same_policy:
  assumes "\<not> sendsFilter g f" "\<forall>t. parseToolFilter (g_tool_filter g) \<noteq> PUnreadable t"
  shows "formPermits (storedForm (parseToolFilter (g_tool_filter g))) = formPermits (gf_filter f)"
  using assms by (auto simp: sendsFilter_def split: parsed_filter.splits intro: formPermits_sameFilter)

lemma filterValue_NoMode: "ff_mode f = NoMode \<Longrightarrow> parseToolFilter (filterValue f) = PNone"
  by (simp add: filterValue_def parseToolFilter_def Let_def)

text \<open>A filter that goes is one the dashboard, and by the same rules the proxy, reads back as the form.\<close>

lemma sent_filter_readable:
  assumes "groupSaveBlocked (Some g) f = []" "sendsFilter g f"
    and "distinct (ff_tools (gf_filter f))" "distinct (ff_prefixes (gf_filter f))"
  shows "parseToolFilter (filterValue (gf_filter f)) = (if ff_mode (gf_filter f) = NoMode then PNone else PFilter (gf_filter f))"
proof -
  have "filterProblem (gf_filter f) = []"
    using assms(1,2) by (auto simp: groupSaveBlocked_def Let_def split: if_splits)
  then show ?thesis
    using assms(3,4) by (auto simp: filterValue_NoMode intro: parse_filterValue sendable_wfFilter)
qed

section \<open>Staleness\<close>

definition policyMeaning :: "group \<Rightarrow> (filter_mode \<times> jstr set \<times> jstr set) option + jstr" where
  "policyMeaning g = (case parseToolFilter (g_tool_filter g) of
     PNone \<Rightarrow> Inl None | PFilter f \<Rightarrow> Inl (filterMeaning f) | PUnreadable t \<Rightarrow> Inr t)"

lemma parsed_not_NoMode: "parseToolFilter raw = PFilter f \<Longrightarrow> ff_mode f \<noteq> NoMode"
  using parseToolFilter_wf by (auto simp: wfFilter_def)

lemma policyMeaning_PFilter:
  "parseToolFilter (g_tool_filter g) = PFilter f \<Longrightarrow> policyMeaning g = Inl (filterMeaning f) \<and> filterMeaning f \<noteq> None"
  by (auto simp: policyMeaning_def filterMeaning_def dest: parsed_not_NoMode)

interpretation group_policy: comparison "\<lambda>a b. \<not> groupPolicyStale a b" policyMeaning
proof
  fix a b
  show "\<not> groupPolicyStale a b \<longleftrightarrow> policyMeaning a = policyMeaning b"
    using policyMeaning_PFilter [of a] policyMeaning_PFilter [of b]
    by (cases "parseToolFilter (g_tool_filter a)"; cases "parseToolFilter (g_tool_filter b)")
       (auto simp: groupPolicyStale_def policyMeaning_def same_filter.same_iff)
qed

section \<open>Properties\<close>

text \<open>
  When the PATCH of a group with a readable filter leaves the filter out, the filter the server
  keeps and the filter on screen permit exactly the same tools.
\<close>

theorem unsent_filter_keeps_policy:
  assumes "objGet (js ''tool_filter'') (groupPatchBody g f) = None" "\<forall>t. parseToolFilter (g_tool_filter g) \<noteq> PUnreadable t"
  shows "formPermits (storedForm (parseToolFilter (g_tool_filter g))) slug name = formPermits (gf_filter f) slug name"
  using assms not_sent_same_policy [of g f] by (simp add: groupPatch_filter split: if_splits)

theorem unsent_filter_keeps_policy_witness:
  "formPermits (storedForm (parseToolFilter JNull)) (js ''a'') (js ''x'') = formPermits blankFilterForm (js ''a'') (js ''x'')"
proof -
  let ?g = "\<lparr>g_id = js ''1'', g_name = js ''g'', g_description = None, g_upstream_ids = [], g_tool_filter = JNull, g_created_at = [], g_updated_at = []\<rparr>"
  have p: "parseToolFilter JNull = PNone" by (simp add: parseToolFilter_def)
  have "objGet (js ''tool_filter'') (groupPatchBody ?g (formFromGroup ?g)) = None"
    using sendsFilter_seed [of ?g] by (simp add: groupPatch_filter)
  from unsent_filter_keeps_policy [OF this, of "js ''a''" "js ''x''"] show ?thesis by (simp add: p)
qed

text \<open>
  A filter that the dialog does not block and that the PATCH carries reads back, once served again,
  as exactly the filter on screen.
\<close>

theorem sent_filter_reads_back:
  assumes "groupSaveBlocked (Some g) f = []" "objGet (js ''tool_filter'') (groupPatchBody g f) = Some v"
    and "distinct (ff_tools (gf_filter f))" "distinct (ff_prefixes (gf_filter f))"
  shows "parseToolFilter v = (if ff_mode (gf_filter f) = NoMode then PNone else PFilter (gf_filter f))"
  using assms sent_filter_readable [of g f] by (auto simp: groupPatch_filter split: if_splits)

theorem sent_filter_reads_back_witness:
  "parseToolFilter (filterValue \<lparr>ff_mode = DenyMode, ff_tools = [js ''x''], ff_prefixes = []\<rparr>) =
     PFilter \<lparr>ff_mode = DenyMode, ff_tools = [js ''x''], ff_prefixes = []\<rparr>"
proof -
  let ?g = "\<lparr>g_id = js ''1'', g_name = js ''g'', g_description = None, g_upstream_ids = [], g_tool_filter = JNull, g_created_at = [], g_updated_at = []\<rparr>"
  let ?f = "(formFromGroup ?g)\<lparr>gf_filter := \<lparr>ff_mode = DenyMode, ff_tools = [js ''x''], ff_prefixes = []\<rparr>\<rparr>"
  have p: "parseToolFilter JNull = PNone" by (simp add: parseToolFilter_def)
  have s: "sendsFilter ?g ?f" by (simp add: sendsFilter_def p blankFilterForm_def sameFilter_def)
  have v: "objGet (js ''tool_filter'') (groupPatchBody ?g ?f) = Some (filterValue (gf_filter ?f))" by (simp add: groupPatch_filter s)
  have "cleanEntry (js ''x'')" by (simp add: clean_eval)
  moreover have "\<not> se_scoped (splitEntry (js ''x''))" by code_simp
  ultimately have "entryProblem (js ''x'') ToolKind DenySide True = []" by (simp add: entryProblem_none_iff)
  then have "filterProblem (gf_filter ?f) = []" by (simp add: filterProblem_def modeSide_def)
  then have "groupSaveBlocked (Some ?g) ?f = []" by (simp add: groupSaveBlocked_def) (simp add: formFromGroup_def p)
  from sent_filter_reads_back [OF this v] show ?thesis by simp
qed

text \<open>
  A save is stopped as stale exactly when the filter stored now does not mean what the filter meant
  when the dialog opened; reordering entries or spelling no filter differently does not stop it.
\<close>

theorem stale_exactly_when_policy_changed:
  "groupPolicyStale seed fresh \<longleftrightarrow> policyMeaning seed \<noteq> policyMeaning fresh"
  using group_policy.same_iff [of seed fresh] by blast

end
