(* ===== verification/KeyForm.thy ===== *)
theory KeyForm
  imports PatchForm ToolFilter GroupForm
begin

text \<open>
  The Create and Edit virtual key dialogs' form: \<open>web/src/lib/virtual-key-form.ts\<close>.

  The rate limit is a text box, so the body goes through \<open>Number(text)\<close>. \<open>toNumber\<close> is
  ECMAScript's \<open>StringToNumber\<close> on the texts whose value is an integer a double holds exactly;
  the value of a decimal literal with a fraction, an exponent or more digits is an argument
  (\<open>decNum\<close>). The lemmas show that a stored limit survives the box, what a save sends, and that
  a key whose stored lists cannot be read gets both lists or neither.
\<close>

section \<open>Number(text)\<close>

definition MAX_SAFE :: nat where
  "MAX_SAFE = 2 ^ 53 - 1"

definition radixDigit :: "jchar \<Rightarrow> nat" where
  "radixDigit c = (if isDigit c then unat c - 48 else if 0x61 \<le> c \<and> c \<le> 0x66 then unat c - 87
     else if 0x41 \<le> c \<and> c \<le> 0x46 then unat c - 55 else 99)"

definition radixOf :: "jstr \<Rightarrow> nat" where
  "radixOf t = (if startsWith t (js ''0x'') \<or> startsWith t (js ''0X'') then 16
     else if startsWith t (js ''0o'') \<or> startsWith t (js ''0O'') then 8
     else if startsWith t (js ''0b'') \<or> startsWith t (js ''0B'') then 2 else 10)"

text \<open>The rest of a decimal literal after its digits: an exponent part or nothing.\<close>

definition exponentPart :: "jstr \<Rightarrow> bool" where
  "exponentPart r = (case r of [] \<Rightarrow> True
     | c # cs \<Rightarrow> (c = 0x65 \<or> c = 0x45) \<and>
         (let ds = (case cs of d # rest \<Rightarrow> if d = 0x2b \<or> d = 0x2d then rest else cs | [] \<Rightarrow> []) in
          ds \<noteq> [] \<and> list_all isDigit ds))"

definition decimalLiteral :: "jstr \<Rightarrow> bool" where
  "decimalLiteral b =
     (let whole = takeWhile isDigit b; r = dropWhile isDigit b in
      case r of
        c # cs \<Rightarrow>
          (if c = 0x2e then (whole \<noteq> [] \<or> takeWhile isDigit cs \<noteq> []) \<and> exponentPart (dropWhile isDigit cs)
           else whole \<noteq> [] \<and> exponentPart r)
      | [] \<Rightarrow> whole \<noteq> [])"

definition unsigned :: "jstr \<Rightarrow> jstr" where
  "unsigned t = (case t of c # cs \<Rightarrow> if c = 0x2b \<or> c = 0x2d then cs else t | [] \<Rightarrow> [])"

definition toNumber :: "(jstr \<Rightarrow> jnum) \<Rightarrow> jstr \<Rightarrow> jnum" where
  "toNumber decNum s =
     (let t = trim s; r = radixOf t; b = unsigned t in
      if t = [] then IntNum 0
      else if r \<noteq> 10 then
        (let ds = drop 2 t; n = foldl (\<lambda>n c. r * n + radixDigit c) 0 ds in
         if ds = [] \<or> \<not> list_all (\<lambda>c. radixDigit c < r) ds then NonFinite
         else if n \<le> MAX_SAFE then IntNum (int n) else decNum t)
      else if b = js ''Infinity'' then NonFinite
      else if \<not> decimalLiteral b then NonFinite
      else if list_all isDigit b \<and> readNat b \<le> MAX_SAFE
      then IntNum (if hd t = 0x2d then - int (readNat b) else int (readNat b))
      else decNum t)"

section \<open>The form\<close>

definition LISTS_UNREADABLE_SENTENCE :: jstr where
  "LISTS_UNREADABLE_SENTENCE = js ''This key's stored tool rules cannot be read, so every call on it is refused.''"

definition METHODS_UNREADABLE_SENTENCE :: jstr where
  "METHODS_UNREADABLE_SENTENCE = js ''This key's allowed methods cannot be read, so every request on its /api/ endpoint is refused.''"

datatype target_type = UpstreamTarget | GroupTarget

definition targetStr :: "target_type \<Rightarrow> jstr" where
  "targetStr t = (case t of UpstreamTarget \<Rightarrow> js ''upstream'' | GroupTarget \<Rightarrow> js ''group'')"

record key_form =
  kf_name :: jstr
  kf_target_type :: target_type
  kf_target_id :: jstr
  kf_rate_limit :: jstr
  kf_tool_allowlist :: "jstr list"
  kf_tool_denylist :: "jstr list"
  kf_listsReplace :: bool
  kf_http_methods :: "jstr list"
  kf_methodsReplace :: bool

definition HTTP_METHODS :: "jstr list" where
  "HTTP_METHODS = [js ''GET'', js ''HEAD'', js ''POST'', js ''PUT'', js ''PATCH'', js ''DELETE'']"

definition mcpDoorShown :: "virtual_key \<Rightarrow> bool" where
  "mcpDoorShown vk =
     (if list_ex (\<lambda>e. ep_kind e \<noteq> js ''http'') (vk_endpoints vk) then True
      else length (vk_endpoints vk) = 0 \<and> \<not> endsWith (orElse (vk_proxy_url vk) []) (js ''/api/''))"

definition blankVirtualKeyForm :: key_form where
  "blankVirtualKeyForm = \<lparr>kf_name = [], kf_target_type = UpstreamTarget, kf_target_id = [], kf_rate_limit = [],
     kf_tool_allowlist = [], kf_tool_denylist = [], kf_listsReplace = False, kf_http_methods = [], kf_methodsReplace = False\<rparr>"

definition formFromVirtualKey :: "virtual_key \<Rightarrow> key_form" where
  "formFromVirtualKey vk = \<lparr>kf_name = vk_name vk,
     kf_target_type = (if vk_target_type vk = js ''group'' then GroupTarget else UpstreamTarget),
     kf_target_id = vk_target_id vk, kf_rate_limit = (case vk_rate_limit vk of None \<Rightarrow> [] | Some n \<Rightarrow> showInt n),
     kf_tool_allowlist = orElse (vk_tool_allowlist vk) [], kf_tool_denylist = orElse (vk_tool_denylist vk) [],
     kf_listsReplace = False, kf_http_methods = orElse (vk_http_methods vk) [], kf_methodsReplace = False\<rparr>"

section \<open>Request bodies\<close>

definition virtualKeyCreateBody :: "(jstr \<Rightarrow> jnum) \<Rightarrow> key_form \<Rightarrow> jobj" where
  "virtualKeyCreateBody decNum f =
     [(js ''name'', JStr (kf_name f)), (js ''target_type'', JStr (targetStr (kf_target_type f))), (js ''target_id'', JStr (kf_target_id f))] @
     optMember (kf_rate_limit f \<noteq> []) (js ''rate_limit'') (JNum (toNumber decNum (kf_rate_limit f))) @
     optMember (length (kf_tool_allowlist f) > 0) (js ''tool_allowlist'') (strArr (kf_tool_allowlist f)) @
     optMember (length (kf_tool_denylist f) > 0) (js ''tool_denylist'') (strArr (kf_tool_denylist f)) @
     optMember (length (kf_http_methods f) > 0) (js ''http_methods'') (strArr (kf_http_methods f))"

definition methodsSent :: "virtual_key \<Rightarrow> key_form \<Rightarrow> bool" where
  "methodsSent before f =
     (if vk_http_methods_malformed before then kf_methodsReplace f
      else \<not> sameEntries (vk_http_methods before) (Some (kf_http_methods f)))"

datatype list_field = AllowlistField | DenylistField

definition fieldName :: "list_field \<Rightarrow> jstr" where
  "fieldName fld = (case fld of AllowlistField \<Rightarrow> js ''tool_allowlist'' | DenylistField \<Rightarrow> js ''tool_denylist'')"

definition formList :: "key_form \<Rightarrow> list_field \<Rightarrow> jstr list" where
  "formList f fld = (case fld of AllowlistField \<Rightarrow> kf_tool_allowlist f | DenylistField \<Rightarrow> kf_tool_denylist f)"

definition rowList :: "virtual_key \<Rightarrow> list_field \<Rightarrow> jstr list option" where
  "rowList vk fld = (case fld of AllowlistField \<Rightarrow> vk_tool_allowlist vk | DenylistField \<Rightarrow> vk_tool_denylist vk)"

definition listsSent :: "virtual_key \<Rightarrow> key_form \<Rightarrow> list_field list" where
  "listsSent before f =
     (if vk_lists_malformed before then (if kf_listsReplace f then [AllowlistField, DenylistField] else [])
      else (if \<not> sameEntries (vk_tool_allowlist before) (Some (kf_tool_allowlist f)) then [AllowlistField] else []) @
           (if \<not> sameEntries (vk_tool_denylist before) (Some (kf_tool_denylist f)) then [DenylistField] else []))"

definition limitOf :: "(jstr \<Rightarrow> jnum) \<Rightarrow> key_form \<Rightarrow> jnum option" where
  "limitOf decNum f = (if kf_rate_limit f = [] then None else Some (toNumber decNum (kf_rate_limit f)))"

definition virtualKeyPatchBody :: "(jstr \<Rightarrow> jnum) \<Rightarrow> virtual_key \<Rightarrow> key_form \<Rightarrow> jobj" where
  "virtualKeyPatchBody decNum before f =
     optMember (trim (kf_name f) \<noteq> vk_name before) (js ''name'') (JStr (trim (kf_name f))) @
     optMember (limitOf decNum f \<noteq> map_option IntNum (vk_rate_limit before)) (js ''rate_limit'')
       (case limitOf decNum f of None \<Rightarrow> JNull | Some n \<Rightarrow> JNum n) @
     map (\<lambda>fld. (fieldName fld, strArr (formList f fld))) (listsSent before f) @
     optMember (methodsSent before f) (js ''http_methods'') (strArr (kf_http_methods f))"

definition keySaveBlocked :: "virtual_key option \<Rightarrow> key_form \<Rightarrow> bool \<Rightarrow> jstr" where
  "keySaveBlocked before f groupTarget =
     (let sent = (case before of Some b \<Rightarrow> listsSent b f | None \<Rightarrow> [DenylistField, AllowlistField]) in
      firstProblem (\<lambda>fld. if fld \<notin> set sent then []
          else listProblem (formList f fld) (if fld = AllowlistField then AllowSide else DenySide) groupTarget)
        [DenylistField, AllowlistField])"

definition keyPolicyStale :: "virtual_key \<Rightarrow> virtual_key \<Rightarrow> list_field list \<Rightarrow> bool" where
  "keyPolicyStale seed fresh sent =
     (if vk_lists_malformed seed \<noteq> vk_lists_malformed fresh then True
      else list_ex (\<lambda>fld. \<not> sameEntries (rowList seed fld) (rowList fresh fld)) sent)"

definition KEY_RULES_STALE :: jstr where
  "KEY_RULES_STALE = js ''This key's tool rules changed since you opened it. Close this dialog and open it again to see the current rules.''"

definition keyRulesBadge :: "virtual_key \<Rightarrow> (jstr \<times> badge_tone) option" where
  "keyRulesBadge vk =
     (if vk_lists_malformed vk then Some (js ''Rules unreadable'', PinkTone)
      else if vk_http_methods_malformed vk then Some (js ''Methods unreadable'', PinkTone)
      else (let allowed = length (orElse (vk_tool_allowlist vk) []); denied = length (orElse (vk_tool_denylist vk) []);
                parts = (if allowed > 0 then [showNat allowed @ js '' allowed''] else []) @
                        (if denied > 0 then [showNat denied @ js '' denied''] else []) in
        if length parts > 0 then Some (joinWith (js '', '') parts, ZincTone) else None))"

section \<open>Laws\<close>

lemma digit_not_white: "isDigit c \<Longrightarrow> \<not> isWhite c"
  by (auto simp: isDigit_def isWhite_def word_le_nat_alt)

lemma trim_id: "\<not> isWhite (hd s) \<Longrightarrow> \<not> isWhite (last s) \<Longrightarrow> trim s = s"
  by (simp add: trim_def dropWhile_id dropEndWhile_id)

lemma showNat_hd: "isDigit (hd (showNat n))" "isDigit (last (showNat n))"
  using showNat_digits [of n] by (simp_all add: list_all_iff)

lemma radix_digits: "list_all isDigit ds \<Longrightarrow> radixOf ds = 10" "radixOf (0x2d # ds) = 10"
  by (auto simp: radixOf_def startsWith_iff js_Cons isDigit_def)

lemma decimalLiteral_digits:
  assumes "ds \<noteq> []" "list_all isDigit ds"
  shows "decimalLiteral ds"
proof -
  have d: "dropWhile isDigit ds = []" "takeWhile isDigit ds = ds"
    using assms(2) by (simp_all add: list_all_iff dropWhile_eq_Nil_conv takeWhile_eq_all_conv)
  show ?thesis unfolding decimalLiteral_def Let_def d using assms(1) by simp
qed

lemma toNumber_nat:
  assumes "n \<le> MAX_SAFE"
  shows "toNumber decNum (showNat n) = IntNum (int n)"
proof -
  let ?t = "showNat n"
  have ds: "list_all isDigit ?t" by (rule showNat_digits)
  have t: "trim ?t = ?t" by (intro trim_id digit_not_white showNat_hd)
  obtain c cs where c: "?t = c # cs" by (cases ?t) simp_all
  with ds have "isDigit c" by simp
  then have s: "c \<noteq> 0x2b" "c \<noteq> 0x2d" "c \<noteq> 0x49" by (auto simp: isDigit_def)
  then have u: "unsigned ?t = ?t" "hd ?t \<noteq> 0x2d" "?t \<noteq> js ''Infinity''" by (auto simp: unsigned_def c js_Cons)
  show ?thesis
    unfolding toNumber_def Let_def t u(1)
    using radix_digits(1) [OF ds] decimalLiteral_digits [OF showNat_neq_Nil ds] ds u(2,3) assms by simp
qed

lemma toNumber_neg:
  assumes "n \<le> MAX_SAFE"
  shows "toNumber decNum (0x2d # showNat n) = IntNum (- int n)"
proof -
  let ?t = "showNat n"
  have ds: "list_all isDigit ?t" by (rule showNat_digits)
  have "\<not> isWhite (0x2d :: jchar)" by (simp add: isWhite_def)
  then have t: "trim (0x2d # ?t) = 0x2d # ?t"
    using digit_not_white [OF showNat_hd(2)] by (intro trim_id) simp_all
  obtain c cs where c: "?t = c # cs" by (cases ?t) simp_all
  with ds have "isDigit c" by simp
  then have "c \<noteq> 0x49" by (auto simp: isDigit_def)
  then have u: "unsigned (0x2d # ?t) = ?t" "?t \<noteq> js ''Infinity''" by (auto simp: unsigned_def c js_Cons)
  show ?thesis
    unfolding toNumber_def Let_def t u(1)
    using radix_digits(2) [of ?t] decimalLiteral_digits [OF showNat_neq_Nil ds] ds u(2) assms by simp
qed

text \<open>\<open>Number(String(n)) === n\<close> for every safe integer.\<close>

lemma toNumber_showInt:
  assumes "\<bar>i\<bar> \<le> int MAX_SAFE"
  shows "toNumber decNum (showInt i) = IntNum i"
proof (cases "i < 0")
  case True
  moreover have "showInt i = 0x2d # showNat (nat (- i))" using True by (simp add: showInt_def js_Cons)
  ultimately show ?thesis using assms toNumber_neg [of "nat (- i)" decNum] by simp
next
  case False
  moreover have "showInt i = showNat (nat i)" using False by (simp add: showInt_def)
  ultimately show ?thesis using assms toNumber_nat [of "nat i" decNum] by simp
qed

section \<open>What a save sends\<close>

lemma sameEntries_seed [simp]: "sameEntries x (Some (orElse x []))"
  by (simp add: sameEntries_def same_set.same_refl)

definition stableKey :: "virtual_key \<Rightarrow> bool" where
  "stableKey vk \<longleftrightarrow> trim (vk_name vk) = vk_name vk \<and>
     (case vk_rate_limit vk of None \<Rightarrow> True | Some n \<Rightarrow> \<bar>n\<bar> \<le> int MAX_SAFE)"

definition keyPatchFields :: "jstr list" where
  "keyPatchFields = [js ''name'', js ''rate_limit'', js ''tool_allowlist'', js ''tool_denylist'', js ''http_methods'']"

lemma showInt_neq_Nil [simp]: "showInt i \<noteq> []"
  by (simp add: showInt_def)

lemma limitOf_seed:
  assumes "stableKey vk"
  shows "limitOf decNum (formFromVirtualKey vk) = map_option IntNum (vk_rate_limit vk)"
  using assms by (cases "vk_rate_limit vk") (auto simp: limitOf_def formFromVirtualKey_def stableKey_def toNumber_showInt)

lemma keyPatch_untouched:
  assumes "stableKey vk"
  shows "virtualKeyPatchBody decNum vk (formFromVirtualKey vk) = []"
  using assms limitOf_seed [OF assms, of decNum]
  by (simp add: virtualKeyPatchBody_def)
     (simp add: formFromVirtualKey_def stableKey_def listsSent_def methodsSent_def)

lemma listsSent_distinct: "distinct (map fieldName (listsSent b f))"
  by (simp add: listsSent_def fieldName_def)

lemma fieldName_lists [simp]:
  "fieldName AllowlistField = js ''tool_allowlist''" "fieldName DenylistField = js ''tool_denylist''"
  by (simp_all add: fieldName_def)

lemma fieldName_cases: "fieldName fld \<in> {js ''tool_allowlist'', js ''tool_denylist''}"
  by (cases fld) simp_all

lemma objHas_lists:
  "objHas k (map (\<lambda>fld. (fieldName fld, strArr (formList f fld))) fs) \<longleftrightarrow> (\<exists>fld \<in> set fs. k = fieldName fld)"
  by (auto simp: objHas_def)

lemma keyPatch_fields: "objHas k (virtualKeyPatchBody decNum b f) \<Longrightarrow> k \<in> set keyPatchFields"
  using fieldName_cases by (auto simp: virtualKeyPatchBody_def keyPatchFields_def objHas_lists)

lemma keyPatch_distinct: "distinct (map fst (virtualKeyPatchBody decNum b f))"
proof -
  have other: "fieldName fld \<noteq> js ''name''" "fieldName fld \<noteq> js ''rate_limit''" "fieldName fld \<noteq> js ''http_methods''" for fld
    by (cases fld; simp)+
  have "distinct (map fst (map (\<lambda>fld. (fieldName fld, strArr (formList f fld))) (listsSent b f) @
      optMember c (js ''http_methods'') v))" for c v
    using listsSent_distinct [of b f] other(3) by (fastforce simp: comp_def optMember_def)
  then show ?thesis
    unfolding virtualKeyPatchBody_def distinct_optMember_append
    using other(1,2) by (fastforce simp: objHas_lists)
qed

interpretation key_patch: patch_form formFromVirtualKey "virtualKeyPatchBody decNum" stableKey keyPatchFields for decNum
  by unfold_locales (auto simp: keyPatch_untouched keyPatch_distinct dest: keyPatch_fields)

lemma keyPatch_list:
  "objGet (fieldName fld) (virtualKeyPatchBody decNum b f) = (if fld \<in> set (listsSent b f) then Some (strArr (formList f fld)) else None)"
  by (cases fld) (auto simp: virtualKeyPatchBody_def objGet_append listsSent_def)

lemma listsSent_iff:
  "\<not> vk_lists_malformed b \<Longrightarrow> fld \<in> set (listsSent b f) \<longleftrightarrow> set (formList f fld) \<noteq> set (orElse (rowList b fld) [])"
  by (cases fld) (auto simp: listsSent_def same_entries.same_iff formList_def rowList_def)

lemma listsSent_malformed:
  "vk_lists_malformed b \<Longrightarrow> fld \<in> set (listsSent b f) \<longleftrightarrow> kf_listsReplace f"
  by (cases fld) (simp_all add: listsSent_def)

text \<open>A list that goes passed every rule of the server's write path.\<close>

lemma keySaveBlocked_none:
  "keySaveBlocked before f gt = [] \<longleftrightarrow>
     (\<forall>fld \<in> set (case before of Some b \<Rightarrow> listsSent b f | None \<Rightarrow> [DenylistField, AllowlistField]).
        \<forall>e \<in> set (formList f fld). entryProblem e ToolKind (if fld = AllowlistField then AllowSide else DenySide) gt = [])"
proof -
  have all: "(\<forall>fld. P fld) \<longleftrightarrow> P DenylistField \<and> P AllowlistField" for P
    by (metis list_field.exhaust)
  show ?thesis
    unfolding keySaveBlocked_def Let_def firstProblem_none_iff listProblem_def Ball_def all by (auto simp: firstProblem_none_iff)
qed

lemma keyPolicyStale_iff:
  "keyPolicyStale seed fresh sent \<longleftrightarrow>
     vk_lists_malformed seed \<noteq> vk_lists_malformed fresh \<or>
     (\<exists>fld \<in> set sent. set (orElse (rowList seed fld) []) \<noteq> set (orElse (rowList fresh fld) []))"
  by (auto simp: keyPolicyStale_def list_ex_iff same_entries.same_iff)

section \<open>Properties\<close>

text \<open>
  Claim C18: the PATCH of a key whose stored lists cannot be read carries both lists when the user
  chose to replace them and neither otherwise.
\<close>

theorem malformed_lists_sent_together:
  assumes "vk_lists_malformed b"
  shows "objGet (fieldName fld) (virtualKeyPatchBody decNum b f) =
    (if kf_listsReplace f then Some (strArr (formList f fld)) else None)"
  using listsSent_malformed [OF assms] by (simp add: keyPatch_list)

theorem malformed_lists_sent_together_witness:
  "objGet (fieldName DenylistField) (virtualKeyPatchBody (\<lambda>_. NonFinite) (\<lparr>vk_id = js ''1'', vk_name = js ''k'', vk_key_prefix = [], vk_target_type = js ''group'', vk_target_id = js ''1'', vk_rate_limit = Some 60, vk_expires_at = None, vk_status = js ''active'', vk_last_used_at = None, vk_created_at = [], vk_api_key = None, vk_proxy_url = None, vk_tool_allowlist = None, vk_tool_denylist = None, vk_lists_malformed = True, vk_http_methods = None, vk_http_methods_malformed = False, vk_endpoints = []\<rparr>) (formFromVirtualKey (\<lparr>vk_id = js ''1'', vk_name = js ''k'', vk_key_prefix = [], vk_target_type = js ''group'', vk_target_id = js ''1'', vk_rate_limit = Some 60, vk_expires_at = None, vk_status = js ''active'', vk_last_used_at = None, vk_created_at = [], vk_api_key = None, vk_proxy_url = None, vk_tool_allowlist = None, vk_tool_denylist = None, vk_lists_malformed = True, vk_http_methods = None, vk_http_methods_malformed = False, vk_endpoints = []\<rparr>))) = None"
proof -
  have "vk_lists_malformed (\<lparr>vk_id = js ''1'', vk_name = js ''k'', vk_key_prefix = [], vk_target_type = js ''group'', vk_target_id = js ''1'', vk_rate_limit = Some 60, vk_expires_at = None, vk_status = js ''active'', vk_last_used_at = None, vk_created_at = [], vk_api_key = None, vk_proxy_url = None, vk_tool_allowlist = None, vk_tool_denylist = None, vk_lists_malformed = True, vk_http_methods = None, vk_http_methods_malformed = False, vk_endpoints = []\<rparr>)" "\<not> kf_listsReplace (formFromVirtualKey (\<lparr>vk_id = js ''1'', vk_name = js ''k'', vk_key_prefix = [], vk_target_type = js ''group'', vk_target_id = js ''1'', vk_rate_limit = Some 60, vk_expires_at = None, vk_status = js ''active'', vk_last_used_at = None, vk_created_at = [], vk_api_key = None, vk_proxy_url = None, vk_tool_allowlist = None, vk_tool_denylist = None, vk_lists_malformed = True, vk_http_methods = None, vk_http_methods_malformed = False, vk_endpoints = []\<rparr>))" by code_simp+
  with malformed_lists_sent_together [OF this(1), of DenylistField] show ?thesis by simp
qed

text \<open>
  For a key whose lists can be read, a list is in the PATCH exactly when the entries on screen are
  not, as a set, the entries stored.
\<close>

theorem readable_list_sent_iff_changed:
  assumes "\<not> vk_lists_malformed b"
  shows "objGet (fieldName fld) (virtualKeyPatchBody decNum b f) =
    (if set (formList f fld) = set (orElse (rowList b fld) []) then None else Some (strArr (formList f fld)))"
  using listsSent_iff [OF assms] by (simp add: keyPatch_list)

theorem readable_list_sent_iff_changed_witness:
  "objGet (fieldName AllowlistField) (virtualKeyPatchBody (\<lambda>_. NonFinite) (\<lparr>vk_id = js ''1'', vk_name = js ''k'', vk_key_prefix = [], vk_target_type = js ''group'', vk_target_id = js ''1'', vk_rate_limit = Some 60, vk_expires_at = None, vk_status = js ''active'', vk_last_used_at = None, vk_created_at = [], vk_api_key = None, vk_proxy_url = None, vk_tool_allowlist = None, vk_tool_denylist = None, vk_lists_malformed = False, vk_http_methods = None, vk_http_methods_malformed = False, vk_endpoints = []\<rparr>) ((formFromVirtualKey (\<lparr>vk_id = js ''1'', vk_name = js ''k'', vk_key_prefix = [], vk_target_type = js ''group'', vk_target_id = js ''1'', vk_rate_limit = Some 60, vk_expires_at = None, vk_status = js ''active'', vk_last_used_at = None, vk_created_at = [], vk_api_key = None, vk_proxy_url = None, vk_tool_allowlist = None, vk_tool_denylist = None, vk_lists_malformed = False, vk_http_methods = None, vk_http_methods_malformed = False, vk_endpoints = []\<rparr>))\<lparr>kf_tool_allowlist := [js ''a__x'']\<rparr>)) =
     Some (strArr [js ''a__x''])"
proof -
  have "\<not> vk_lists_malformed (\<lparr>vk_id = js ''1'', vk_name = js ''k'', vk_key_prefix = [], vk_target_type = js ''group'', vk_target_id = js ''1'', vk_rate_limit = Some 60, vk_expires_at = None, vk_status = js ''active'', vk_last_used_at = None, vk_created_at = [], vk_api_key = None, vk_proxy_url = None, vk_tool_allowlist = None, vk_tool_denylist = None, vk_lists_malformed = False, vk_http_methods = None, vk_http_methods_malformed = False, vk_endpoints = []\<rparr>)" by code_simp
  from readable_list_sent_iff_changed [OF this, of AllowlistField] show ?thesis by (simp add: formList_def rowList_def)
qed

text \<open>
  The rate limit of a stored key, written into the form as text, is read back as the stored limit,
  and no limit as no limit, whatever Number does on texts that are not integers.
\<close>

theorem rate_limit_survives_the_form:
  assumes "stableKey vk"
  shows "limitOf decNum (formFromVirtualKey vk) = map_option IntNum (vk_rate_limit vk)"
  using assms by (rule limitOf_seed)

theorem rate_limit_survives_the_form_witness:
  "limitOf (\<lambda>_. NonFinite) (formFromVirtualKey (\<lparr>vk_id = js ''1'', vk_name = js ''k'', vk_key_prefix = [], vk_target_type = js ''group'', vk_target_id = js ''1'', vk_rate_limit = Some 60, vk_expires_at = None, vk_status = js ''active'', vk_last_used_at = None, vk_created_at = [], vk_api_key = None, vk_proxy_url = None, vk_tool_allowlist = None, vk_tool_denylist = None, vk_lists_malformed = False, vk_http_methods = None, vk_http_methods_malformed = False, vk_endpoints = []\<rparr>)) = Some (IntNum 60)"
proof -
  have "trim (js ''k'') = js ''k''" by code_simp
  then have "stableKey (\<lparr>vk_id = js ''1'', vk_name = js ''k'', vk_key_prefix = [], vk_target_type = js ''group'', vk_target_id = js ''1'', vk_rate_limit = Some 60, vk_expires_at = None, vk_status = js ''active'', vk_last_used_at = None, vk_created_at = [], vk_api_key = None, vk_proxy_url = None, vk_tool_allowlist = None, vk_tool_denylist = None, vk_lists_malformed = False, vk_http_methods = None, vk_http_methods_malformed = False, vk_endpoints = []\<rparr>)" by (simp add: stableKey_def MAX_SAFE_def)
  from rate_limit_survives_the_form [OF this] show ?thesis by simp
qed

end
