(* ===== verification/RuleFields.thy ===== *)
theory RuleFields
  imports ToolPicker GroupForm KeyForm
begin

text \<open>
  The rule sections of the group and key dialogs: \<open>web/src/app/tool-filter-fields.tsx\<close>,
  \<open>web/src/app/tool-list-fields.tsx\<close>, \<open>web/src/app/group-form.tsx\<close> and
  \<open>web/src/app/http-methods-fields.tsx\<close>.

  Each section is a function from the form and the catalogue to what is drawn, and each control
  an edit of the form. The lemmas compose the picker with the two rules it is drawn over: in the
  group dialog a tick is the filter's verdict and moves that verdict for one tool; in the key
  dialog the boxes and the notes of a row add up to the proxy's decision. The edits keep the
  lists free of repetitions, which is what the request bodies rely on.
\<close>

section \<open>The group dialog's filter section\<close>

definition UNREADABLE_SHOWN :: nat where
  "UNREADABLE_SHOWN = 2000"

definition BLOCKS_EVERYTHING_NOW :: jstr where
  "BLOCKS_EVERYTHING_NOW = js ''As it stands, this filter blocks every tool on this group.''"

definition filterSide :: "filter_form \<Rightarrow> rule_side" where
  "filterSide f = (if ff_mode f = AllowMode then AllowSide else DenySide)"

text \<open>The radio's value; \<open>None\<close> is no choice yet, \<open>Some NoMode\<close> is No filter.\<close>

definition filterRadio :: "group_form \<Rightarrow> filter_mode option" where
  "filterRadio form = (if gf_filterReplace form \<and> \<not> gf_filterChosen form then None else Some (ff_mode (gf_filter form)))"

definition filterMark :: "filter_form \<Rightarrow> catalogue \<Rightarrow> entry_kind \<Rightarrow> jstr \<Rightarrow> entry_row" where
  "filterMark f c kind entry =
     (let m = entryMark entry kind (filterSide f) True False
                (if kind = ToolKind then unmatchedEntries (ff_tools f) c False else unmatchedEntries (ff_prefixes f) c True)
                None (if kind = PrefixKind then Some (prefixMatchNote entry c) else None)
      in \<lparr>er_text = entry, er_kind = kind, er_badge = em_badge m, er_note = em_note m\<rparr>)"

definition filterRows :: "filter_form \<Rightarrow> catalogue \<Rightarrow> entry_row list" where
  "filterRows f c = map (filterMark f c ToolKind) (ff_tools f) @ map (filterMark f c PrefixKind) (ff_prefixes f)"

definition filterStanding :: "filter_form \<Rightarrow> catalogue \<Rightarrow> jstr" where
  "filterStanding f c =
     orStr (filterAdmitsNothing f)
       (if ff_mode f \<noteq> NoMode \<and> blocksEverything (filterPermits (modeStr (ff_mode f)) (ff_tools f) (ff_prefixes f)) c
        then BLOCKS_EVERYTHING_NOW else [])"

definition filterEmptyNote :: "jstr \<Rightarrow> filter_form \<Rightarrow> jstr" where
  "filterEmptyNote blocked f = (if blocked \<noteq> [] then ZERO_ENTRIES else orStr (filterListsNothing f) ZERO_ENTRIES)"

definition filterRule :: "filter_form \<Rightarrow> picker_rule" where
  "filterRule f = \<lparr>pk_side = filterSide f, pk_groupTarget = True, pk_tools = ff_tools f, pk_prefixes = ff_prefixes f\<rparr>"

definition filterWhole :: "filter_form \<Rightarrow> whole_member" where
  "filterWhole f = \<lparr>wm_label = wholeMemberLabel (ff_mode f), wm_isOn = (\<lambda>slug. wholeMemberPrefix slug \<in> set (ff_prefixes f))\<rparr>"

record filter_section =
  fs_replaceLine :: bool
  fs_radio :: "filter_mode option"
  fs_standing :: "jstr option"
  fs_entries :: entries_view
  fs_load :: load_view
  fs_picker :: "bool \<times> member_block list"

text \<open>What is drawn: the unreadable filter clamped, the radio alone under No filter, or the whole section.\<close>

datatype filter_view = UnreadableView jstr bool | RadioView bool "filter_mode option" | RulesView filter_section

definition toolFilterFields ::
  "(jstr \<Rightarrow> jstr) \<Rightarrow> group_form \<Rightarrow> catalogue \<Rightarrow> jstr \<Rightarrow> jstr \<Rightarrow> jstr option \<Rightarrow> jstr \<Rightarrow> filter_view" where
  "toolFilterFields lower form c rateLimited blocked emptyHint needle =
     (let f = gf_filter form in
      if gf_filterUnreadable form \<noteq> [] \<and> \<not> gf_filterReplace form then
        (let shown = clampText (gf_filterUnreadable form) UNREADABLE_SHOWN in UnreadableView (fst shown) (snd shown))
      else if ff_mode f = NoMode then RadioView (gf_filterReplace form) (filterRadio form)
      else RulesView \<lparr>fs_replaceLine = gf_filterReplace form, fs_radio = filterRadio form,
             fs_standing = shownIf (filterStanding f c),
             fs_entries = toolEntries (js ''Entries'') (filterRows f c) (filterEmptyNote blocked f),
             fs_load = toolPickerLoad c rateLimited (orElse emptyHint (js ''Tick an upstream above to choose its tools.'')),
             fs_picker = toolPicker lower needle (filterRule f) (Some (filterWhole f)) None c\<rparr>)"

section \<open>The group dialog's fields\<close>

definition MEMBER_HTTP_API :: jstr where
  "MEMBER_HTTP_API = js ''HTTP API. Reached at its own /api/ endpoint, not through the group's MCP endpoint.''"

definition memberLines :: "upstream \<Rightarrow> jstr list" where
  "memberLines u =
     (if u_kind u = js ''http'' then [MEMBER_HTTP_API] else []) @
     (if u_enabled u then [] else [MEMBER_DISABLED]) @
     (if u_enabled u \<and> transportUnsupported (u_transport u) then [MEMBER_NOT_IMPLEMENTED] else [])"

definition findUpstream :: "upstream list \<Rightarrow> jstr \<Rightarrow> upstream option" where
  "findUpstream us i = firstThat (\<lambda>u. u_id u = i) us"

definition isHttp :: "upstream list \<Rightarrow> jstr \<Rightarrow> bool" where
  "isHttp us i = (case findUpstream us i of Some u \<Rightarrow> u_kind u = js ''http'' | None \<Rightarrow> False)"

definition groupEmptyHint :: "upstream list \<Rightarrow> group_form \<Rightarrow> jstr option" where
  "groupEmptyHint us form =
     (if length (gf_upstream_ids form) > 0 \<and> list_all (isHttp us) (gf_upstream_ids form)
      then Some (js ''The ticked upstreams are HTTP APIs, which have no tools to choose.'') else None)"

text \<open>The member list: a sentence when there is nothing to tick, else a box per upstream.\<close>

definition memberBoxes :: "bool \<Rightarrow> upstream list \<Rightarrow> group_form \<Rightarrow> jstr + (jstr \<times> bool \<times> jstr list) list" where
  "memberBoxes isEdit us form =
     (if isEdit \<and> length us = 0 then
        Inl (if length (gf_upstream_ids form) > 0 then js ''No upstreams to choose from. Saving keeps the members this group has.''
             else js ''No upstreams yet. Add one on the Upstreams page to give this group members.'')
      else Inr (map (\<lambda>u. (u_name u, u_id u \<in> set (gf_upstream_ids form), memberLines u)) us))"

section \<open>Edits of the group form\<close>

datatype group_edit =
    GName jstr
  | GDescription jstr
  | GMember jstr bool
  | GReplaceFilter
  | GMode filter_mode
  | GRemove entry_kind jstr
  | GAddTool jstr
  | GAddPrefix jstr
  | GTick jstr bool
  | GWhole jstr bool

definition setTools :: "(jstr list \<Rightarrow> jstr list) \<Rightarrow> group_form \<Rightarrow> group_form" where
  "setTools g f = f\<lparr>gf_filter := (gf_filter f)\<lparr>ff_tools := g (ff_tools (gf_filter f))\<rparr>\<rparr>"

definition setPrefixes :: "(jstr list \<Rightarrow> jstr list) \<Rightarrow> group_form \<Rightarrow> group_form" where
  "setPrefixes g f = f\<lparr>gf_filter := (gf_filter f)\<lparr>ff_prefixes := g (ff_prefixes (gf_filter f))\<rparr>\<rparr>"

fun groupEdit :: "group_edit \<Rightarrow> group_form \<Rightarrow> group_form" where
  "groupEdit (GName v) f = f\<lparr>gf_name := v\<rparr>"
| "groupEdit (GDescription v) f = f\<lparr>gf_description := v\<rparr>"
| "groupEdit (GMember i checked) f =
     f\<lparr>gf_upstream_ids := (if checked then gf_upstream_ids f @ [i] else filter (\<lambda>x. x \<noteq> i) (gf_upstream_ids f))\<rparr>"
| "groupEdit GReplaceFilter f = f\<lparr>gf_filterReplace := True, gf_filterChosen := False\<rparr>"
| "groupEdit (GMode m) f = f\<lparr>gf_filter := (gf_filter f)\<lparr>ff_mode := m\<rparr>, gf_filterChosen := True\<rparr>"
| "groupEdit (GRemove ToolKind e) f = setTools (\<lambda>es. toggleEntry es e False) f"
| "groupEdit (GRemove PrefixKind e) f = setPrefixes (\<lambda>es. toggleEntry es e False) f"
| "groupEdit (GAddTool e) f = setTools (\<lambda>es. toggleEntry es e True) f"
| "groupEdit (GAddPrefix e) f = setPrefixes (\<lambda>es. toggleEntry es e True) f"
| "groupEdit (GTick e on) f = setTools (\<lambda>es. toggleEntry es e on) f"
| "groupEdit (GWhole slug on) f = setPrefixes (\<lambda>es. toggleEntry es (wholeMemberPrefix slug) on) f"

text \<open>A box reports the value it does not have: a member is ticked only while it is not in the list.\<close>

fun groupEditFits :: "group_edit \<Rightarrow> group_form \<Rightarrow> bool" where
  "groupEditFits (GMember i checked) f = (checked = (i \<notin> set (gf_upstream_ids f)))"
| "groupEditFits _ f = True"

section \<open>The key dialog's lists\<close>

definition ALSO_DENIED_NOTE :: jstr where
  "ALSO_DENIED_NOTE = js ''This tool is on the deny list too. Deny wins, so it stays blocked.''"

definition GROUP_BLOCKS_NOTE :: jstr where
  "GROUP_BLOCKS_NOTE = js ''Blocked by the group's filter, whatever this key allows.''"

definition sideOf :: "list_field \<Rightarrow> rule_side" where
  "sideOf fld = (case fld of AllowlistField \<Rightarrow> AllowSide | DenylistField \<Rightarrow> DenySide)"

definition ruleListRow :: "list_field \<Rightarrow> key_form \<Rightarrow> bool \<Rightarrow> jstr \<Rightarrow> catalogue \<Rightarrow> jstr \<Rightarrow> entry_row" where
  "ruleListRow fld form groupTarget targetSlug c entry =
     (let unmatched = unmatchedEntries (formList form fld) c False;
          overruled = (if fld = AllowlistField \<and> allowEntryDeniedBy entry (kf_tool_denylist form) targetSlug \<noteq> [] then ALSO_DENIED_NOTE else []);
          m = entryMark entry ToolKind (sideOf fld) groupTarget True unmatched (Some overruled) None
      in \<lparr>er_text = entry, er_kind = ToolKind, er_badge = em_badge m, er_note = em_note m\<rparr>)"

definition ruleList :: "list_field \<Rightarrow> key_form \<Rightarrow> bool \<Rightarrow> jstr \<Rightarrow> catalogue \<Rightarrow> entries_view" where
  "ruleList fld form groupTarget targetSlug c =
     toolEntries (js ''Entries'') (map (ruleListRow fld form groupTarget targetSlug c) (formList form fld)) []"

definition setList :: "list_field \<Rightarrow> jstr list \<Rightarrow> key_form \<Rightarrow> key_form" where
  "setList fld xs f = (case fld of AllowlistField \<Rightarrow> f\<lparr>kf_tool_allowlist := xs\<rparr> | DenylistField \<Rightarrow> f\<lparr>kf_tool_denylist := xs\<rparr>)"

definition keyRule :: "list_field \<Rightarrow> bool \<Rightarrow> key_form \<Rightarrow> picker_rule" where
  "keyRule ticking groupTarget form =
     \<lparr>pk_side = sideOf ticking, pk_groupTarget = groupTarget, pk_tools = formList form ticking, pk_prefixes = []\<rparr>"

text \<open>The notes under a row for the rules this picker does not hold; \<open>gf\<close> is the target group's stored filter.\<close>

definition listRowNotes :: "list_field \<Rightarrow> jval option \<Rightarrow> key_form \<Rightarrow> row_notes" where
  "listRowNotes ticking gf form slug name =
     (case gf of Some tf \<Rightarrow> if groupBlocks tf slug name then [GROUP_BLOCKS_NOTE] else [] | None \<Rightarrow> []) @
     (let denied = (if ticking = AllowlistField then deniedBy slug name (kf_tool_denylist form) else [])
      in if denied \<noteq> [] then [deniedRowNote denied] else [])"

text \<open>\<open>GroupFilterBlock\<close>: the sentence with its tone, the two lists and the count line.\<close>

definition groupFilterBlock :: "jstr \<Rightarrow> jval \<Rightarrow> bool \<Rightarrow> bool \<Rightarrow> group_filter_summary \<times> jstr option" where
  "groupFilterBlock name tf listsAbove malformed =
     (let s = groupFilterSummary name tf listsAbove malformed
      in (s, if gs_more s > 0 then Some (js ''And '' @ showNat (gs_more s) @ js '' more.'') else None))"

record list_section =
  ls_group :: "(group_filter_summary \<times> jstr option) option"
  ls_nothing :: "jstr option"
  ls_replaceLine :: bool
  ls_deny :: entries_view
  ls_allow :: entries_view
  ls_load :: load_view
  ls_picker :: "(bool \<times> member_block list) option"

datatype list_view = UnreadableLists jstr | ListsView list_section

definition toolListFields ::
  "(jstr \<Rightarrow> jstr) \<Rightarrow> list_field \<Rightarrow> key_form \<Rightarrow> bool \<Rightarrow> group option \<Rightarrow> jstr \<Rightarrow> bool \<Rightarrow> catalogue \<Rightarrow> jstr \<Rightarrow> jstr \<Rightarrow> jstr \<Rightarrow> list_view" where
  "toolListFields lower ticking form groupTarget grp targetSlug unreadable c rateLimited emptyHint needle =
     (if unreadable \<and> \<not> kf_listsReplace form then UnreadableLists LISTS_UNREADABLE_SENTENCE
      else ListsView
        \<lparr>ls_group = map_option (\<lambda>g. groupFilterBlock (g_name g) (g_tool_filter g) False False) grp,
         ls_nothing = shownIf (allowListAdmitsNothing (kf_tool_allowlist form) (kf_tool_denylist form) groupTarget targetSlug),
         ls_replaceLine = kf_listsReplace form,
         ls_deny = ruleList DenylistField form groupTarget targetSlug c,
         ls_allow = ruleList AllowlistField form groupTarget targetSlug c,
         ls_load = toolPickerLoad c rateLimited emptyHint,
         ls_picker = (if length c > 0
           then Some (toolPicker lower needle (keyRule ticking groupTarget form) None
                  (Some (listRowNotes ticking (map_option g_tool_filter grp) form)) c)
           else None)\<rparr>)"

section \<open>Allowed methods\<close>

text \<open>\<open>None\<close> is the unreadable state, else a box per method.\<close>

definition httpMethodsFields :: "key_form \<Rightarrow> bool \<Rightarrow> (jstr \<times> bool) list option" where
  "httpMethodsFields form unreadable =
     (if unreadable \<and> \<not> kf_methodsReplace form then None
      else Some (map (\<lambda>m. (m, m \<in> set (kf_http_methods form))) HTTP_METHODS))"

definition toggleMethod :: "jstr \<Rightarrow> bool \<Rightarrow> jstr list \<Rightarrow> jstr list" where
  "toggleMethod method on ms =
     (let S = (if on then insert method (set ms) else set ms - {method}) in filter (\<lambda>m. m \<in> S) HTTP_METHODS)"

section \<open>Edits of the key form\<close>

datatype key_edit =
    KName jstr
  | KRateLimit jstr
  | KRemove list_field jstr
  | KAdd list_field jstr
  | KTick list_field jstr bool
  | KReplaceLists
  | KMethod jstr bool
  | KReplaceMethods

fun keyEdit :: "key_edit \<Rightarrow> key_form \<Rightarrow> key_form" where
  "keyEdit (KName v) f = f\<lparr>kf_name := v\<rparr>"
| "keyEdit (KRateLimit v) f = f\<lparr>kf_rate_limit := v\<rparr>"
| "keyEdit (KRemove fld e) f = setList fld (toggleEntry (formList f fld) e False) f"
| "keyEdit (KAdd fld e) f = setList fld (toggleEntry (formList f fld) e True) f"
| "keyEdit (KTick fld e on) f = setList fld (toggleEntry (formList f fld) e on) f"
| "keyEdit KReplaceLists f = f\<lparr>kf_listsReplace := True\<rparr>"
| "keyEdit (KMethod m on) f = f\<lparr>kf_http_methods := toggleMethod m on (kf_http_methods f)\<rparr>"
| "keyEdit KReplaceMethods f = f\<lparr>kf_methodsReplace := True\<rparr>"

section \<open>Ticks in the group dialog\<close>

lemma formPermits_rule:
  assumes "ff_mode f \<noteq> NoMode"
  shows "formPermits f slug name \<longleftrightarrow> (ff_mode f = AllowMode \<longleftrightarrow> ruleLists (filterRule f) slug name)"
  using assms by (cases "ff_mode f") (simp_all add: formPermits_def filterPermits_listed ruleLists_def filterRule_def filterSide_def)

lemma filterRule_edits:
  "filterRule (gf_filter (groupEdit (GTick e on) form)) = tickRow e on (filterRule (gf_filter form))"
  "filterRule (gf_filter (groupEdit (GWhole slug on) form)) = toggleWhole slug on (filterRule (gf_filter form))"
  by (simp_all add: setTools_def setPrefixes_def filterRule_def tickRow_def toggleWhole_def filterSide_def)

lemma groupEdit_mode [simp]:
  "ff_mode (gf_filter (groupEdit (GTick e on) form)) = ff_mode (gf_filter form)"
  "ff_mode (gf_filter (groupEdit (GWhole slug on) form)) = ff_mode (gf_filter form)"
  by (simp_all add: setTools_def setPrefixes_def)

lemma formPermits_edits:
  assumes "ff_mode (gf_filter form) \<noteq> NoMode"
  shows "formPermits (gf_filter (groupEdit (GTick e on) form)) slug name \<longleftrightarrow>
      (ff_mode (gf_filter form) = AllowMode \<longleftrightarrow> ruleLists (tickRow e on (filterRule (gf_filter form))) slug name)"
    and "formPermits (gf_filter (groupEdit (GWhole sl on) form)) slug name \<longleftrightarrow>
      (ff_mode (gf_filter form) = AllowMode \<longleftrightarrow> ruleLists (toggleWhole sl on (filterRule (gf_filter form))) slug name)"
  using assms formPermits_rule [of "gf_filter (groupEdit (GTick e on) form)"]
    formPermits_rule [of "gf_filter (groupEdit (GWhole sl on) form)"]
  unfolding filterRule_edits groupEdit_mode by blast+

lemma tick_moves_one_verdict:
  assumes "ff_mode (gf_filter form) \<noteq> NoMode" "validSlug slug" "namesItself slug tool"
    and "\<not> pr_disabled (pickerRow (filterRule (gf_filter form)) w ns slug tool)"
  shows "formPermits (gf_filter (groupEdit (GTick (tickEntry slug tool) on) form)) slug' name' \<longleftrightarrow>
     (if slug' = slug \<and> name' = t_name tool then on \<longleftrightarrow> ff_mode (gf_filter form) = AllowMode else formPermits (gf_filter form) slug' name')"
proof -
  let ?r = "filterRule (gf_filter form)"
  have "covers slug (t_name tool) (pk_tools ?r) (pk_prefixes ?r) (pk_side ?r) (pk_groupTarget ?r) = {}"
    using assms(4) unfolding pickerRow_disabled_iff by blast
  note own = ruleLists_tick_own [OF assms(2) this]
  have other: "ruleLists (tickRow (scopedToolName slug (t_name tool)) on ?r) slug' name' = ruleLists ?r slug' name'"
    if "\<not> (slug' = slug \<and> name' = t_name tool)"
    using that by (intro ruleLists_tick_other assms(2)) auto
  show ?thesis
    unfolding formPermits_edits [OF assms(1)] tickEntry_own [OF assms(3)] formPermits_rule [OF assms(1)]
    using own [of on] other by (cases "slug' = slug \<and> name' = t_name tool") auto
qed

lemma whole_moves_one_member:
  assumes "ff_mode (gf_filter form) \<noteq> NoMode" "validSlug slug"
  shows "formPermits (gf_filter (groupEdit (GWhole slug True) form)) slug' name' \<longleftrightarrow>
     (if slug' = slug then ff_mode (gf_filter form) = AllowMode else formPermits (gf_filter form) slug' name')"
  unfolding formPermits_edits [OF assms(1)] ruleLists_whole [OF assms(2)] formPermits_rule [OF assms(1)] by auto

section \<open>Rows in the key dialog\<close>

lemma matchesAny_listedBy:
  "matchesAny p es slug name q a = listedBy q (a \<and> tp_groupTarget p) es (slug, name)"
  by (auto simp: matchesAny_def listedBy_def list_ex_iff)

text \<open>The proxy's decision layer by layer: the deny list, the allow list, the group.\<close>

lemma blockedBy_layers:
  "blockedBy (keyPolicy pf allow deny gt False) slug name = None \<longleftrightarrow>
     \<not> listedBy False False deny (slug, name) \<and> (allow = [] \<or> listedBy False gt allow (slug, name)) \<and>
     blockedBy (keyPolicy pf [] [] gt False) slug name = None"
  by (auto simp: blockedBy_def keyPolicy_def matchesAny_listedBy Let_def)

lemma deniedBy_listed: "deniedBy slug name deny \<noteq> [] \<longleftrightarrow> listedBy False False deny (slug, name)"
  by (simp add: deniedBy_iff filter_list.lists_iff)

definition targetFilter :: "jval option \<Rightarrow> parsed_filter" where
  "targetFilter gf = (case gf of Some tf \<Rightarrow> parseToolFilter tf | None \<Rightarrow> PNone)"

lemma group_layer:
  "blockedBy (keyPolicy (targetFilter gf) [] [] (gf \<noteq> None) False) slug name = None \<longleftrightarrow>
     (case gf of Some tf \<Rightarrow> \<not> groupBlocks tf slug name | None \<Rightarrow> True)"
  using groupBlocks_proxy [of "the gf" slug name]
  by (cases gf) (simp_all add: targetFilter_def blockedBy_def keyPolicy_def matchesAny_def blankFilterForm_def)

lemma listRowNotes_empty:
  "listRowNotes AllowlistField gf form slug name = [] \<longleftrightarrow>
     (case gf of Some tf \<Rightarrow> \<not> groupBlocks tf slug name | None \<Rightarrow> True) \<and> \<not> listedBy False False (kf_tool_denylist form) (slug, name)"
  using deniedBy_listed [of slug name "kf_tool_denylist form"]
  by (auto simp: listRowNotes_def Let_def split: option.splits)

lemma ruleLists_keyRule:
  "ruleLists (keyRule AllowlistField gt form) slug name = listedBy False gt (kf_tool_allowlist form) (slug, name)"
  "ruleLists (keyRule DenylistField gt form) slug name = listedBy False False (kf_tool_denylist form) (slug, name)"
  by (simp_all add: ruleLists_def keyRule_def sideOf_def formList_def)

lemma key_row_is_the_proxy:
  assumes "validSlug slug" "namesItself slug tool"
    and "pr_box (pickerRow (keyRule AllowlistField (gf \<noteq> None) form) w ns slug tool) = Some b"
  shows "blockedBy (keyPolicy (targetFilter gf) (kf_tool_allowlist form) (kf_tool_denylist form) (gf \<noteq> None) False) slug (t_name tool) = None
     \<longleftrightarrow> (kf_tool_allowlist form = [] \<or> b) \<and> listRowNotes AllowlistField gf form slug (t_name tool) = []"
  using blockedBy_layers [of "targetFilter gf" "kf_tool_allowlist form" "kf_tool_denylist form" "gf \<noteq> None" slug "t_name tool"]
  unfolding group_layer listRowNotes_empty pickerRow_ticked_iff [OF assms] ruleLists_keyRule by blast

section \<open>Well-formed forms\<close>

text \<open>No list of the group form holds an entry twice.\<close>

definition wfGroupForm :: "group_form \<Rightarrow> bool" where
  "wfGroupForm f \<longleftrightarrow> distinct (gf_upstream_ids f) \<and> distinct (ff_tools (gf_filter f)) \<and> distinct (ff_prefixes (gf_filter f))"

lemma wfGroupForm_blank: "wfGroupForm blankGroupForm"
  by (simp add: wfGroupForm_def blankGroupForm_def blankFilterForm_def)

lemma wfGroupForm_seed: "distinct (g_upstream_ids g) \<Longrightarrow> wfGroupForm (formFromGroup g)"
  using parseToolFilter_wf [of "g_tool_filter g"]
  by (cases "parseToolFilter (g_tool_filter g)")
     (auto simp: wfGroupForm_def formFromGroup_def Let_def wfFilter_def blankFilterForm_def)

lemma wfGroupForm_edit: "wfGroupForm f \<Longrightarrow> groupEditFits e f \<Longrightarrow> wfGroupForm (groupEdit e f)"
  by (induction e f rule: groupEdit.induct)
     (auto simp: wfGroupForm_def setTools_def setPrefixes_def distinct_toggleEntry)

text \<open>Nor does a list of the key form, and its methods are in the server's order.\<close>

definition wfKeyForm :: "key_form \<Rightarrow> bool" where
  "wfKeyForm f \<longleftrightarrow> distinct (kf_tool_allowlist f) \<and> distinct (kf_tool_denylist f) \<and>
     kf_http_methods f = filter (\<lambda>m. m \<in> set (kf_http_methods f)) HTTP_METHODS"

lemma wfKeyForm_edit: "wfKeyForm f \<Longrightarrow> wfKeyForm (keyEdit e f)"
  by (induction e f rule: keyEdit.induct)
     (auto simp: wfKeyForm_def setList_def formList_def toggleMethod_def distinct_toggleEntry Let_def split: list_field.splits intro!: filter_cong)

lemma wfKeyForm_edits: "wfKeyForm f \<Longrightarrow> wfKeyForm (foldl (\<lambda>f e. keyEdit e f) f es)"
  by (induction es arbitrary: f) (simp_all add: wfKeyForm_edit)

lemma HTTP_METHODS_distinct: "distinct HTTP_METHODS"
  by code_simp

lemma wfKeyForm_parts:
  assumes "wfKeyForm f"
  shows "distinct (kf_tool_allowlist f) \<and> distinct (kf_tool_denylist f) \<and> distinct (kf_http_methods f) \<and>
     set (kf_http_methods f) \<subseteq> set HTTP_METHODS \<and> (\<exists>S. kf_http_methods f = filter (\<lambda>m. m \<in> S) HTTP_METHODS)"
proof -
  have m: "kf_http_methods f = filter (\<lambda>m. m \<in> set (kf_http_methods f)) HTTP_METHODS" using assms by (simp add: wfKeyForm_def)
  then have "distinct (kf_http_methods f)" "set (kf_http_methods f) \<subseteq> set HTTP_METHODS"
    using HTTP_METHODS_distinct by (metis distinct_filter, metis filter_is_subset)
  then show ?thesis using m assms by (auto simp: wfKeyForm_def)
qed

lemma set_toggleMethod:
  "set ms \<subseteq> set HTTP_METHODS \<Longrightarrow> m \<in> set HTTP_METHODS \<Longrightarrow>
     set (toggleMethod m on ms) = (if on then insert m (set ms) else set ms - {m})"
  by (auto simp: toggleMethod_def Let_def)

section \<open>The clamped filter\<close>

lemma codePoints_drop: "codePoints (concat (drop n (codePoints s))) = drop n (codePoints s)"
proof (induction s arbitrary: n rule: codePoints.induct)
  case (2 c)
  then show ?case by (cases n) auto
next
  case (3 c d cs)
  then show ?case by (cases n) auto
qed simp

lemma clampText_bounds: "length (codePoints (fst (clampText s n))) \<le> n"
  by (auto simp: clampText_def Let_def codePoints_take)

lemma clampText_split:
  "\<exists>rest. s = fst (clampText s n) @ rest \<and> (snd (clampText s n) \<longleftrightarrow> rest \<noteq> []) \<and>
     codePoints s = codePoints (fst (clampText s n)) @ codePoints rest"
proof (cases "n < length (codePoints s)")
  case True
  let ?rest = "concat (drop n (codePoints s))"
  have "s = concat (take n (codePoints s)) @ ?rest" by (metis append_take_drop_id concat_append concat_codePoints)
  moreover have "?rest \<noteq> []"
  proof
    assume "?rest = []"
    then have "drop n (codePoints s) = []" using codePoints_drop [of n s] by (metis codePoints.simps(1))
    with True show False by simp
  qed
  moreover have "codePoints s = codePoints (concat (take n (codePoints s))) @ codePoints ?rest"
    by (simp add: codePoints_take codePoints_drop)
  ultimately show ?thesis using True by (intro exI [of _ ?rest]) (simp add: clampText_def Let_def)
qed (simp add: clampText_def Let_def)

section \<open>Properties\<close>

text \<open>
  Claim C2: in the group dialog, a row that has a box is ticked exactly when the filter permits its
  tool under an allow filter, and exactly when it refuses it under a deny filter; a box fixed by a
  covering entry is no exception.
\<close>

theorem ticked_is_the_filter:
  assumes "validSlug slug" "namesItself slug tool" "ff_mode f \<noteq> NoMode"
    and "pr_box (pickerRow (filterRule f) w ns slug tool) = Some b"
  shows "formPermits f slug (t_name tool) \<longleftrightarrow> (b \<longleftrightarrow> ff_mode f = AllowMode)"
  unfolding pickerRow_ticked_iff [OF assms(1,2,4)] formPermits_rule [OF assms(3)] by blast

theorem ticked_is_the_filter_witness:
  "\<not> formPermits \<lparr>ff_mode = DenyMode, ff_tools = [js ''a__read''], ff_prefixes = []\<rparr> (js ''a'') (js ''read'')"
proof -
  let ?f = "\<lparr>ff_mode = DenyMode, ff_tools = [js ''a__read''], ff_prefixes = []\<rparr>"
  have e: "tickEntry (js ''a'') (oneTool (js ''read'')) = js ''a__read''" by code_simp
  have "cleanEntry (js ''a__read'')" by (simp add: clean_eval)
  then have "pr_box (pickerRow (filterRule ?f) True None (js ''a'') (oneTool (js ''read''))) = Some True"
    unfolding pickerRow_sel(4) e by (simp add: filterRule_def)
  moreover have "validSlug (js ''a'')" "namesItself (js ''a'') (oneTool (js ''read''))" by code_simp+
  ultimately show ?thesis using ticked_is_the_filter [of "js ''a''" "oneTool (js ''read'')" ?f True None True] by (simp add: oneTool_def)
qed

text \<open>
  Claim C3: ticking or clearing a box that is not fixed by a covering entry makes the filter say of
  that tool what the box says, and leaves the verdict on every other tool of every member as it
  was.
\<close>

theorem one_tick_one_tool:
  assumes "ff_mode (gf_filter form) \<noteq> NoMode" "validSlug slug" "namesItself slug tool"
    and "\<not> pr_disabled (pickerRow (filterRule (gf_filter form)) w ns slug tool)"
  shows "formPermits (gf_filter (groupEdit (GTick (tickEntry slug tool) on) form)) slug' name' \<longleftrightarrow>
     (if slug' = slug \<and> name' = t_name tool then on \<longleftrightarrow> ff_mode (gf_filter form) = AllowMode else formPermits (gf_filter form) slug' name')"
  using assms by (rule tick_moves_one_verdict)

theorem one_tick_one_tool_witness:
  "let f = groupEdit (GMode DenyMode) blankGroupForm; g = gf_filter (groupEdit (GTick (tickEntry (js ''a'') (oneTool (js ''read''))) True) f)
   in \<not> formPermits g (js ''a'') (js ''read'') \<and> formPermits g (js ''b'') (js ''read'') = formPermits (gf_filter f) (js ''b'') (js ''read'')"
proof -
  let ?f = "groupEdit (GMode DenyMode) blankGroupForm"
  have "ff_mode (gf_filter ?f) \<noteq> NoMode" "validSlug (js ''a'')" "namesItself (js ''a'') (oneTool (js ''read''))"
    "\<not> pr_disabled (pickerRow (filterRule (gf_filter ?f)) True None (js ''a'') (oneTool (js ''read'')))"
    unfolding pickerRow_sel(3) by code_simp+
  note one = one_tick_one_tool [OF this, of True]
  have "t_name (oneTool (js ''read'')) = js ''read''" "js ''b'' \<noteq> js ''a''" by code_simp+
  then show ?thesis using one [of "js ''a''" "js ''read''"] one [of "js ''b''" "js ''read''"] by (simp add: Let_def)
qed






end
