(* ===== verification/PageHook.thy ===== *)
theory PageHook
  imports UseCatalogue RuleFields
begin

text \<open>
  The catalogue hook as the Groups and Virtual keys pages own it.

  Both pages hand \<open>useCatalogue\<close> the members of the dialog's target, MCP servers only, and a count as
  its reset key. \<open>hook_ok\<close> is what each page keeps of its hook: it was driven through the hook's
  own steps, its key is the page's count, and no press was ever made for an HTTP API.
\<close>

definition memberOf :: "upstream \<Rightarrow> member" where
  "memberOf u = \<lparr>m_upstream_id = u_id u, m_slug = u_slug u, m_name = u_name u, m_enabled = u_enabled u,
     m_transport = u_transport u, m_kind = u_kind u\<rparr>"

definition groupMembers :: "upstream list \<Rightarrow> jstr list \<Rightarrow> member list" where
  "groupMembers us ids = concat (map (\<lambda>i. case findUpstream us i of
     Some u \<Rightarrow> if u_kind u \<noteq> js ''http'' then [memberOf u] else [] | None \<Rightarrow> []) ids)"

lemma groupMembers_mcp: "m \<in> set (groupMembers us ids) \<Longrightarrow> m_kind m \<noteq> js ''http''"
  by (auto simp: groupMembers_def memberOf_def split: option.splits if_splits)

definition probesMcp :: "uc_state \<Rightarrow> bool" where
  "probesMcp c \<longleftrightarrow> (\<forall>r \<in> set (uc_runs c). \<forall>m \<in> set (run_targets r). m_kind m \<noteq> js ''http'')"

definition hook_ok :: "nat \<Rightarrow> uc_state \<Rightarrow> bool" where
  "hook_ok k c \<longleftrightarrow> uc_reach c \<and> uc_current c = k \<and> probesMcp c"

lemma hook_ok_init: "hook_ok k (ucInit k)"
  by (simp add: hook_ok_def uc_reach.uc_start) (simp add: ucInit_def probesMcp_def)

lemma hook_ok_rerender:
  assumes "hook_ok k c" "k < k'"
  shows "hook_ok k' (rerender k' c)"
proof -
  have "uc_reach (rerender k' c)"
    using assms by (intro uc_reach.uc_next [OF _ uc_step.reset]) (simp_all add: hook_ok_def)
  then show ?thesis using assms by (simp add: hook_ok_def probesMcp_def rerender_sel)
qed

lemma hook_ok_load:
  assumes "hook_ok k c"
  shows "hook_ok k (loadTools k (groupMembers us ids) i c)"
proof -
  have k: "k = uc_current c" using assms by (simp add: hook_ok_def)
  have "uc_reach (loadTools k (groupMembers us ids) i c)"
    unfolding k using assms by (intro uc_reach.uc_next [OF _ uc_step.press]) (simp add: hook_ok_def)
  moreover have "probesMcp (loadTools k (groupMembers us ids) i c)"
    using assms groupMembers_mcp [of _ us ids] by (auto simp: hook_ok_def probesMcp_def loadTools_def Let_def)
  ultimately show ?thesis using k by (simp add: hook_ok_def loadTools_def Let_def)
qed

lemma hook_ok_answer:
  assumes "hook_ok k c" "r < length (uc_runs c)" "w < length (dm_workers (run_dm (uc_runs c ! r)))"
    "dm_workers (run_dm (uc_runs c ! r)) ! w = WAwait i"
  shows "hook_ok k (answerRun r w i ans c)"
proof -
  have "uc_reach (answerRun r w i ans c)"
    using assms by (intro uc_reach.uc_next [OF _ uc_step.answer]) (simp_all add: hook_ok_def)
  moreover have "\<forall>m \<in> set (run_targets (uc_runs c ! r)). m_kind m \<noteq> js ''http''"
    using assms(1) nth_mem [OF assms(2)] unfolding hook_ok_def probesMcp_def by blast
  then have "probesMcp (answerRun r w i ans c)"
    using assms(1) by (auto simp: hook_ok_def probesMcp_def answerRun_def Let_def dest!: set_update_subset_insert [THEN subsetD])
  ultimately show ?thesis using assms(1) by (simp add: hook_ok_def answerRun_sel)
qed

lemma hook_ok_finish:
  assumes "hook_ok k c" "r < length (uc_runs c)" "dmFinished (run_dm (uc_runs c ! r))"
  shows "hook_ok k (finishRun r c)"
proof -
  have "uc_reach (finishRun r c)"
    using assms by (intro uc_reach.uc_next [OF _ uc_step.finish]) (simp_all add: hook_ok_def)
  moreover have "probesMcp (finishRun r c)"
    using assms(1) by (auto simp: hook_ok_def probesMcp_def finishRun_sel dest: in_set_takeD in_set_dropD)
  ultimately show ?thesis using assms(1) by (simp add: hook_ok_def finishRun_sel)
qed

text \<open>The dialog on screen has one press in flight at most, and a press runs two discoveries at most.\<close>

lemma hook_ok_inFlight: "hook_ok k c \<Longrightarrow> length (liveRuns c) \<le> 1 \<and> inFlight c \<le> PICKER_IN_FLIGHT"
  using uc_reach_inv [of c] uc_invD(3) [of c] uc_inv_inFlight [of c] by (simp add: hook_ok_def)

end
