(* ===== verification/PageTasks.thy ===== *)
theory PageTasks
  imports Json
begin

text \<open>
  What the page machines share: requests in flight and requests sent.

  A handler runs to its first \<open>await\<close> and leaves a task, its continuation; a settled task leaves
  the list. A dialog's request carries the dialog count it started under, and the pages keep one
  request per count: \<open>busy_ok\<close> says so of the counts in flight, the current count and the saving
  flag. \<open>onlySent\<close> compares the ghost logs of requests of two states.
\<close>

section \<open>Requests sent\<close>

text \<open>Path, method and body, the body before \<open>JSON.stringify\<close> prints it.\<close>

type_synonym sent_request = "jstr \<times> jstr \<times> jobj option"

definition onlySent :: "('s \<Rightarrow> 'r list) \<Rightarrow> ('r \<Rightarrow> bool) \<Rightarrow> 's \<Rightarrow> 's \<Rightarrow> bool" where
  "onlySent sent P s t \<longleftrightarrow> (\<exists>new. sent t = sent s @ new \<and> list_all P new)"

lemma onlySent_same: "sent t = sent s \<Longrightarrow> onlySent sent P s t"
  by (auto simp: onlySent_def)

lemma onlySent_new: "sent t = sent s @ new \<Longrightarrow> list_all P new \<Longrightarrow> onlySent sent P s t"
  by (auto simp: onlySent_def)

lemma onlySent_from: "onlySent sent P s' t \<Longrightarrow> sent s' = sent s \<Longrightarrow> onlySent sent P s t"
  by (auto simp: onlySent_def)

lemma onlySent_into: "onlySent sent P s t' \<Longrightarrow> sent t = sent t' \<Longrightarrow> onlySent sent P s t"
  by (auto simp: onlySent_def)

lemma onlySent_trans:
  assumes "onlySent sent P s t" "onlySent sent P t u"
  shows "onlySent sent P s u"
proof -
  from assms obtain a b where "sent t = sent s @ a" "sent u = sent t @ b" "list_all P a" "list_all P b"
    by (auto simp: onlySent_def)
  then show ?thesis by (intro onlySent_new [of sent u s "a @ b"]) simp_all
qed

lemma onlySent_hit:
  assumes "onlySent sent P s t" "r \<in> set (drop (length (sent s)) (sent t))"
  shows "P r"
proof -
  from assms(1) obtain new where "sent t = sent s @ new" "list_all P new" by (auto simp: onlySent_def)
  with assms(2) show ?thesis by (simp add: list_all_iff)
qed

text \<open>A request that overwrites none of these members of a row.\<close>

definition overwritesNone :: "jstr list \<Rightarrow> sent_request \<Rightarrow> bool" where
  "overwritesNone ks r = (case r of (path, method, body) \<Rightarrow> method = js ''PATCH'' \<longrightarrow> list_all (\<lambda>k. \<not> objHas k (orElse body [])) ks)"

lemma overwritesNone_simp [simp]:
  "overwritesNone ks (path, method, body) \<longleftrightarrow> (method = js ''PATCH'' \<longrightarrow> (\<forall>k \<in> set ks. \<not> objHas k (orElse body [])))"
  by (simp add: overwritesNone_def list_all_iff)

lemma objHas_objGet: "objHas k b \<longleftrightarrow> objGet k b \<noteq> None"
  by (induction b) (auto simp: objHas_def split: if_splits)

section \<open>Tasks\<close>

definition withoutTask :: "nat \<Rightarrow> 't list \<Rightarrow> 't list" where
  "withoutTask i ts = take i ts @ drop (Suc i) ts"

lemma set_withoutTask: "set (withoutTask i ts) \<subseteq> set ts"
  by (auto simp: withoutTask_def dest: in_set_takeD in_set_dropD)

definition countsOf :: "('t \<Rightarrow> nat option) \<Rightarrow> 't list \<Rightarrow> nat list" where
  "countsOf f ts = concat (map (\<lambda>t. case f t of Some m \<Rightarrow> [m] | None \<Rightarrow> []) ts)"

lemma countsOf_Nil [simp]: "countsOf f [] = []"
  by (simp add: countsOf_def)

lemma countsOf_append [simp]: "countsOf f (a @ b) = countsOf f a @ countsOf f b"
  by (simp add: countsOf_def)

lemma countsOf_single [simp]: "countsOf f [t] = (case f t of Some m \<Rightarrow> [m] | None \<Rightarrow> [])"
  by (simp add: countsOf_def)

lemma countsOf_withoutTask:
  assumes "i < length ts"
  obtains a b where "countsOf f ts = a @ countsOf f [ts ! i] @ b" "countsOf f (withoutTask i ts) = a @ b"
proof
  show "countsOf f ts = countsOf f (take i ts) @ countsOf f [ts ! i] @ countsOf f (drop (Suc i) ts)"
    by (subst id_take_nth_drop [OF assms]) (simp only: countsOf_append [symmetric] append.simps append_assoc)
qed (simp add: withoutTask_def)

section \<open>One request per dialog\<close>

definition busy_ok :: "nat \<Rightarrow> bool \<Rightarrow> nat list \<Rightarrow> bool" where
  "busy_ok seq saving ms \<longleftrightarrow> distinct ms \<and> (\<forall>m \<in> set ms. m \<le> seq \<and> (m = seq \<longrightarrow> saving))"

lemma busy_start: "busy_ok seq False ms \<Longrightarrow> busy_ok seq True (ms @ [seq])"
  by (auto simp: busy_ok_def)

lemma busy_reopen: "busy_ok seq saving ms \<Longrightarrow> busy_ok (Suc seq) False ms"
  by (auto simp: busy_ok_def)

lemma busy_done: "busy_ok seq saving (a @ [m] @ b) \<Longrightarrow> busy_ok seq (if seq = m then False else saving) (a @ b)"
  by (auto simp: busy_ok_def)

lemma busy_again: "busy_ok seq saving (a @ [m] @ b) \<Longrightarrow> busy_ok seq saving (a @ b @ [m])"
  by (auto simp: busy_ok_def)

lemma count_countsOf: "length (filter (\<lambda>t. f t = Some m) ts) = count_list (countsOf f ts) m"
proof (induction ts)
  case (Cons t ts)
  have "countsOf f (t # ts) = countsOf f [t] @ countsOf f ts" by (simp only: countsOf_append [symmetric] append.simps)
  with Cons show ?case by (cases "f t") (auto simp: count_list_append)
qed simp

lemma count_distinct: "distinct xs \<Longrightarrow> count_list xs m \<le> 1"
  by (induction xs) (auto simp: count_list_0_iff)

lemma busy_one: "busy_ok seq saving (countsOf f ts) \<Longrightarrow> length (filter (\<lambda>t. f t = Some m) ts) \<le> 1"
  unfolding count_countsOf busy_ok_def by (intro count_distinct) simp

end
