(* ===== verification/DialogPage.thy ===== *)
theory DialogPage
  imports UpstreamsPage PageTasks
begin

text \<open>
  The contract the three pages with an editing dialog share: \<open>upstreams\<close>, \<open>groups\<close> and
  \<open>virtual-keys\<close> under \<open>web/src/app/(app)\<close>.

  One dialog serves every row and a request outlives it, so every open counts
  (\<open>dialogSeq\<close>), a request remembers the count it started under, and \<open>failed\<close> writes the sentence
  into the dialog only while that very dialog is open, else on the page. The locale states what
  \<open>opened\<close>, \<open>close\<close> and \<open>failed\<close> promise; its lemmas are what the operator sees.
\<close>

locale dialog_page =
  fixes isOpen :: "'s \<Rightarrow> bool"
    and seqOf :: "'s \<Rightarrow> nat"
    and formErr :: "'s \<Rightarrow> jstr"
    and pageErr :: "'s \<Rightarrow> jstr"
    and opened :: "'s \<Rightarrow> 's"
    and shut :: "'s \<Rightarrow> 's"
    and report :: "failure \<Rightarrow> nat \<Rightarrow> 's \<Rightarrow> 's"
    and sentence :: "failure \<Rightarrow> jstr"
  assumes opened_open: "isOpen (opened s)"
    and opened_counts: "seqOf (opened s) = Suc (seqOf s)"
    and shut_closed: "\<not> isOpen (shut s)"
    and shut_seq: "seqOf (shut s) = seqOf s"
    and report_here: "isOpen s \<Longrightarrow> seqOf s = mine \<Longrightarrow> formErr (report err mine s) = sentence err \<and> pageErr (report err mine s) = pageErr s"
    and report_away: "\<not> (isOpen s \<and> seqOf s = mine) \<Longrightarrow> formErr (report err mine s) = formErr s \<and> pageErr (report err mine s) = sentence err"
begin

text \<open>A failure is told once, in one of the two places.\<close>

lemma told_in_one_place:
  "formErr (report err mine s) = (if isOpen s \<and> seqOf s = mine then sentence err else formErr s)"
  "pageErr (report err mine s) = (if isOpen s \<and> seqOf s = mine then pageErr s else sentence err)"
  using report_here [of s mine err] report_away [of s mine err] by auto

text \<open>A dialog closed or reopened since the request started is left alone.\<close>

lemma told_on_the_page_after_close:
  "formErr (report err mine (shut s)) = formErr (shut s)" "pageErr (report err mine (shut s)) = sentence err"
  using report_away [of "shut s" mine err] shut_closed by auto

lemma told_on_the_page_after_reopen:
  "mine \<le> seqOf s \<Longrightarrow> formErr (report err mine (opened s)) = formErr (opened s)"
  "mine \<le> seqOf s \<Longrightarrow> pageErr (report err mine (opened s)) = sentence err"
  using report_away [of "opened s" mine err] opened_counts [of s] by auto

lemma reopened_is_another: "mine \<le> seqOf s \<Longrightarrow> seqOf (opened (shut s)) \<noteq> mine"
  using opened_counts [of "shut s"] shut_seq [of s] by simp

end

interpretation upstreams_dialog: dialog_page up_openRef up_dialogSeq up_formError up_error openedUp closeUp failedUp
  "\<lambda>err. editErrorMessage err UpstreamRes SaveAct"
  by unfold_locales (auto simp: openedUp_def closeUp_def resetFormDiscovery_def failedUp_def Let_def up_light)

end
