(* ===== verification/GroupsPage.thy ===== *)
theory GroupsPage
  imports PageHook DialogPage
begin

text \<open>
  The Groups page's state and handlers: \<open>web/src/app/(app)/groups/page.tsx\<close>.

  The page is a state machine over its \<open>useState\<close> values, its refs and the catalogue hook it owns
  (\<open>useCatalogue\<close>, keyed by the open count). A handler runs to its first \<open>await\<close> and leaves a task
  with what its closure captured; \<open>save\<close> with a filter awaits twice, first a fresh read of the row.

  Two ghost fields are read by no handler: \<open>gp_sent\<close>, the requests sent, with the body before it
  is printed, and \<open>gp_log\<close>, the operator's presses and the bodies the page decided to send.

  The lemmas show: a filter is overwritten only as the last act after a fresh read that means
  what the dialog showed; a group is emptied, and a filter that blocks everything saved, only on
  the answer to that question since the last submit; what is decided passes the write rules; the
  hook is driven through its own steps and never probes an HTTP API.
\<close>

section \<open>State\<close>

datatype gp_task =
    GLoad
  | GCreate nat
  | GFresh nat group jobj
  | GSave nat
  | GDelete jstr

datatype gp_event =
    LSubmit
  | LRemoveAll
  | LSaveAnyway
  | LDecided jstr jobj filter_form catalogue

record gp_state =
  gp_groups :: "group list"
  gp_upstreams :: "upstream list"
  gp_open :: bool
  gp_editing :: "group option"
  gp_saving :: bool
  gp_error :: jstr
  gp_formError :: jstr
  gp_formErrorSeq :: nat
  gp_form :: group_form
  gp_confirmEmpty :: bool
  gp_confirmBlocks :: bool
  gp_answeredEmpty :: bool
  gp_answeredBlocks :: bool
  gp_openCount :: nat
  gp_pendingDelete :: "group option"
  gp_deleting :: bool
  gp_deleteError :: jstr
  gp_openRef :: bool
  gp_dialogSeq :: nat
  gp_hook :: uc_state
  gp_tasks :: "gp_task list"
  gp_sent :: "sent_request list"
  gp_log :: "gp_event list"

section \<open>Derived values\<close>

definition membersG :: "gp_state \<Rightarrow> member list" where
  "membersG s = groupMembers (gp_upstreams s) (gf_upstream_ids (gp_form s))"

definition catalogueG :: "gp_state \<Rightarrow> catalogue" where
  "catalogueG s = shownCatalogue (membersG s) (gp_hook s)"

definition blockedG :: "gp_state \<Rightarrow> jstr" where
  "blockedG s = groupSaveBlocked (gp_editing s) (gp_form s)"

definition nameFor :: "upstream list \<Rightarrow> jstr \<Rightarrow> jstr" where
  "nameFor us i = orStr (case findUpstream us i of Some u \<Rightarrow> u_name u | None \<Rightarrow> []) (take 8 i)"

definition membersCell :: "upstream list \<Rightarrow> group \<Rightarrow> jstr" where
  "membersCell us g = (if length (g_upstream_ids g) = 0 then ABSENT else joinWith (js '', '') (map (nameFor us) (g_upstream_ids g)))"

definition blocksQuestion :: "upstream list \<Rightarrow> group_form \<Rightarrow> jstr" where
  "blocksQuestion us f =
     orStr (trim (gf_name f)) (js ''This group'') @ js '' would advertise no tools, and every call through a key on it is refused.'' @
     (if list_ex (isHttp us) (gf_upstream_ids f) then js '' Its HTTP API members are not affected.'' else [])"

section \<open>Handlers\<close>

definition sendG :: "jstr \<Rightarrow> jstr \<Rightarrow> jobj option \<Rightarrow> gp_task \<Rightarrow> gp_state \<Rightarrow> gp_state" where
  "sendG path method body t s = s\<lparr>gp_sent := gp_sent s @ [(path, method, body)], gp_tasks := gp_tasks s @ [t]\<rparr>"

text \<open>\<open>Promise.all\<close> of two reads: one task, settled with both lists or with the first failure.\<close>

definition loadG :: "gp_state \<Rightarrow> gp_state" where
  "loadG s = sendG (js ''/upstreams'') (js ''GET'') None GLoad
     (s\<lparr>gp_sent := gp_sent s @ [(js ''/groups'', js ''GET'', None)]\<rparr>)"

definition fieldG :: "group_edit \<Rightarrow> gp_state \<Rightarrow> gp_state" where
  "fieldG e s = s\<lparr>gp_form := groupEdit e (gp_form s)\<rparr>"

definition openedG :: "gp_state \<Rightarrow> gp_state" where
  "openedG s = s\<lparr>gp_dialogSeq := Suc (gp_dialogSeq s), gp_openCount := Suc (gp_openCount s), gp_openRef := True,
     gp_saving := False, gp_open := True, gp_hook := rerender (Suc (gp_openCount s)) (gp_hook s)\<rparr>"

definition openCreateG :: "gp_state \<Rightarrow> gp_state" where
  "openCreateG s = openedG (s\<lparr>gp_editing := None, gp_formError := [], gp_form := blankGroupForm\<rparr>)"

definition openEditG :: "group \<Rightarrow> gp_state \<Rightarrow> gp_state" where
  "openEditG g s = openedG (s\<lparr>gp_editing := Some g, gp_formError := [], gp_form := formFromGroup g\<rparr>)"

definition closeG :: "gp_state \<Rightarrow> gp_state" where
  "closeG s = s\<lparr>gp_openRef := False, gp_open := False, gp_confirmEmpty := False, gp_confirmBlocks := False\<rparr>"

definition asksAboutBlocking :: "jobj \<Rightarrow> gp_state \<Rightarrow> bool" where
  "asksAboutBlocking body s =
     (if \<not> objHas (js ''tool_filter'') body \<or> objGet (js ''tool_filter'') body = Some JNull \<or> gp_answeredBlocks s then False
      else blocksEverything (formPermits (gf_filter (gp_form s))) (catalogueG s))"

text \<open>The line every failure and every refusal ends on.\<close>

definition tellG :: "jstr \<Rightarrow> nat \<Rightarrow> gp_state \<Rightarrow> gp_state" where
  "tellG message mine s =
     (if gp_openRef s \<and> gp_dialogSeq s = mine then s\<lparr>gp_formError := message, gp_formErrorSeq := Suc (gp_formErrorSeq s)\<rparr>
      else s\<lparr>gp_error := message\<rparr>)"

definition failedG :: "failure \<Rightarrow> nat \<Rightarrow> gp_state \<Rightarrow> gp_state" where
  "failedG err mine s = tellG (editErrorMessage err GroupRes SaveAct) mine (if isGone err then loadG s else s)"

text \<open>The ghost step where every question is behind: the body is about to leave, at once or after the re-read.\<close>

definition decideG :: "jstr \<Rightarrow> jobj \<Rightarrow> gp_state \<Rightarrow> gp_state" where
  "decideG method body s = s\<lparr>gp_saving := True, gp_log := gp_log s @ [LDecided method body (gf_filter (gp_form s)) (catalogueG s)]\<rparr>"

definition createG :: "gp_state \<Rightarrow> gp_state" where
  "createG s =
     (let body = groupCreateBody (gp_form s) in
      if asksAboutBlocking body s then s\<lparr>gp_confirmBlocks := True\<rparr>
      else sendG (js ''/groups'') (js ''POST'') (Some body) (GCreate (gp_dialogSeq s)) (decideG (js ''POST'') body s))"

definition emptiesGroup :: "jobj \<Rightarrow> bool" where
  "emptiesGroup body \<longleftrightarrow> objGet (js ''upstream_ids'') body = Some (JArr [])"

definition patchG :: "group \<Rightarrow> jobj \<Rightarrow> nat \<Rightarrow> gp_state \<Rightarrow> gp_state" where
  "patchG row body mine s = sendG (js ''/groups/'' @ g_id row) (js ''PATCH'') (Some body) (GSave mine) s"

definition saveG :: "gp_state \<Rightarrow> gp_state" where
  "saveG s =
     (case gp_editing s of
        None \<Rightarrow> s
      | Some row \<Rightarrow>
          (let body = groupPatchBody row (gp_form s) in
           if body = [] then closeG s
           else if emptiesGroup body \<and> \<not> gp_answeredEmpty s then s\<lparr>gp_confirmEmpty := True\<rparr>
           else if asksAboutBlocking body s then s\<lparr>gp_confirmBlocks := True\<rparr>
           else if objHas (js ''tool_filter'') body
           then sendG (js ''/groups/'' @ g_id row) (js ''GET'') None (GFresh (gp_dialogSeq s) row body) (decideG (js ''PATCH'') body s)
           else patchG row body (gp_dialogSeq s) (decideG (js ''PATCH'') body s)))"

definition goG :: "gp_state \<Rightarrow> gp_state" where
  "goG s = (if gp_editing s \<noteq> None then saveG s else createG s)"

definition submitG :: "gp_state \<Rightarrow> gp_state" where
  "submitG s =
     (let s1 = s\<lparr>gp_formError := []\<rparr> in
      if blockedG s \<noteq> [] then s1
      else goG (s1\<lparr>gp_answeredEmpty := False, gp_answeredBlocks := False, gp_log := gp_log s @ [LSubmit]\<rparr>))"

definition confirmRemoveAll :: "gp_state \<Rightarrow> gp_state" where
  "confirmRemoveAll s = saveG (s\<lparr>gp_confirmEmpty := False, gp_answeredEmpty := True, gp_log := gp_log s @ [LRemoveAll]\<rparr>)"

definition confirmBlocksAll :: "gp_state \<Rightarrow> gp_state" where
  "confirmBlocksAll s = goG (s\<lparr>gp_confirmBlocks := False, gp_answeredBlocks := True, gp_log := gp_log s @ [LSaveAnyway]\<rparr>)"

definition closeDeleteG :: "gp_state \<Rightarrow> gp_state" where
  "closeDeleteG s = s\<lparr>gp_pendingDelete := None, gp_deleteError := []\<rparr>"

definition removeG :: "gp_state \<Rightarrow> gp_state" where
  "removeG s = (case gp_pendingDelete s of
     None \<Rightarrow> s
   | Some row \<Rightarrow> sendG (js ''/groups/'' @ g_id row) (js ''DELETE'') None (GDelete (g_id row)) (s\<lparr>gp_deleting := True, gp_deleteError := []\<rparr>))"

definition loadToolsG :: "jstr option \<Rightarrow> gp_state \<Rightarrow> gp_state" where
  "loadToolsG i s = s\<lparr>gp_hook := loadTools (gp_openCount s) (membersG s) i (gp_hook s)\<rparr>"

section \<open>Answers\<close>

datatype gp_answer =
    GFailed failure
  | GLists "group list" "upstream list"
  | GMaybe "group option"
  | GSaved group
  | GDone

definition unsaveG :: "nat \<Rightarrow> gp_state \<Rightarrow> gp_state" where
  "unsaveG mine s = (if gp_dialogSeq s = mine then s\<lparr>gp_saving := False\<rparr> else s)"

definition failureText :: "failure \<Rightarrow> jstr" where
  "failureText err = (case err of ApiErr e \<Rightarrow> err_message e | OtherErr m \<Rightarrow> m)"

definition replaceGroup :: "group \<Rightarrow> group list \<Rightarrow> group list" where
  "replaceGroup saved gs = map (\<lambda>x. if g_id x = g_id saved then saved else x) gs"

fun settleG :: "gp_task \<Rightarrow> gp_answer \<Rightarrow> gp_state \<Rightarrow> gp_state" where
  "settleG GLoad ans s =
     (case ans of GLists gs us \<Rightarrow> s\<lparr>gp_groups := gs, gp_upstreams := us\<rparr> | GFailed err \<Rightarrow> s\<lparr>gp_error := failureText err\<rparr> | _ \<Rightarrow> s)"
| "settleG (GCreate mine) ans s =
     (case ans of
        GFailed err \<Rightarrow> unsaveG mine (failedG err mine s)
      | _ \<Rightarrow> unsaveG mine (loadG (if gp_dialogSeq s = mine then (closeG s)\<lparr>gp_form := blankGroupForm\<rparr> else s)))"
| "settleG (GFresh mine row body) ans s =
     (case ans of
        GFailed err \<Rightarrow> unsaveG mine (failedG err mine s)
      | GMaybe None \<Rightarrow> unsaveG mine (tellG GROUP_FILTER_STALE mine s)
      | GMaybe (Some fresh) \<Rightarrow>
          (if groupPolicyStale row fresh then unsaveG mine (tellG GROUP_FILTER_STALE mine s) else patchG row body mine s)
      | _ \<Rightarrow> s)"
| "settleG (GSave mine) ans s =
     (case ans of
        GFailed err \<Rightarrow> unsaveG mine (failedG err mine s)
      | GSaved saved \<Rightarrow>
          (let s1 = s\<lparr>gp_groups := replaceGroup saved (gp_groups s)\<rparr>
           in unsaveG mine (if gp_dialogSeq s = mine then closeG s1 else s1))
      | _ \<Rightarrow> s)"
| "settleG (GDelete i) ans s =
     (case ans of
        GFailed err \<Rightarrow> ((if isGone err then loadG s else s)\<lparr>gp_deleteError := editErrorMessage err GroupRes DeleteAct\<rparr>)\<lparr>gp_deleting := False\<rparr>
      | _ \<Rightarrow> (closeDeleteG (s\<lparr>gp_groups := filter (\<lambda>x. g_id x \<noteq> i) (gp_groups s)\<rparr>))\<lparr>gp_deleting := False\<rparr>)"

fun answerFitsG :: "gp_task \<Rightarrow> gp_answer \<Rightarrow> bool" where
  "answerFitsG t (GFailed _) = True"
| "answerFitsG GLoad (GLists _ _) = True"
| "answerFitsG (GCreate _) GDone = True"
| "answerFitsG (GFresh _ _ _) (GMaybe _) = True"
| "answerFitsG (GSave _) (GSaved _) = True"
| "answerFitsG (GDelete _) GDone = True"
| "answerFitsG _ _ = False"

definition dropTaskG :: "nat \<Rightarrow> gp_state \<Rightarrow> gp_state" where
  "dropTaskG i s = s\<lparr>gp_tasks := withoutTask i (gp_tasks s)\<rparr>"

section \<open>The page as a machine\<close>

definition gpBlank :: gp_state where
  "gpBlank = \<lparr>gp_groups = [], gp_upstreams = [], gp_open = False, gp_editing = None, gp_saving = False, gp_error = [],
     gp_formError = [], gp_formErrorSeq = 0, gp_form = blankGroupForm, gp_confirmEmpty = False, gp_confirmBlocks = False,
     gp_answeredEmpty = False, gp_answeredBlocks = False, gp_openCount = 0, gp_pendingDelete = None, gp_deleting = False,
     gp_deleteError = [], gp_openRef = False, gp_dialogSeq = 0, gp_hook = ucInit 0, gp_tasks = [], gp_sent = [], gp_log = []\<rparr>"

definition asking :: "gp_state \<Rightarrow> bool" where
  "asking s \<longleftrightarrow> gp_confirmEmpty s \<or> gp_confirmBlocks s"

text \<open>The guards are the controls' own: the row menu and Create are behind the modal dialog, the fields
  and Save behind the nested question while it is asked, and Save is disabled while a request runs.\<close>

inductive gp_step :: "gp_state \<Rightarrow> gp_state \<Rightarrow> bool" where
  g_open_create: "\<not> gp_open s \<Longrightarrow> gp_step s (openCreateG s)"
| g_open_edit: "\<not> gp_open s \<Longrightarrow> g \<in> set (gp_groups s) \<Longrightarrow> gp_step s (openEditG g s)"
| g_close: "gp_step s (closeG s)"
| g_field: "gp_open s \<Longrightarrow> \<not> asking s \<Longrightarrow> groupEditFits e (gp_form s) \<Longrightarrow> gp_step s (fieldG e s)"
| g_submit: "gp_open s \<Longrightarrow> \<not> asking s \<Longrightarrow> \<not> gp_saving s \<Longrightarrow> gp_step s (submitG s)"
| g_remove_all: "gp_confirmEmpty s \<Longrightarrow> gp_step s (confirmRemoveAll s)"
| g_save_anyway: "gp_confirmBlocks s \<Longrightarrow> gp_step s (confirmBlocksAll s)"
| g_not_empty: "gp_step s (s\<lparr>gp_confirmEmpty := False\<rparr>)"
| g_not_blocks: "gp_step s (s\<lparr>gp_confirmBlocks := False\<rparr>)"
| g_ask_delete: "g \<in> set (gp_groups s) \<Longrightarrow> gp_step s (s\<lparr>gp_pendingDelete := Some g\<rparr>)"
| g_remove: "gp_step s (removeG s)"
| g_close_delete: "gp_step s (closeDeleteG s)"
| g_load_tools: "gp_step s (loadToolsG i s)"
| g_tool_answer: "r < length (uc_runs (gp_hook s)) \<Longrightarrow> w < length (dm_workers (run_dm (uc_runs (gp_hook s) ! r))) \<Longrightarrow>
     dm_workers (run_dm (uc_runs (gp_hook s) ! r)) ! w = WAwait i \<Longrightarrow> gp_step s (s\<lparr>gp_hook := answerRun r w i ans (gp_hook s)\<rparr>)"
| g_tool_finish: "r < length (uc_runs (gp_hook s)) \<Longrightarrow> dmFinished (run_dm (uc_runs (gp_hook s) ! r)) \<Longrightarrow>
     gp_step s (s\<lparr>gp_hook := finishRun r (gp_hook s)\<rparr>)"
| g_settled: "i < length (gp_tasks s) \<Longrightarrow> answerFitsG (gp_tasks s ! i) ans \<Longrightarrow>
     gp_step s (settleG (gp_tasks s ! i) ans (dropTaskG i s))"

inductive_cases gp_stepE: "gp_step s t"

inductive gp_reach :: "gp_state \<Rightarrow> bool" where
  gp_mounted: "gp_reach (loadG gpBlank)"
| gp_moved: "gp_reach s \<Longrightarrow> gp_step s t \<Longrightarrow> gp_reach t"

interpretation groups_dialog: dialog_page gp_openRef gp_dialogSeq gp_formError gp_error openedG closeG failedG
  "\<lambda>err. editErrorMessage err GroupRes SaveAct"
  by unfold_locales (auto simp: openedG_def closeG_def failedG_def tellG_def loadG_def sendG_def)

section \<open>The hook under the page\<close>

text \<open>The handlers that are not an open leave the hook and its key alone.\<close>

lemmas g_handlers = sendG_def loadG_def fieldG_def closeG_def tellG_def failedG_def decideG_def createG_def patchG_def saveG_def goG_def
  submitG_def confirmRemoveAll_def confirmBlocksAll_def closeDeleteG_def removeG_def unsaveG_def dropTaskG_def Let_def

lemma hook_settle [simp]:
  "gp_hook (settleG t ans s) = gp_hook s" "gp_openCount (settleG t ans s) = gp_openCount s"
  by (cases t; cases ans; auto simp: g_handlers split: option.splits)+

lemma hook_handlers [simp]:
  "gp_hook (sendG p m b t s) = gp_hook s" "gp_openCount (sendG p m b t s) = gp_openCount s"
  "gp_hook (loadG s) = gp_hook s" "gp_openCount (loadG s) = gp_openCount s"
  "gp_hook (fieldG e s) = gp_hook s" "gp_openCount (fieldG e s) = gp_openCount s"
  "gp_hook (closeG s) = gp_hook s" "gp_openCount (closeG s) = gp_openCount s"
  "gp_hook (closeDeleteG s) = gp_hook s" "gp_openCount (closeDeleteG s) = gp_openCount s"
  "gp_hook (removeG s) = gp_hook s" "gp_openCount (removeG s) = gp_openCount s"
  "gp_hook (dropTaskG i s) = gp_hook s" "gp_openCount (dropTaskG i s) = gp_openCount s"
  by (auto simp: g_handlers split: option.splits)

lemma hook_saves [simp]:
  "gp_hook (saveG s) = gp_hook s" "gp_openCount (saveG s) = gp_openCount s"
  "gp_hook (goG s) = gp_hook s" "gp_openCount (goG s) = gp_openCount s"
  "gp_hook (submitG s) = gp_hook s" "gp_openCount (submitG s) = gp_openCount s"
  "gp_hook (confirmRemoveAll s) = gp_hook s" "gp_openCount (confirmRemoveAll s) = gp_openCount s"
  "gp_hook (confirmBlocksAll s) = gp_hook s" "gp_openCount (confirmBlocksAll s) = gp_openCount s"
  by (auto simp: g_handlers split: option.splits)

definition hook_inv :: "gp_state \<Rightarrow> bool" where
  "hook_inv s \<longleftrightarrow> hook_ok (gp_openCount s) (gp_hook s)"

lemma hook_inv_open: "hook_inv s \<Longrightarrow> hook_inv (openCreateG s)" "hook_inv s \<Longrightarrow> hook_inv (openEditG g s)"
  by (simp_all add: hook_inv_def openCreateG_def openEditG_def openedG_def hook_ok_rerender)

lemma hook_inv_load: "hook_inv s \<Longrightarrow> hook_inv (loadToolsG i s)"
  by (simp add: hook_inv_def loadToolsG_def membersG_def hook_ok_load)

lemma hook_step: "gp_step s t \<Longrightarrow> hook_inv s \<Longrightarrow> hook_inv t"
  by (erule gp_stepE)
     (auto simp: hook_inv_def hook_ok_answer hook_ok_finish hook_inv_open [unfolded hook_inv_def] hook_inv_load [unfolded hook_inv_def])

lemma hook_reach: "gp_reach s \<Longrightarrow> hook_inv s"
proof (induction rule: gp_reach.induct)
  case gp_mounted
  show ?case by (simp add: hook_inv_def gpBlank_def hook_ok_init)
qed (blast intro: hook_step)

section \<open>A filter is overwritten only after a fresh read\<close>

text \<open>A step that sends no PATCH with a filter.\<close>

definition plainSent :: "gp_state \<Rightarrow> gp_state \<Rightarrow> bool" where
  "plainSent = onlySent gp_sent (overwritesNone [js ''tool_filter''])"

lemmas plain_defs = plainSent_def onlySent_def

lemma plainSent_same: "gp_sent t = gp_sent s \<Longrightarrow> plainSent s t"
  by (simp add: plainSent_def onlySent_same)

lemma sent_handlers:
  "plainSent s (openCreateG s)" "plainSent s (openEditG g s)" "plainSent s (closeG s)" "plainSent s (fieldG e s)" "plainSent s (closeDeleteG s)"
  "plainSent s (loadToolsG u s)" "plainSent s (dropTaskG i s)" "plainSent s (loadG s)"
  by (auto simp: plain_defs openCreateG_def openEditG_def openedG_def loadToolsG_def g_handlers)

lemma sent_remove: "plainSent s (removeG s)"
  by (auto simp: plain_defs g_handlers split: option.splits)

lemma sent_save: "plainSent s (saveG s)"
proof (cases "gp_editing s")
  case (Some row)
  show ?thesis
  proof (cases "objHas (js ''tool_filter'') (groupPatchBody row (gp_form s))")
    case True
    with Some show ?thesis by (simp add: plain_defs g_handlers)
  next
    case False
    with Some show ?thesis by (simp add: plain_defs g_handlers)
  qed
qed (simp add: saveG_def plainSent_same)

lemma sent_create: "plainSent s (createG s)"
  by (auto simp: plain_defs g_handlers)

lemma sent_go: "plainSent s (goG s)"
  by (simp add: goG_def sent_save sent_create)

lemma plainSent_from: "plainSent (s\<lparr>gp_confirmEmpty := a, gp_answeredEmpty := b, gp_log := l\<rparr>) t \<Longrightarrow> plainSent s t"
  "plainSent (s\<lparr>gp_confirmBlocks := a, gp_answeredBlocks := b, gp_log := l\<rparr>) t \<Longrightarrow> plainSent s t"
  "plainSent (s\<lparr>gp_formError := e, gp_answeredEmpty := a, gp_answeredBlocks := b, gp_log := l\<rparr>) t \<Longrightarrow> plainSent s t"
  by (simp_all add: plain_defs)

lemma sent_presses: "plainSent s (submitG s)" "plainSent s (confirmRemoveAll s)" "plainSent s (confirmBlocksAll s)"
  unfolding submitG_def confirmRemoveAll_def confirmBlocksAll_def Let_def
  by (auto intro: plainSent_from [OF sent_go] plainSent_from [OF sent_save] plainSent_same)

text \<open>What a fresh read is settled with when the page goes on to write.\<close>

definition goesOn :: "gp_task \<Rightarrow> gp_answer \<Rightarrow> bool" where
  "goesOn t ans = (case (t, ans) of (GFresh mine row body, GMaybe (Some fresh)) \<Rightarrow> \<not> groupPolicyStale row fresh | _ \<Rightarrow> False)"

lemma sent_settle: "\<not> goesOn t ans \<Longrightarrow> plainSent s (settleG t ans (dropTaskG i s))"
  by (cases t; cases ans) (auto simp: plain_defs goesOn_def g_handlers split: option.splits)

lemma step_sent:
  assumes "gp_step s t"
  shows "plainSent s t \<or> (\<exists>i ans. i < length (gp_tasks s) \<and> goesOn (gp_tasks s ! i) ans \<and> t = settleG (gp_tasks s ! i) ans (dropTaskG i s))"
  using assms
proof (cases rule: gp_step.cases)
  case (g_settled i ans)
  then show ?thesis using sent_settle by blast
qed (auto intro: sent_handlers sent_remove sent_presses plainSent_same)

lemma filter_patch_step:
  assumes "gp_step s t" and p: "(path, js ''PATCH'', Some body) \<in> set (drop (length (gp_sent s)) (gp_sent t))"
    and f: "objHas (js ''tool_filter'') body"
  obtains i mine row fresh where "i < length (gp_tasks s)" "gp_tasks s ! i = GFresh mine row body" "path = js ''/groups/'' @ g_id row"
    "\<not> groupPolicyStale row fresh" "t = settleG (GFresh mine row body) (GMaybe (Some fresh)) (dropTaskG i s)"
proof -
  have "\<not> plainSent s t"
    using onlySent_hit [where sent = gp_sent and s = s and t = t, OF _ p] f unfolding plainSent_def by fastforce
  then obtain i ans where i: "i < length (gp_tasks s)" "goesOn (gp_tasks s ! i) ans" "t = settleG (gp_tasks s ! i) ans (dropTaskG i s)"
    using step_sent [OF assms(1)] by blast
  then obtain mine row b fresh where t: "gp_tasks s ! i = GFresh mine row b" "ans = GMaybe (Some fresh)" "\<not> groupPolicyStale row fresh"
    by (auto simp: goesOn_def split: gp_task.splits gp_answer.splits option.splits)
  with i p have "path = js ''/groups/'' @ g_id row" "b = body" by (auto simp: patchG_def sendG_def dropTaskG_def)
  with that [of i mine row fresh] i t show thesis by simp
qed

text \<open>The body held by a re-read is the one the form made of the row that is re-read.\<close>

definition fresh_ok :: "gp_task \<Rightarrow> bool" where
  "fresh_ok t = (case t of GFresh mine row body \<Rightarrow> \<exists>f. body = groupPatchBody row f | _ \<Rightarrow> True)"

definition tasks_ok :: "gp_state \<Rightarrow> bool" where
  "tasks_ok s \<longleftrightarrow> list_all fresh_ok (gp_tasks s)"

lemma tasks_same: "tasks_ok s \<Longrightarrow> gp_tasks t = gp_tasks s \<Longrightarrow> tasks_ok t"
  by (simp add: tasks_ok_def)

lemma tasks_handlers: "tasks_ok s \<Longrightarrow> tasks_ok (saveG s)" "tasks_ok s \<Longrightarrow> tasks_ok (createG s)" "tasks_ok s \<Longrightarrow> tasks_ok (loadG s)"
  "tasks_ok s \<Longrightarrow> tasks_ok (removeG s)"
  by (auto simp: tasks_ok_def g_handlers fresh_ok_def split: option.splits)

lemma tasks_presses: "tasks_ok s \<Longrightarrow> tasks_ok (goG s)" "tasks_ok s \<Longrightarrow> tasks_ok (submitG s)" "tasks_ok s \<Longrightarrow> tasks_ok (confirmRemoveAll s)"
  "tasks_ok s \<Longrightarrow> tasks_ok (confirmBlocksAll s)"
proof -
  show go: "tasks_ok s \<Longrightarrow> tasks_ok (goG s)" for s by (simp add: goG_def tasks_handlers)
  show "tasks_ok s \<Longrightarrow> tasks_ok (submitG s)" "tasks_ok s \<Longrightarrow> tasks_ok (confirmBlocksAll s)"
    by (auto simp: submitG_def confirmBlocksAll_def Let_def intro!: go elim: tasks_same)
  show "tasks_ok s \<Longrightarrow> tasks_ok (confirmRemoveAll s)"
    by (auto simp: confirmRemoveAll_def intro!: tasks_handlers elim: tasks_same)
qed

lemma tasks_drop: "tasks_ok s \<Longrightarrow> tasks_ok (dropTaskG i s)"
  using set_withoutTask [of i "gp_tasks s"] by (auto simp: tasks_ok_def dropTaskG_def list_all_iff)

lemma tasks_settle: "tasks_ok s \<Longrightarrow> tasks_ok (settleG t ans s)"
  by (cases t; cases ans) (auto simp: tasks_ok_def g_handlers fresh_ok_def split: option.splits)

lemma tasks_step: "gp_step s t \<Longrightarrow> tasks_ok s \<Longrightarrow> tasks_ok t"
  by (erule gp_stepE)
     (auto intro: tasks_presses tasks_handlers tasks_settle tasks_drop elim: tasks_same
       simp: openCreateG_def openEditG_def openedG_def closeG_def fieldG_def closeDeleteG_def loadToolsG_def)

lemma tasks_reach: "gp_reach s \<Longrightarrow> tasks_ok s"
proof (induction rule: gp_reach.induct)
  case gp_mounted
  show ?case by (rule tasks_handlers) (simp add: tasks_ok_def gpBlank_def)
qed (blast intro: tasks_step)

section \<open>Questions answered\<close>

text \<open>What the operator has answered since the last submit, read off the log.\<close>

fun answerStep :: "bool \<times> bool \<Rightarrow> gp_event \<Rightarrow> bool \<times> bool" where
  "answerStep a LSubmit = (False, False)"
| "answerStep a LRemoveAll = (True, snd a)"
| "answerStep a LSaveAnyway = (fst a, True)"
| "answerStep a (LDecided method body f c) = a"

definition answersAfter :: "gp_event list \<Rightarrow> bool \<times> bool" where
  "answersAfter log = foldl answerStep (False, False) log"

text \<open>The last event of that kind is later than the last submit.\<close>

definition sinceSubmit :: "gp_event \<Rightarrow> gp_event list \<Rightarrow> bool" where
  "sinceSubmit e log \<longleftrightarrow> (\<exists>j < length log. log ! j = e \<and> (\<forall>k. j < k \<and> k < length log \<longrightarrow> log ! k \<noteq> LSubmit))"

lemma answersAfter_snoc [simp]: "answersAfter (log @ [e]) = answerStep (answersAfter log) e"
  by (simp add: answersAfter_def)

lemma sinceSubmit_snoc:
  "sinceSubmit e (log @ [x]) \<longleftrightarrow> x = e \<or> (x \<noteq> LSubmit \<and> sinceSubmit e log)"
proof
  assume "sinceSubmit e (log @ [x])"
  then obtain j where j: "j < Suc (length log)" "(log @ [x]) ! j = e" "\<forall>k. j < k \<and> k < Suc (length log) \<longrightarrow> (log @ [x]) ! k \<noteq> LSubmit"
    by (auto simp: sinceSubmit_def)
  show "x = e \<or> (x \<noteq> LSubmit \<and> sinceSubmit e log)"
  proof (cases "j < length log")
    case True
    with j(3) have "x \<noteq> LSubmit" by (metis lessI nth_append_length)
    moreover have "sinceSubmit e log"
      unfolding sinceSubmit_def using True j(2,3) by (intro exI [of _ j]) (auto simp: nth_append)
    ultimately show ?thesis by blast
  next
    case False
    with j(1,2) show ?thesis by (auto simp: nth_append)
  qed
next
  assume "x = e \<or> (x \<noteq> LSubmit \<and> sinceSubmit e log)"
  then show "sinceSubmit e (log @ [x])"
  proof
    assume "x = e"
    then show ?thesis unfolding sinceSubmit_def by (intro exI [of _ "length log"]) auto
  next
    assume "x \<noteq> LSubmit \<and> sinceSubmit e log"
    then obtain j where j: "j < length log" "log ! j = e" "\<forall>k. j < k \<and> k < length log \<longrightarrow> log ! k \<noteq> LSubmit" and "x \<noteq> LSubmit"
      by (auto simp: sinceSubmit_def)
    then show ?thesis
      unfolding sinceSubmit_def by (intro exI [of _ j]) (auto simp: nth_append less_Suc_eq)
  qed
qed

lemma answersAfter_since: "answersAfter log = (sinceSubmit LRemoveAll log, sinceSubmit LSaveAnyway log)"
proof (induction log rule: rev_induct)
  case Nil
  then show ?case by (simp add: answersAfter_def sinceSubmit_def)
next
  case (snoc e log)
  then show ?case by (cases e) (auto simp: sinceSubmit_snoc)
qed

text \<open>What may be decided under the answers given.\<close>

definition carriesFilter :: "jobj \<Rightarrow> bool" where
  "carriesFilter body \<longleftrightarrow> objGet (js ''tool_filter'') body \<notin> {None, Some JNull}"

fun okEvent :: "bool \<times> bool \<Rightarrow> gp_event \<Rightarrow> bool" where
  "okEvent a (LDecided method body f c) =
     ((method = js ''PATCH'' \<and> emptiesGroup body \<longrightarrow> fst a) \<and> (carriesFilter body \<and> blocksEverything (formPermits f) c \<longrightarrow> snd a))"
| "okEvent a _ = True"

definition okLog :: "gp_event list \<Rightarrow> bool" where
  "okLog log \<longleftrightarrow> (\<forall>i < length log. okEvent (answersAfter (take i log)) (log ! i))"

lemma okLog_snoc: "okLog (log @ [e]) \<longleftrightarrow> okLog log \<and> okEvent (answersAfter log) e"
  by (auto simp: okLog_def nth_append less_Suc_eq)

definition log_inv :: "gp_state \<Rightarrow> bool" where
  "log_inv s \<longleftrightarrow> okLog (gp_log s) \<and> answersAfter (gp_log s) = (gp_answeredEmpty s, gp_answeredBlocks s)"

lemma log_same:
  "log_inv s \<Longrightarrow> gp_log t = gp_log s \<Longrightarrow> gp_answeredEmpty t = gp_answeredEmpty s \<Longrightarrow> gp_answeredBlocks t = gp_answeredBlocks s \<Longrightarrow> log_inv t"
  by (simp add: log_inv_def)

lemma log_press:
  "log_inv s \<Longrightarrow> log_inv (s\<lparr>gp_confirmEmpty := c, gp_answeredEmpty := True, gp_log := gp_log s @ [LRemoveAll]\<rparr>)"
  "log_inv s \<Longrightarrow> log_inv (s\<lparr>gp_confirmBlocks := c, gp_answeredBlocks := True, gp_log := gp_log s @ [LSaveAnyway]\<rparr>)"
  "log_inv s \<Longrightarrow> log_inv (s\<lparr>gp_formError := e, gp_answeredEmpty := False, gp_answeredBlocks := False, gp_log := gp_log s @ [LSubmit]\<rparr>)"
  by (simp_all add: log_inv_def okLog_snoc)

lemma log_decide:
  assumes "log_inv s" "method = js ''PATCH'' \<and> emptiesGroup body \<longrightarrow> gp_answeredEmpty s" "\<not> asksAboutBlocking body s"
  shows "log_inv (decideG method body s)"
  using assms by (auto simp: log_inv_def decideG_def okLog_snoc asksAboutBlocking_def carriesFilter_def objHas_objGet split: if_splits)

lemma log_send [simp]: "log_inv (sendG p m b t s) = log_inv s" "log_inv (patchG row b' n s) = log_inv s" "log_inv (loadG s) = log_inv s"
  by (simp_all add: log_inv_def sendG_def patchG_def loadG_def)

lemma log_save: "log_inv s \<Longrightarrow> log_inv (saveG s)"
  by (auto simp: saveG_def Let_def closeG_def log_decide elim: log_same split: option.splits)

lemma log_create: "log_inv s \<Longrightarrow> log_inv (createG s)"
  by (auto simp: createG_def Let_def log_decide elim: log_same)

lemma log_go: "log_inv s \<Longrightarrow> log_inv (goG s)"
  by (simp add: goG_def log_save log_create)

lemma log_presses: "log_inv s \<Longrightarrow> log_inv (submitG s)" "log_inv s \<Longrightarrow> log_inv (confirmRemoveAll s)" "log_inv s \<Longrightarrow> log_inv (confirmBlocksAll s)"
  by (auto simp: submitG_def confirmRemoveAll_def confirmBlocksAll_def Let_def intro!: log_go log_save log_press elim: log_same)

lemma log_light:
  "gp_log (settleG t ans s) = gp_log s" "gp_answeredEmpty (settleG t ans s) = gp_answeredEmpty s" "gp_answeredBlocks (settleG t ans s) = gp_answeredBlocks s"
  by (cases t; cases ans; auto simp: g_handlers split: option.splits)+

lemma log_step: "gp_step s t \<Longrightarrow> log_inv s \<Longrightarrow> log_inv t"
  by (erule gp_stepE)
     (auto intro: log_presses elim: log_same simp: log_light openCreateG_def openEditG_def openedG_def closeG_def fieldG_def closeDeleteG_def
       loadToolsG_def removeG_def sendG_def dropTaskG_def split: option.splits)

lemma log_reach: "gp_reach s \<Longrightarrow> log_inv s"
proof (induction rule: gp_reach.induct)
  case gp_mounted
  show ?case by simp (simp add: log_inv_def gpBlank_def okLog_def answersAfter_def)
qed (blast intro: log_step)

section \<open>One request per dialog, and what is decided can be saved\<close>

definition taskSeq :: "gp_task \<Rightarrow> nat option" where
  "taskSeq t = (case t of GCreate m \<Rightarrow> Some m | GFresh m row body \<Rightarrow> Some m | GSave m \<Rightarrow> Some m | _ \<Rightarrow> None)"

abbreviation seqTasks :: "gp_task list \<Rightarrow> nat list" where
  "seqTasks \<equiv> countsOf taskSeq"

definition formDistinct :: "group_form \<Rightarrow> bool" where
  "formDistinct f \<longleftrightarrow> distinct (ff_tools (gf_filter f)) \<and> distinct (ff_prefixes (gf_filter f))"

definition askOk :: "gp_state \<Rightarrow> bool" where
  "askOk s \<longleftrightarrow> (asking s \<longrightarrow> gp_open s \<and> \<not> gp_saving s \<and> blockedG s = []) \<and> \<not> (gp_confirmEmpty s \<and> gp_confirmBlocks s)"

text \<open>A decided filter is one the server's write rules take and the dashboard reads back as itself.\<close>

fun savable :: "gp_event \<Rightarrow> bool" where
  "savable (LDecided method body f c) =
     (objHas (js ''tool_filter'') body \<longrightarrow>
        objGet (js ''tool_filter'') body = Some (filterValue f) \<and>
        parseToolFilter (filterValue f) = (if ff_mode f = NoMode then PNone else PFilter f))"
| "savable _ = True"

definition save_inv :: "gp_state \<Rightarrow> bool" where
  "save_inv s \<longleftrightarrow> busy_ok (gp_dialogSeq s) (gp_saving s) (seqTasks (gp_tasks s)) \<and> askOk s \<and> formDistinct (gp_form s) \<and>
     list_all savable (gp_log s)"

lemma taskSeq_simps [simp]:
  "taskSeq GLoad = None" "taskSeq (GCreate m) = Some m" "taskSeq (GFresh m row body) = Some m" "taskSeq (GSave m) = Some m" "taskSeq (GDelete i) = None"
  by (simp_all add: taskSeq_def)

lemma formDistinct_seed: "formDistinct blankGroupForm" "formDistinct (formFromGroup g)"
proof -
  show "formDistinct blankGroupForm" by (simp add: formDistinct_def blankGroupForm_def blankFilterForm_def)
  show "formDistinct (formFromGroup g)"
    using parseToolFilter_wf [of "g_tool_filter g"]
    by (cases "parseToolFilter (g_tool_filter g)") (auto simp: formDistinct_def wfFilter_def blankFilterForm_def)
qed

lemma formDistinct_edit: "formDistinct f \<Longrightarrow> formDistinct (groupEdit e f)"
  by (induction e f rule: groupEdit.induct) (auto simp: formDistinct_def setTools_def setPrefixes_def distinct_toggleEntry)

lemma savable_patch:
  assumes "groupSaveBlocked (Some row) f = []" "formDistinct f"
  shows "savable (LDecided m (groupPatchBody row f) (gf_filter f) c)"
  using assms sent_filter_readable [of row f] by (simp add: objHas_objGet groupPatch_filter formDistinct_def)

lemma savable_create:
  assumes "groupSaveBlocked None f = []" "formDistinct f"
  shows "savable (LDecided m (groupCreateBody f) (gf_filter f) c)"
proof (cases "ff_mode (gf_filter f) = NoMode")
  case True
  then show ?thesis by (simp add: objHas_objGet groupCreateBody_def objGet_append)
next
  case False
  with assms(1) have "filterProblem (gf_filter f) = []" by (auto simp: groupSaveBlocked_def Let_def split: if_splits)
  with False assms(2) have "wfFilter (gf_filter f)" by (intro sendable_wfFilter) (simp_all add: formDistinct_def)
  with False show ?thesis by (simp add: objHas_objGet groupCreateBody_def objGet_append parse_filterValue)
qed

lemma save_invI:
  "busy_ok (gp_dialogSeq s) (gp_saving s) (seqTasks (gp_tasks s)) \<Longrightarrow> askOk s \<Longrightarrow> formDistinct (gp_form s) \<Longrightarrow> list_all savable (gp_log s) \<Longrightarrow> save_inv s"
  by (simp add: save_inv_def)

lemma save_invD:
  assumes "save_inv s"
  shows "busy_ok (gp_dialogSeq s) (gp_saving s) (seqTasks (gp_tasks s))" "askOk s" "formDistinct (gp_form s)" "list_all savable (gp_log s)"
  using assms by (simp_all add: save_inv_def)

text \<open>A handler that leaves these parts of the state alone keeps the invariant.\<close>

definition core :: "gp_state \<Rightarrow> nat \<times> bool \<times> nat list \<times> bool \<times> bool \<times> bool \<times> group option \<times> group_form \<times> gp_event list" where
  "core s = (gp_dialogSeq s, gp_saving s, seqTasks (gp_tasks s), gp_confirmEmpty s, gp_confirmBlocks s, gp_open s, gp_editing s, gp_form s, gp_log s)"

lemma save_same: "save_inv s \<Longrightarrow> core t = core s \<Longrightarrow> save_inv t"
  by (simp add: save_inv_def core_def askOk_def asking_def blockedG_def)

lemma save_asks:
  assumes "save_inv s" "\<not> asking s" "\<not> gp_saving s" "gp_open s" "blockedG s = []"
  shows "save_inv (s\<lparr>gp_confirmEmpty := True\<rparr>)" "save_inv (s\<lparr>gp_confirmBlocks := True\<rparr>)"
  using assms by (simp_all add: save_inv_def askOk_def asking_def blockedG_def)

lemma save_close: "save_inv s \<Longrightarrow> save_inv (closeG s)"
  by (simp add: save_inv_def closeG_def askOk_def asking_def)

lemma save_send:
  assumes "save_inv s" "\<not> asking s" "\<not> gp_saving s" "savable (LDecided method body (gf_filter (gp_form s)) (catalogueG s))"
    and "taskSeq t = Some (gp_dialogSeq s)"
  shows "save_inv (sendG p m b t (decideG method body s))"
proof (rule save_invI)
  show "busy_ok (gp_dialogSeq (sendG p m b t (decideG method body s))) (gp_saving (sendG p m b t (decideG method body s)))
      (seqTasks (gp_tasks (sendG p m b t (decideG method body s))))"
    using save_invD(1) [OF assms(1)] assms(3,5) by (simp add: sendG_def decideG_def busy_start)
qed (use assms save_invD [OF assms(1)] in \<open>simp_all add: sendG_def decideG_def askOk_def asking_def\<close>)

lemma save_save:
  assumes "save_inv s" "\<not> asking s" "\<not> gp_saving s" "gp_open s" "blockedG s = []"
  shows "save_inv (saveG s)"
proof (cases "gp_editing s")
  case (Some row)
  have "savable (LDecided m (groupPatchBody row (gp_form s)) (gf_filter (gp_form s)) (catalogueG s))" for m
    using assms(5) Some by (intro savable_patch save_invD(3) [OF assms(1)]) (simp add: blockedG_def)
  then show ?thesis
    using Some assms by (simp add: saveG_def Let_def save_asks save_close save_send patchG_def del: savable.simps)
qed (simp add: saveG_def assms)

lemma save_create:
  assumes "save_inv s" "\<not> asking s" "\<not> gp_saving s" "gp_open s" "blockedG s = []" "gp_editing s = None"
  shows "save_inv (createG s)"
proof -
  have "savable (LDecided m (groupCreateBody (gp_form s)) (gf_filter (gp_form s)) (catalogueG s))" for m
    using assms(5,6) by (intro savable_create save_invD(3) [OF assms(1)]) (simp add: blockedG_def)
  then show ?thesis
    using assms by (simp add: createG_def Let_def save_asks save_send del: savable.simps)
qed

lemma save_go:
  assumes "save_inv s" "\<not> asking s" "\<not> gp_saving s" "gp_open s" "blockedG s = []"
  shows "save_inv (goG s)"
  using assms by (simp add: goG_def save_save save_create)

lemma save_log: "save_inv s \<Longrightarrow> savable e \<Longrightarrow> save_inv (s\<lparr>gp_log := gp_log s @ [e]\<rparr>)"
  by (simp add: save_inv_def askOk_def asking_def blockedG_def)

lemma save_presses:
  assumes inv: "save_inv s"
  shows "\<not> asking s \<Longrightarrow> \<not> gp_saving s \<Longrightarrow> gp_open s \<Longrightarrow> save_inv (submitG s)"
    and "gp_confirmEmpty s \<Longrightarrow> save_inv (confirmRemoveAll s)"
    and "gp_confirmBlocks s \<Longrightarrow> save_inv (confirmBlocksAll s)"
proof -
  have ask: "askOk s" by (rule save_invD(2) [OF inv])
  show "save_inv (submitG s)" if "\<not> asking s" "\<not> gp_saving s" "gp_open s"
    using that inv
    by (auto simp: submitG_def Let_def asking_def blockedG_def core_def save_log intro!: save_go elim: save_same)
       (auto simp: save_inv_def askOk_def asking_def blockedG_def)
  show "save_inv (confirmRemoveAll s)" if "gp_confirmEmpty s"
    unfolding confirmRemoveAll_def using that inv ask
    by (intro save_save) (auto simp: save_inv_def askOk_def asking_def blockedG_def)
  show "save_inv (confirmBlocksAll s)" if "gp_confirmBlocks s"
    unfolding confirmBlocksAll_def using that inv ask
    by (intro save_go) (auto simp: save_inv_def askOk_def asking_def blockedG_def)
qed

text \<open>The continuation of a dialog's request has run to its end.\<close>

lemma save_finished:
  assumes inv: "save_inv s" and ts: "seqTasks (gp_tasks s) = a @ [m] @ b" "seqTasks (gp_tasks t) = a @ b"
    and sel: "gp_dialogSeq t = gp_dialogSeq s" "gp_saving t = (if gp_dialogSeq s = m then False else gp_saving s)" "gp_log t = gp_log s"
    and quiet: "gp_confirmEmpty t \<longrightarrow> gp_confirmEmpty s" "gp_confirmBlocks t \<longrightarrow> gp_confirmBlocks s"
      "asking t \<longrightarrow> gp_open t = gp_open s \<and> blockedG t = blockedG s"
    and form: "formDistinct (gp_form t)"
  shows "save_inv t"
proof (rule save_invI)
  show "busy_ok (gp_dialogSeq t) (gp_saving t) (seqTasks (gp_tasks t))"
    using save_invD(1) [OF inv] busy_done [of "gp_dialogSeq s" "gp_saving s" a m b] by (simp add: ts sel)
  have "asking t \<longrightarrow> asking s" using quiet by (auto simp: asking_def)
  then show "askOk t" using save_invD(2) [OF inv] quiet sel(2) by (auto simp: askOk_def)
qed (use form sel(3) save_invD(4) [OF inv] in simp_all)

lemma save_told:
  assumes inv: "save_inv s" and ts: "seqTasks (gp_tasks s) = a @ [m] @ b" and u: "core u = core (s\<lparr>gp_tasks := gp_tasks u\<rparr>)" "seqTasks (gp_tasks u) = a @ b"
  shows "save_inv (unsaveG m (tellG msg m u))" "save_inv (unsaveG m (failedG err m u))" "save_inv (unsaveG m u)"
proof -
  have told: "save_inv (unsaveG m v)" if "core v = core (s\<lparr>gp_tasks := gp_tasks v\<rparr>)" "seqTasks (gp_tasks v) = a @ b" for v
    using that save_invD(3) [OF inv]
    by (intro save_finished [OF inv ts]) (auto simp: core_def unsaveG_def asking_def blockedG_def)
  have "core (tellG msg m v) = core v" "gp_tasks (tellG msg m v) = gp_tasks v" for msg v
    by (simp_all add: core_def tellG_def)
  moreover have "core (loadG u) = core u" "seqTasks (gp_tasks (loadG u)) = seqTasks (gp_tasks u)"
    by (simp_all add: core_def loadG_def sendG_def)
  ultimately show "save_inv (unsaveG m (tellG msg m u))" "save_inv (unsaveG m (failedG err m u))" "save_inv (unsaveG m u)"
    using u by (auto intro!: told simp: failedG_def core_def)
qed

lemma save_shut:
  assumes inv: "save_inv s" and ts: "seqTasks (gp_tasks s) = a @ [m] @ b" and v: "gp_dialogSeq v = gp_dialogSeq s" "gp_saving v = gp_saving s"
    "gp_log v = gp_log s" "\<not> asking v" "seqTasks (gp_tasks v) = a @ b" "formDistinct (gp_form v)"
  shows "save_inv (unsaveG m v)"
  using v by (intro save_finished [OF inv ts]) (auto simp: unsaveG_def asking_def)

lemma save_settle:
  assumes inv: "save_inv s" and i: "i < length (gp_tasks s)" and fit: "answerFitsG (gp_tasks s ! i) ans"
  shows "save_inv (settleG (gp_tasks s ! i) ans (dropTaskG i s))"
proof -
  obtain a b where ab: "seqTasks (gp_tasks s) = a @ seqTasks [gp_tasks s ! i] @ b" "seqTasks (gp_tasks (dropTaskG i s)) = a @ b"
    using countsOf_withoutTask [OF i, of taskSeq] by (auto simp: dropTaskG_def)
  define u where "u = dropTaskG i s"
  have u: "core u = core (s\<lparr>gp_tasks := gp_tasks u\<rparr>)" "seqTasks (gp_tasks u) = a @ b" using ab(2) by (simp_all add: u_def dropTaskG_def core_def)
  have sel: "gp_dialogSeq u = gp_dialogSeq s" "gp_saving u = gp_saving s" "gp_form u = gp_form s" "gp_log u = gp_log s"
    using u(1) by (simp_all add: core_def)
  note fd = save_invD(3) [OF inv]
  have "save_inv (settleG (gp_tasks s ! i) ans u)"
  proof (cases "gp_tasks s ! i")
    case GLoad
    with ab(1) u show ?thesis by (intro save_same [OF inv]) (cases ans; simp add: core_def)
  next
    case (GDelete g)
    with ab(1) u show ?thesis
      by (intro save_same [OF inv]) (cases ans; simp add: core_def loadG_def sendG_def closeDeleteG_def)
  next
    case (GCreate m)
    with ab(1) have ts: "seqTasks (gp_tasks s) = a @ [m] @ b" by simp
    have "save_inv (unsaveG m (loadG ((closeG u)\<lparr>gp_form := blankGroupForm\<rparr>)))"
      using u(2) sel by (intro save_shut [OF inv ts]) (simp_all add: loadG_def sendG_def closeG_def asking_def formDistinct_seed)
    moreover have "save_inv (unsaveG m (loadG u))"
      using u by (intro save_told(3) [OF inv ts]) (simp_all add: loadG_def sendG_def core_def)
    ultimately show ?thesis using fit GCreate by (cases ans) (auto intro: save_told(2) [OF inv ts u])
  next
    case (GSave m)
    with ab(1) have ts: "seqTasks (gp_tasks s) = a @ [m] @ b" by simp
    have "save_inv (unsaveG m (closeG (u\<lparr>gp_groups := gs\<rparr>)))" for gs
      using u(2) sel fd by (intro save_shut [OF inv ts]) (simp_all add: closeG_def asking_def)
    moreover have "save_inv (unsaveG m (u\<lparr>gp_groups := gs\<rparr>))" for gs
      using u by (intro save_told(3) [OF inv ts]) (simp_all add: core_def)
    ultimately show ?thesis using fit GSave by (cases ans) (auto simp: Let_def intro: save_told(2) [OF inv ts u])
  next
    case (GFresh m row body)
    with ab(1) have ts: "seqTasks (gp_tasks s) = a @ [m] @ b" by simp
    have "save_inv (patchG row body m u)"
      using inv u busy_again [of "gp_dialogSeq s" "gp_saving s" a m b]
      by (simp add: save_inv_def patchG_def sendG_def core_def askOk_def asking_def blockedG_def ts)
    then show ?thesis using fit GFresh by (cases ans) (auto intro: save_told(1,2) [OF inv ts u] split: option.splits)
  qed
  then show ?thesis by (simp add: u_def)
qed

lemma save_open: "save_inv s \<Longrightarrow> \<not> gp_open s \<Longrightarrow> save_inv (openCreateG s)" "save_inv s \<Longrightarrow> \<not> gp_open s \<Longrightarrow> save_inv (openEditG g s)"
  by (auto simp: save_inv_def openCreateG_def openEditG_def openedG_def askOk_def asking_def busy_reopen formDistinct_seed)

lemma save_field: "save_inv s \<Longrightarrow> \<not> asking s \<Longrightarrow> save_inv (fieldG e s)"
  by (simp add: save_inv_def fieldG_def askOk_def asking_def formDistinct_edit)

lemma save_cancel: "save_inv s \<Longrightarrow> save_inv (s\<lparr>gp_confirmEmpty := False\<rparr>)" "save_inv s \<Longrightarrow> save_inv (s\<lparr>gp_confirmBlocks := False\<rparr>)"
  by (auto simp: save_inv_def askOk_def asking_def blockedG_def)

lemma core_light:
  "core (closeDeleteG s) = core s" "core (loadToolsG u s) = core s" "core (removeG s) = core s" "core (loadG s) = core s"
  "core (s\<lparr>gp_pendingDelete := x\<rparr>) = core s" "core (s\<lparr>gp_hook := h\<rparr>) = core s"
  by (simp_all add: core_def closeDeleteG_def loadToolsG_def removeG_def loadG_def sendG_def split: option.splits)

lemma save_step: "gp_step s t \<Longrightarrow> save_inv s \<Longrightarrow> save_inv t"
  by (erule gp_stepE)
     (auto intro: save_open save_close save_field save_presses save_cancel save_settle save_same [OF _ core_light(1)]
       save_same [OF _ core_light(2)] save_same [OF _ core_light(3)] save_same [OF _ core_light(5)] save_same [OF _ core_light(6)])

lemma save_reach: "gp_reach s \<Longrightarrow> save_inv s"
proof (induction rule: gp_reach.induct)
  case gp_mounted
  have "save_inv gpBlank"
    by (simp add: save_inv_def gpBlank_def askOk_def asking_def busy_ok_def formDistinct_seed)
  then show ?case by (rule save_same) (rule core_light)
qed (blast intro: save_step)

section \<open>Requests and decisions\<close>

text \<open>Every POST and PATCH sent, and every body waiting for its re-read, was decided: it is in the log.\<close>

definition sentOk :: "gp_event list \<Rightarrow> sent_request \<Rightarrow> bool" where
  "sentOk log r = (case r of (path, method, body) \<Rightarrow>
     method \<in> {js ''POST'', js ''PATCH''} \<longrightarrow> (\<exists>b f c. body = Some b \<and> LDecided method b f c \<in> set log))"

definition waitOk :: "gp_event list \<Rightarrow> gp_task \<Rightarrow> bool" where
  "waitOk log t = (case t of GFresh mine row body \<Rightarrow> \<exists>f c. LDecided (js ''PATCH'') body f c \<in> set log | _ \<Rightarrow> True)"

definition decided_inv :: "gp_state \<Rightarrow> bool" where
  "decided_inv s \<longleftrightarrow> list_all (sentOk (gp_log s)) (gp_sent s) \<and> list_all (waitOk (gp_log s)) (gp_tasks s)"

text \<open>A handler adds to the log, the requests and the tasks, and what it adds is covered by the log after it.\<close>

definition decidedMore :: "gp_state \<Rightarrow> gp_state \<Rightarrow> bool" where
  "decidedMore s t \<longleftrightarrow> (\<exists>l r ts. gp_log t = gp_log s @ l \<and> gp_sent t = gp_sent s @ r \<and> gp_tasks t = gp_tasks s @ ts \<and>
     list_all (sentOk (gp_log t)) r \<and> list_all (waitOk (gp_log t)) ts)"

lemma sentOk_more: "sentOk log r \<Longrightarrow> sentOk (log @ l) r"
  by (auto simp: sentOk_def)

lemma waitOk_more: "waitOk log t \<Longrightarrow> waitOk (log @ l) t"
  by (auto simp: waitOk_def split: gp_task.splits)

lemma decided_more:
  assumes "decidedMore s t" "decided_inv s"
  shows "decided_inv t"
proof -
  from assms(1) obtain l r ts where t: "gp_log t = gp_log s @ l" "gp_sent t = gp_sent s @ r" "gp_tasks t = gp_tasks s @ ts"
    "list_all (sentOk (gp_log t)) r" "list_all (waitOk (gp_log t)) ts"
    by (auto simp: decidedMore_def)
  moreover have "list_all (sentOk (gp_log t)) (gp_sent s)" "list_all (waitOk (gp_log t)) (gp_tasks s)"
    using assms(2) sentOk_more waitOk_more unfolding decided_inv_def list_all_iff t(1) by blast+
  ultimately show ?thesis by (simp add: decided_inv_def)
qed

lemmas more_defs = decidedMore_def sentOk_def waitOk_def

lemma more_light:
  "decidedMore s (openCreateG s)" "decidedMore s (openEditG g s)" "decidedMore s (closeG s)" "decidedMore s (fieldG e s)"
  "decidedMore s (closeDeleteG s)" "decidedMore s (loadToolsG u s)" "decidedMore s (loadG s)"
  by (auto simp: more_defs openCreateG_def openEditG_def openedG_def loadToolsG_def g_handlers)

lemma more_remove: "decidedMore s (removeG s)"
  by (auto simp: more_defs g_handlers split: option.splits)

lemma more_save: "decidedMore s (saveG s)"
  by (auto simp: more_defs g_handlers split: option.splits)

lemma more_create: "decidedMore s (createG s)"
  by (auto simp: more_defs g_handlers)

lemma more_same: "gp_log t = gp_log s \<Longrightarrow> gp_sent t = gp_sent s \<Longrightarrow> gp_tasks t = gp_tasks s \<Longrightarrow> decidedMore s t"
  by (auto simp: decidedMore_def)

lemma more_from:
  "decidedMore s' t \<Longrightarrow> gp_log s' = gp_log s @ l \<Longrightarrow> gp_sent s' = gp_sent s \<Longrightarrow> gp_tasks s' = gp_tasks s \<Longrightarrow> decidedMore s t"
  by (auto simp: decidedMore_def)

lemma more_presses: "decidedMore s (submitG s)" "decidedMore s (confirmRemoveAll s)" "decidedMore s (confirmBlocksAll s)"
  unfolding submitG_def confirmRemoveAll_def confirmBlocksAll_def goG_def Let_def
  by (auto intro: more_from [OF more_save] more_from [OF more_create] more_same)

lemma more_settle: "waitOk (gp_log s) t \<Longrightarrow> decidedMore s (settleG t ans s)"
  by (cases t; cases ans) (auto simp: more_defs g_handlers split: option.splits)

lemma decided_settle:
  assumes "decided_inv s" "i < length (gp_tasks s)"
  shows "decided_inv (settleG (gp_tasks s ! i) ans (dropTaskG i s))"
proof (rule decided_more)
  show "decided_inv (dropTaskG i s)"
    using assms(1) set_withoutTask [of i "gp_tasks s"] by (auto simp: decided_inv_def dropTaskG_def list_all_iff)
  have "waitOk (gp_log s) (gp_tasks s ! i)" using assms by (simp add: decided_inv_def list_all_length)
  then show "decidedMore (dropTaskG i s) (settleG (gp_tasks s ! i) ans (dropTaskG i s))"
    by (intro more_settle) (simp add: dropTaskG_def)
qed

lemma decided_step: "gp_step s t \<Longrightarrow> decided_inv s \<Longrightarrow> decided_inv t"
  by (erule gp_stepE)
     (auto intro: decided_settle decided_more [OF more_presses(1)] decided_more [OF more_presses(2)] decided_more [OF more_presses(3)]
       decided_more [OF more_light(1)] decided_more [OF more_light(2)] decided_more [OF more_light(3)] decided_more [OF more_light(4)]
       decided_more [OF more_light(5)] decided_more [OF more_light(6)] decided_more [OF more_remove] decided_more [OF more_same])

lemma decided_reach: "gp_reach s \<Longrightarrow> decided_inv s"
proof (induction rule: gp_reach.induct)
  case gp_mounted
  have "decided_inv gpBlank" by (simp add: decided_inv_def gpBlank_def)
  then show ?case by (rule decided_more [OF more_light(7)])
qed (blast intro: decided_step)

lemma sent_decided:
  assumes "gp_reach s" "(path, method, Some body) \<in> set (gp_sent s)" "method \<in> {js ''POST'', js ''PATCH''}"
  obtains i f c where "i < length (gp_log s)" "gp_log s ! i = LDecided method body f c"
    "okEvent (sinceSubmit LRemoveAll (take i (gp_log s)), sinceSubmit LSaveAnyway (take i (gp_log s))) (LDecided method body f c)"
    "savable (LDecided method body f c)"
proof -
  have "sentOk (gp_log s) (path, method, Some body)"
    using decided_reach [OF assms(1)] assms(2) unfolding decided_inv_def list_all_iff by blast
  then obtain f c where "LDecided method body f c \<in> set (gp_log s)" using assms(3) by (auto simp: sentOk_def)
  then obtain i where i: "i < length (gp_log s)" "gp_log s ! i = LDecided method body f c" by (auto simp: in_set_conv_nth)
  have "okEvent (answersAfter (take i (gp_log s))) (gp_log s ! i)"
    using log_reach [OF assms(1)] i(1) by (simp add: log_inv_def okLog_def)
  moreover have "savable (gp_log s ! i)" using save_reach [OF assms(1)] i(1) by (simp add: save_inv_def list_all_length)
  ultimately show thesis using that [of i f c] i by (simp only: answersAfter_since)
qed

section \<open>Runs\<close>

text \<open>Three short runs on one stored group: its members taken out, its unreadable filter replaced by
  none, and a deny filter given to a group that had none.\<close>

definition storedGroup :: "jval \<Rightarrow> group" where
  "storedGroup tf = \<lparr>g_id = js ''g1'', g_name = js ''Ops'', g_description = None, g_upstream_ids = [js ''u1''], g_tool_filter = tf,
     g_created_at = [], g_updated_at = []\<rparr>"

definition openedRun :: "jval \<Rightarrow> gp_state" where
  "openedRun tf = openEditG (storedGroup tf) (settleG GLoad (GLists [storedGroup tf] []) (dropTaskG 0 (loadG gpBlank)))"

lemma openedRun_reach: "gp_reach (openedRun tf)"
proof -
  let ?l = "settleG GLoad (GLists [storedGroup tf] []) (dropTaskG 0 (loadG gpBlank))"
  have t: "gp_tasks (loadG gpBlank) = [GLoad]" by (simp add: loadG_def sendG_def gpBlank_def)
  have "gp_step (loadG gpBlank) (settleG (gp_tasks (loadG gpBlank) ! 0) (GLists [storedGroup tf] []) (dropTaskG 0 (loadG gpBlank)))"
    by (rule gp_step.g_settled) (simp_all add: t)
  then have "gp_reach ?l" using gp_reach.gp_moved [OF gp_reach.gp_mounted] by (simp only: t nth_Cons_0)
  moreover have "gp_step ?l (openedRun tf)" unfolding openedRun_def
    by (rule gp_step.g_open_edit) (simp_all add: dropTaskG_def loadG_def sendG_def gpBlank_def)
  ultimately show ?thesis by (rule gp_reach.gp_moved)
qed

lemma field_reach:
  "gp_reach s \<Longrightarrow> gp_open s \<Longrightarrow> \<not> asking s \<Longrightarrow> groupEditFits e (gp_form s) \<Longrightarrow> gp_reach (fieldG e s)"
  "gp_reach s \<Longrightarrow> gp_open s \<Longrightarrow> \<not> asking s \<Longrightarrow> \<not> gp_saving s \<Longrightarrow> gp_reach (submitG s)"
  by (auto intro: gp_reach.gp_moved gp_step.g_field gp_step.g_submit)

definition emptiedRun :: gp_state where
  "emptiedRun = confirmRemoveAll (submitG (fieldG (GMember (js ''u1'') False) (openedRun JNull)))"

lemma emptiedRun_reach: "gp_reach emptiedRun"
proof -
  have "gp_reach (submitG (fieldG (GMember (js ''u1'') False) (openedRun JNull)))"
    by (intro field_reach openedRun_reach) code_simp+
  moreover have "gp_confirmEmpty (submitG (fieldG (GMember (js ''u1'') False) (openedRun JNull)))" by code_simp
  ultimately show ?thesis unfolding emptiedRun_def by (auto intro: gp_reach.gp_moved gp_step.g_remove_all)
qed

definition clearedRun :: gp_state where
  "clearedRun = submitG (fieldG (GMode NoMode) (fieldG GReplaceFilter (openedRun (JStr (js ''?'')))))"

lemma clearedRun_reach: "gp_reach clearedRun"
  unfolding clearedRun_def by (intro field_reach openedRun_reach) code_simp+

definition denyRun :: gp_state where
  "denyRun = submitG (fieldG (GAddTool (js ''x'')) (fieldG (GMode DenyMode) (openedRun JNull)))"

lemma denyRun_reach: "gp_reach denyRun"
  unfolding denyRun_def by (intro field_reach openedRun_reach) code_simp+

lemma denyRun_decided:
  "\<exists>body c. gp_log denyRun ! 1 = LDecided (js ''PATCH'') body \<lparr>ff_mode = DenyMode, ff_tools = [js ''x''], ff_prefixes = []\<rparr> c \<and>
     length (gp_log denyRun) = 2 \<and> gp_log denyRun ! 0 = LSubmit \<and> carriesFilter body"
proof -
  let ?s = "fieldG (GAddTool (js ''x'')) (fieldG (GMode DenyMode) (openedRun JNull))"
  let ?f = "\<lparr>ff_mode = DenyMode, ff_tools = [js ''x''], ff_prefixes = []\<rparr>"
  have sel: "gp_editing ?s = Some (storedGroup JNull)" "gf_filter (gp_form ?s) = ?f" "\<not> gf_filterReplace (gp_form ?s)" "gp_log ?s = []"
    "groupPatchBody (storedGroup JNull) (gp_form ?s) = [(js ''tool_filter'', filterValue ?f)]" "membersG ?s = []"
    by code_simp+
  have "cleanEntry (js ''x'')" by (simp add: clean_eval)
  moreover have "\<not> se_scoped (splitEntry (js ''x''))" by code_simp
  ultimately have "filterProblem ?f = []" by (simp add: filterProblem_none_iff entryProblem_none_iff modeSide_def)
  then have ok: "blockedG ?s = []" by (simp add: blockedG_def sel groupSaveBlocked_def)
  let ?t = "?s\<lparr>gp_formError := [], gp_answeredEmpty := False, gp_answeredBlocks := False, gp_log := [LSubmit]\<rparr>"
  have t: "gp_editing ?t = Some (storedGroup JNull)" "gp_form ?t = gp_form ?s" "catalogueG ?t = []" "gp_log ?t = [LSubmit]"
    using sel by (simp_all add: catalogueG_def membersG_def shownCatalogue_def)
  have "\<not> emptiesGroup [(js ''tool_filter'', filterValue ?f)]" by code_simp
  moreover have "\<not> asksAboutBlocking [(js ''tool_filter'', filterValue ?f)] ?t"
    by (simp add: asksAboutBlocking_def t blocksEverything_def catalogueComplete_def)
  ultimately have "gp_log (goG ?t) = [LSubmit, LDecided (js ''PATCH'') [(js ''tool_filter'', filterValue ?f)] ?f []]"
    by (simp add: goG_def saveG_def t sel Let_def sendG_def decideG_def)
  moreover have "goG ?t = denyRun" by (simp add: denyRun_def submitG_def Let_def ok sel)
  ultimately have "gp_log denyRun = [LSubmit, LDecided (js ''PATCH'') [(js ''tool_filter'', filterValue ?f)] ?f []]" by (simp only:)
  moreover have "carriesFilter [(js ''tool_filter'', filterValue ?f)]" by code_simp
  ultimately show ?thesis by simp
qed

text \<open>And a new group whose one member was loaded and whose filter denies the one tool it has: the
  question is asked, answered, and the request leaves.\<close>

definition opsServer :: upstream where
  "opsServer = \<lparr>u_id = js ''u1'', u_name = js ''Ops'', u_slug = js ''ops'', u_description = None, u_kind = js ''mcp'', u_url = js ''https://a'',
     u_transport = js ''streamable-http'', u_test_path = None, u_auth_type = js ''none'', u_enabled = True, u_auth_configured = False,
     u_auth_status = js ''ok'', u_auth_hint = None, u_oauth = None, u_last_test_at = None, u_last_test_ok = None, u_created_at = [], u_updated_at = []\<rparr>"

definition oneToolAnswer :: discovery where
  "oneToolAnswer = \<lparr>d_ok = True, d_kind = js ''mcp'', d_http_status = None, d_latency_ms = 0, d_protocol_version = None, d_era = None, d_slug = None,
     d_tool_count = 1, d_tools = Some [oneTool (js ''x'')], d_truncated = False, d_unnameable_tools = None, d_error = None, d_upstream_message = None\<rparr>"

definition memberRun :: gp_state where
  "memberRun = fieldG (GMember (js ''u1'') True) (openCreateG (settleG GLoad (GLists [] [opsServer]) (dropTaskG 0 (loadG gpBlank))))"

definition loadedRun :: gp_state where
  "loadedRun = (let s = loadToolsG None memberRun in s\<lparr>gp_hook := answerRun 0 0 0 (Inr oneToolAnswer) (gp_hook s)\<rparr>)"

definition toldRun :: gp_state where
  "toldRun = fieldG (GAddTool (js ''x'')) (fieldG (GMode DenyMode) loadedRun)"

definition blocksRun :: gp_state where
  "blocksRun = confirmBlocksAll (submitG toldRun)"

lemma memberRun_reach: "gp_reach memberRun"
proof -
  let ?l = "settleG GLoad (GLists [] [opsServer]) (dropTaskG 0 (loadG gpBlank))"
  have t: "gp_tasks (loadG gpBlank) = [GLoad]" by (simp add: loadG_def sendG_def gpBlank_def)
  have "gp_step (loadG gpBlank) (settleG (gp_tasks (loadG gpBlank) ! 0) (GLists [] [opsServer]) (dropTaskG 0 (loadG gpBlank)))"
    by (rule gp_step.g_settled) (simp_all add: t)
  then have "gp_reach ?l" using gp_reach.gp_moved [OF gp_reach.gp_mounted] by (simp only: t nth_Cons_0)
  moreover have "gp_step ?l (openCreateG ?l)" by (rule gp_step.g_open_create) code_simp
  ultimately have "gp_reach (openCreateG ?l)" by (rule gp_reach.gp_moved)
  then show ?thesis unfolding memberRun_def by (rule field_reach) code_simp+
qed

lemma loadedRun_reach: "gp_reach loadedRun"
proof -
  let ?s = "loadToolsG None memberRun"
  have "gp_reach ?s" by (rule gp_reach.gp_moved [OF memberRun_reach gp_step.g_load_tools])
  moreover have "gp_step ?s loadedRun" unfolding loadedRun_def Let_def by (rule gp_step.g_tool_answer) code_simp+
  ultimately show ?thesis by (rule gp_reach.gp_moved)
qed

lemma toldRun_reach: "gp_reach toldRun"
  unfolding toldRun_def by (intro field_reach loadedRun_reach) code_simp+

lemma toldRun_blocks: "blocksEverything (formPermits (gf_filter (gp_form toldRun))) (catalogueG toldRun)"
  by code_simp

lemmas run_defs = toldRun_def loadedRun_def memberRun_def fieldG_def loadToolsG_def openCreateG_def openedG_def loadG_def sendG_def dropTaskG_def
  gpBlank_def blankGroupForm_def blankFilterForm_def setTools_def Let_def

lemma toldRun_sel:
  "gp_editing toldRun = None" "gp_open toldRun" "\<not> asking toldRun" "\<not> gp_saving toldRun" "gp_log toldRun = []"
  "gf_filter (gp_form toldRun) = \<lparr>ff_mode = DenyMode, ff_tools = [js ''x''], ff_prefixes = []\<rparr>" "\<not> gf_filterReplace (gp_form toldRun)"
  by (simp_all add: run_defs asking_def toggleEntry_def)

lemma toldRun_free: "blockedG toldRun = []"
proof -
  have "cleanEntry (js ''x'')" by (simp add: clean_eval)
  moreover have "\<not> se_scoped (splitEntry (js ''x''))" by code_simp
  ultimately have "filterProblem (gf_filter (gp_form toldRun)) = []"
    by (simp add: toldRun_sel filterProblem_none_iff entryProblem_none_iff modeSide_def)
  then show ?thesis by (simp add: blockedG_def toldRun_sel groupSaveBlocked_def)
qed

lemma toldRun_asks: "asksAboutBlocking (groupCreateBody (gp_form toldRun)) (toldRun\<lparr>gp_formError := e, gp_answeredEmpty := a, gp_answeredBlocks := b, gp_log := l\<rparr>) = (\<not> b)"
proof -
  have "carriesFilter (groupCreateBody (gp_form toldRun))" by code_simp
  then show ?thesis
    using toldRun_blocks by (simp add: asksAboutBlocking_def objHas_objGet carriesFilter_def catalogueG_def membersG_def)
qed

lemma blocksRun_reach: "gp_reach blocksRun"
  and blocksRun_log: "gp_log blocksRun = [LSubmit, LSaveAnyway,
     LDecided (js ''POST'') (groupCreateBody (gp_form toldRun)) (gf_filter (gp_form toldRun)) (catalogueG toldRun)]"
  and blocksRun_sent: "(js ''/groups'', js ''POST'', Some (groupCreateBody (gp_form toldRun))) \<in> set (gp_sent blocksRun)"
proof -
  let ?s = "toldRun\<lparr>gp_formError := [], gp_answeredEmpty := False, gp_answeredBlocks := False, gp_log := [LSubmit]\<rparr>"
  have asked: "submitG toldRun = ?s\<lparr>gp_confirmBlocks := True\<rparr>"
    by (simp add: submitG_def Let_def toldRun_free goG_def toldRun_sel createG_def toldRun_asks)
  have "gp_reach (submitG toldRun)" using toldRun_reach toldRun_sel(2,3,4) by (rule field_reach)
  then show "gp_reach blocksRun" unfolding blocksRun_def
    by (rule gp_reach.gp_moved) (rule gp_step.g_save_anyway, simp add: asked)
  have go: "blocksRun = createG (?s\<lparr>gp_confirmBlocks := False, gp_answeredBlocks := True, gp_log := [LSubmit, LSaveAnyway]\<rparr>)"
    by (simp add: blocksRun_def asked confirmBlocksAll_def goG_def toldRun_sel)
  have "\<not> asksAboutBlocking (groupCreateBody (gp_form toldRun)) (?s\<lparr>gp_confirmBlocks := False, gp_answeredBlocks := True, gp_log := [LSubmit, LSaveAnyway]\<rparr>)"
    by (simp add: asksAboutBlocking_def)
  then show "gp_log blocksRun = [LSubmit, LSaveAnyway,
       LDecided (js ''POST'') (groupCreateBody (gp_form toldRun)) (gf_filter (gp_form toldRun)) (catalogueG toldRun)]"
    "(js ''/groups'', js ''POST'', Some (groupCreateBody (gp_form toldRun))) \<in> set (gp_sent blocksRun)"
    unfolding go by (simp_all add: createG_def Let_def sendG_def decideG_def catalogueG_def membersG_def)
qed

section \<open>Properties\<close>

text \<open>
  Claim C5: when a step of the Groups page sends a PATCH that carries a filter, that step settles a
  fresh read of the same group with a row whose stored filter means what it meant when the dialog
  opened, and the body is the one the form made of that row.
\<close>

theorem filter_overwritten_only_when_fresh:
  assumes "gp_reach s" "gp_step s t"
    and "(path, js ''PATCH'', Some body) \<in> set (drop (length (gp_sent s)) (gp_sent t))" "objHas (js ''tool_filter'') body"
  shows "\<exists>i mine row fresh f. i < length (gp_tasks s) \<and> gp_tasks s ! i = GFresh mine row body \<and> path = js ''/groups/'' @ g_id row \<and>
     body = groupPatchBody row f \<and> policyMeaning fresh = policyMeaning row \<and>
     t = settleG (GFresh mine row body) (GMaybe (Some fresh)) (dropTaskG i s)"
proof -
  obtain i mine row fresh where i: "i < length (gp_tasks s)" "gp_tasks s ! i = GFresh mine row body" "path = js ''/groups/'' @ g_id row"
    "\<not> groupPolicyStale row fresh" "t = settleG (GFresh mine row body) (GMaybe (Some fresh)) (dropTaskG i s)"
    using filter_patch_step [OF assms(2,3,4)] by blast
  have "fresh_ok (gp_tasks s ! i)" using tasks_reach [OF assms(1)] i(1) by (simp add: tasks_ok_def list_all_length)
  then obtain f where "body = groupPatchBody row f" using i(2) by (auto simp: fresh_ok_def)
  then show ?thesis using i group_policy.same_iff [of row fresh] by metis
qed

theorem filter_overwritten_only_when_fresh_witness:
  "\<exists>i mine row fresh f. i < length (gp_tasks clearedRun) \<and> gp_tasks clearedRun ! i = GFresh mine row (groupPatchBody row f) \<and>
     policyMeaning fresh = policyMeaning row"
proof -
  let ?t = "settleG (gp_tasks clearedRun ! 0) (GMaybe (Some (storedGroup (JStr (js ''?''))))) (dropTaskG 0 clearedRun)"
  have "0 < length (gp_tasks clearedRun)" "answerFitsG (gp_tasks clearedRun ! 0) (GMaybe (Some (storedGroup (JStr (js ''?'')))))" by code_simp+
  then have step: "gp_step clearedRun ?t" by (rule gp_step.g_settled)
  have "drop (length (gp_sent clearedRun)) (gp_sent ?t) = [(js ''/groups/g1'', js ''PATCH'', Some [(js ''tool_filter'', JNull)])]" by code_simp
  then have "(js ''/groups/g1'', js ''PATCH'', Some [(js ''tool_filter'', JNull)]) \<in> set (drop (length (gp_sent clearedRun)) (gp_sent ?t))" by simp
  moreover have "objHas (js ''tool_filter'') [(js ''tool_filter'', JNull)]" by code_simp
  ultimately show ?thesis using filter_overwritten_only_when_fresh [OF clearedRun_reach step] by metis
qed

text \<open>
  Claim C8: every PATCH the Groups page ever sent that leaves a group with no member was decided
  after the operator pressed Remove all, later than the last press of Save.
\<close>

theorem emptied_only_on_answer:
  assumes "gp_reach s" "(path, js ''PATCH'', Some body) \<in> set (gp_sent s)" "emptiesGroup body"
  shows "\<exists>i f c. i < length (gp_log s) \<and> gp_log s ! i = LDecided (js ''PATCH'') body f c \<and> sinceSubmit LRemoveAll (take i (gp_log s))"
proof -
  obtain i f c where "i < length (gp_log s)" "gp_log s ! i = LDecided (js ''PATCH'') body f c"
    "okEvent (sinceSubmit LRemoveAll (take i (gp_log s)), sinceSubmit LSaveAnyway (take i (gp_log s))) (LDecided (js ''PATCH'') body f c)"
    using sent_decided [OF assms(1,2)] by blast
  then show ?thesis using assms(3) by auto
qed

theorem emptied_only_on_answer_witness:
  "\<exists>i body f c. i < length (gp_log emptiedRun) \<and> gp_log emptiedRun ! i = LDecided (js ''PATCH'') body f c \<and> sinceSubmit LRemoveAll (take i (gp_log emptiedRun))"
proof -
  have "last (gp_sent emptiedRun) = (js ''/groups/g1'', js ''PATCH'', Some [(js ''upstream_ids'', JArr [])])" "gp_sent emptiedRun \<noteq> []" by code_simp+
  then have "(js ''/groups/g1'', js ''PATCH'', Some [(js ''upstream_ids'', JArr [])]) \<in> set (gp_sent emptiedRun)" by (metis last_in_set)
  moreover have "emptiesGroup [(js ''upstream_ids'', JArr [])]" by code_simp
  ultimately show ?thesis using emptied_only_on_answer [OF emptiedRun_reach] by blast
qed

text \<open>
  Claim C7: every filter the Groups page ever sent was judged before it left: the body carries the
  printed filter of the form, and if that filter refused every tool the loaded catalogue had on
  offer, the operator had pressed Save anyway, later than the last press of Save.
\<close>

theorem blocking_filter_saved_only_on_answer:
  assumes "gp_reach s" "(path, method, Some body) \<in> set (gp_sent s)" "method \<in> {js ''POST'', js ''PATCH''}" "carriesFilter body"
  shows "\<exists>i f c. i < length (gp_log s) \<and> gp_log s ! i = LDecided method body f c \<and> objGet (js ''tool_filter'') body = Some (filterValue f) \<and>
     (catalogueComplete c \<and> callable c \<noteq> {} \<and> (\<forall>(slug, name) \<in> callable c. \<not> formPermits f slug name) \<longrightarrow> sinceSubmit LSaveAnyway (take i (gp_log s)))"
proof -
  obtain i f c where i: "i < length (gp_log s)" "gp_log s ! i = LDecided method body f c" "savable (LDecided method body f c)"
    "okEvent (sinceSubmit LRemoveAll (take i (gp_log s)), sinceSubmit LSaveAnyway (take i (gp_log s))) (LDecided method body f c)"
    using sent_decided [OF assms(1,2,3)] by blast
  moreover have "objGet (js ''tool_filter'') body = Some (filterValue f)"
    using i(3) assms(4) by (simp add: carriesFilter_def objHas_objGet)
  ultimately show ?thesis using assms(4) unfolding blocksEverything_iff [symmetric] by auto
qed

theorem blocking_filter_saved_only_on_answer_witness:
  "\<exists>i f c. i < length (gp_log blocksRun) \<and> gp_log blocksRun ! i = LDecided (js ''POST'') (groupCreateBody (gp_form toldRun)) f c \<and>
     sinceSubmit LSaveAnyway (take i (gp_log blocksRun))"
proof -
  have "carriesFilter (groupCreateBody (gp_form toldRun))" by code_simp
  from blocking_filter_saved_only_on_answer [OF blocksRun_reach blocksRun_sent _ this]
  obtain i f c where i: "i < length (gp_log blocksRun)" "gp_log blocksRun ! i = LDecided (js ''POST'') (groupCreateBody (gp_form toldRun)) f c"
    "catalogueComplete c \<and> callable c \<noteq> {} \<and> (\<forall>(slug, name) \<in> callable c. \<not> formPermits f slug name) \<longrightarrow> sinceSubmit LSaveAnyway (take i (gp_log blocksRun))"
    by blast
  have "i = 2" using i(1,2) unfolding blocksRun_log by (cases i; cases "i - 1") auto
  with i(2) have "f = gf_filter (gp_form toldRun)" "c = catalogueG toldRun" unfolding blocksRun_log by simp_all
  with i toldRun_blocks show ?thesis unfolding blocksEverything_iff by blast
qed

text \<open>
  Claim C9: every filter the Groups page ever sent, in a POST or a PATCH, is read back, once served
  again, as exactly the filter the form held when the request was decided, and no filter as no
  filter.
\<close>

theorem decided_filter_reads_back:
  assumes "gp_reach s" "(path, method, Some body) \<in> set (gp_sent s)" "method \<in> {js ''POST'', js ''PATCH''}"
    "objGet (js ''tool_filter'') body = Some v"
  shows "\<exists>f c. LDecided method body f c \<in> set (gp_log s) \<and> parseToolFilter v = (if ff_mode f = NoMode then PNone else PFilter f)"
proof -
  obtain i f c where "i < length (gp_log s)" "gp_log s ! i = LDecided method body f c" "savable (LDecided method body f c)"
    using sent_decided [OF assms(1,2,3)] by blast
  then show ?thesis using assms(4) by (auto simp: objHas_objGet in_set_conv_nth)
qed

theorem decided_filter_reads_back_witness:
  "parseToolFilter (filterValue \<lparr>ff_mode = DenyMode, ff_tools = [js ''x''], ff_prefixes = []\<rparr>) =
     PFilter \<lparr>ff_mode = DenyMode, ff_tools = [js ''x''], ff_prefixes = []\<rparr>"
proof -
  let ?f = "\<lparr>ff_mode = DenyMode, ff_tools = [js ''x''], ff_prefixes = []\<rparr>"
  have "objGet (js ''tool_filter'') (groupCreateBody (gp_form toldRun)) = Some (filterValue ?f)" by code_simp
  from decided_filter_reads_back [OF blocksRun_reach blocksRun_sent _ this]
  obtain f c where f: "LDecided (js ''POST'') (groupCreateBody (gp_form toldRun)) f c \<in> set (gp_log blocksRun)"
    "parseToolFilter (filterValue ?f) = (if ff_mode f = NoMode then PNone else PFilter f)" by blast
  have "f = ?f" using f(1) unfolding blocksRun_log toldRun_sel(6) by simp
  with f(2) show ?thesis by simp
qed

end
