(* ===== verification/Clients.thy ===== *)
theory Clients
  imports Json Slug
begin

text \<open>
  The install snippets: \<open>web/src/lib/clients.ts\<close>.

  One snippet per client over the endpoints of a key. \<open>tomlKeys\<close> names the tables of the Codex
  file; its inner loop bumps a suffix until the key is free, and terminates because only
  finitely many keys are taken. The lemmas show that the table names are distinct whatever the
  server names are, that a server whose name is free keeps it, that the MCP client configs do
  not depend on the HTTP API entries, and that the Codex file never holds the key.
\<close>

datatype client_kind = ClaudeCode | Cursor | Codex | OpenCode | Gemini | Curl

datatype server_kind = McpServer | HttpServer

record snippet_server =
  sv_name :: jstr
  sv_url :: jstr
  sv_kind :: "server_kind option"
  sv_testPath :: "jstr option"

definition HTTP_CURL_HINT :: jstr where
  "HTTP_CURL_HINT = js ''Replace the path after /api/ with any path the API serves. An SDK takes this endpoint as its base URL and the key as its API key. Send the key as a bearer token or in X-Api-Key.''"

definition isHTTP :: "snippet_server \<Rightarrow> bool" where
  "isHTTP s \<longleftrightarrow> sv_kind s = Some HttpServer"

definition clientLabels :: "client_kind \<Rightarrow> jstr" where
  "clientLabels k = (case k of ClaudeCode \<Rightarrow> js ''Claude Code'' | Cursor \<Rightarrow> js ''Cursor'' | Codex \<Rightarrow> js ''Codex''
     | OpenCode \<Rightarrow> js ''OpenCode'' | Gemini \<Rightarrow> js ''Gemini CLI'' | Curl \<Rightarrow> js ''curl'')"

section \<open>TOML table keys\<close>

definition suffixed :: "jstr \<Rightarrow> nat \<Rightarrow> jstr" where
  "suffixed base n = base @ js ''_'' @ showNat n"

lemma suffixed_inject [simp]: "suffixed base m = suffixed base n \<longleftrightarrow> m = n"
  by (simp add: suffixed_def)

lemma finite_taken: "finite {m. n \<le> m \<and> suffixed base m \<in> set used}"
proof (rule finite_imageD)
  show "finite (suffixed base ` {m. n \<le> m \<and> suffixed base m \<in> set used})"
    by (rule finite_subset [of _ "set used"]) auto
  show "inj_on (suffixed base) {m. n \<le> m \<and> suffixed base m \<in> set used}"
    by (rule inj_onI) simp
qed

text \<open>The \<open>for (let n = 2; used.has(key); n++)\<close> loop once \<open>base\<close> itself is taken.\<close>

function freeKey :: "jstr list \<Rightarrow> jstr \<Rightarrow> nat \<Rightarrow> jstr" where
  "freeKey used base n =
     (if suffixed base n \<in> set used then freeKey used base (Suc n) else suffixed base n)"
  by pat_completeness auto

termination
proof (relation "measure (\<lambda>(used, base, n). card {m. n \<le> m \<and> suffixed base m \<in> set used})")
  fix used base n
  assume taken: "suffixed base n \<in> set used"
  have "{m. Suc n \<le> m \<and> suffixed base m \<in> set used} \<subset> {m. n \<le> m \<and> suffixed base m \<in> set used}"
    (is "?A \<subset> ?B")
  proof
    show "?A \<subseteq> ?B" by auto
    have "n \<in> ?B" "n \<notin> ?A" using taken by auto
    then show "?A \<noteq> ?B" by blast
  qed
  then show "((used, base, Suc n), used, base, n) \<in> measure (\<lambda>(used, base, n). card {m. n \<le> m \<and> suffixed base m \<in> set used})"
    by (simp add: psubset_card_mono finite_taken)
qed simp

declare freeKey.simps [simp del]

definition pickKey :: "jstr list \<Rightarrow> jstr \<Rightarrow> jstr" where
  "pickKey used base = (if base \<in> set used then freeKey used base 2 else base)"

definition tomlBase :: "jstr \<Rightarrow> jstr" where
  "tomlBase name = map (\<lambda>c. if c = 0x2d then 0x5f else c) name"

fun tomlKeysFrom :: "jstr list \<Rightarrow> snippet_server list \<Rightarrow> jstr list" where
  "tomlKeysFrom used [] = []"
| "tomlKeysFrom used (s # ss) =
     (let key = pickKey used (tomlBase (sv_name s)) in key # tomlKeysFrom (key # used) ss)"

definition tomlKeys :: "snippet_server list \<Rightarrow> jstr list" where
  "tomlKeys servers = tomlKeysFrom [] servers"

section \<open>Snippets\<close>

definition NL :: jstr where
  "NL = [0x0a]"

text \<open>A literal with one backslash or double quote in it, which Isabelle strings do not hold.\<close>

definition dq :: jstr where "dq = [0x22]"
definition backslash :: jstr where "backslash = [0x5c]"

definition authHeader :: "jstr \<Rightarrow> jstr" where
  "authHeader apiKey = js ''Authorization: Bearer '' @ apiKey"

definition authObject :: "jstr \<Rightarrow> jval" where
  "authObject apiKey = JObj [(js ''Authorization'', JStr (js ''Bearer '' @ apiKey))]"

definition serverObject :: "(snippet_server \<Rightarrow> jobj) \<Rightarrow> snippet_server list \<Rightarrow> jval" where
  "serverObject members servers = JObj (fromEntries (map (\<lambda>s. (sv_name s, JObj (members s))) servers))"

definition claudeLine :: "jstr \<Rightarrow> snippet_server \<Rightarrow> jstr" where
  "claudeLine apiKey s = js ''claude mcp add --transport http '' @ sv_name s @ js '' '' @ sv_url s @ js '' --header '' @
     dq @ authHeader apiKey @ dq"

definition codexTable :: "jstr \<Rightarrow> snippet_server \<Rightarrow> jstr" where
  "codexTable key s = joinWith NL [js ''[mcp_servers.'' @ key @ js '']'', js ''url = '' @ dq @ sv_url s @ dq,
     js ''bearer_token_env_var = '' @ dq @ js ''PORYMCP_KEY'' @ dq]"

definition codexFile :: "snippet_server list \<Rightarrow> jstr" where
  "codexFile servers = joinWith (NL @ NL) (map2 codexTable (tomlKeys servers) servers)"

definition curlMcp :: "jstr \<Rightarrow> bool \<Rightarrow> snippet_server \<Rightarrow> jstr" where
  "curlMcp apiKey labelled s = joinWith NL
     ((if labelled then [js ''# '' @ sv_name s] else []) @
      [js ''curl -sS -X POST '' @ sv_url s @ js '' '' @ backslash,
       js ''  -H '' @ dq @ authHeader apiKey @ dq @ js '' '' @ backslash,
       js ''  -H '' @ dq @ js ''Content-Type: application/json'' @ dq @ js '' '' @ backslash,
       js ''  -H '' @ dq @ js ''Accept: application/json, text/event-stream'' @ dq @ js '' '' @ backslash,
       js ''  -d '' @ [0x27] @ js ''{'' @ dq @ js ''jsonrpc'' @ dq @ js '':'' @ dq @ js ''2.0'' @ dq @ js '','' @ dq @ js ''id'' @ dq @
         js '':1,'' @ dq @ js ''method'' @ dq @ js '':'' @ dq @ js ''tools/list'' @ dq @ js '','' @ dq @ js ''params'' @ dq @ js '':{}}'' @ [0x27]])"

text \<open>\<open>.replace(/^\//, '')\<close>.\<close>

definition dropSlash :: "jstr \<Rightarrow> jstr" where
  "dropSlash s = (case s of c # cs \<Rightarrow> if c = 0x2f then cs else s | [] \<Rightarrow> [])"

definition curlHttp :: "jstr \<Rightarrow> bool \<Rightarrow> snippet_server \<Rightarrow> jstr" where
  "curlHttp apiKey labelled s = joinWith NL
     ((if labelled then [js ''# '' @ sv_name s] else []) @
      [js ''curl -sS '' @ [0x27] @ sv_url s @ dropSlash (orElse (sv_testPath s) []) @ [0x27] @ js '' '' @ backslash,
       js ''  -H '' @ dq @ authHeader apiKey @ dq])"

definition clientSnippet :: "client_kind \<Rightarrow> snippet_server list \<Rightarrow> jstr \<Rightarrow> jstr" where
  "clientSnippet kind all apiKey =
     (let servers = filter (\<lambda>s. \<not> isHTTP s) all; apis = filter isHTTP all in
      if kind \<noteq> Curl \<and> length servers = 0 then []
      else if kind = Curl \<and> length all = 0 then []
      else (case kind of
        ClaudeCode \<Rightarrow> joinWith NL (map (claudeLine apiKey) servers)
      | Cursor \<Rightarrow> stringify2 (JObj [(js ''mcpServers'',
          serverObject (\<lambda>s. [(js ''url'', JStr (sv_url s)), (js ''headers'', authObject apiKey)]) servers)])
      | Codex \<Rightarrow> joinWith NL [js ''# In the shell that launches Codex:'',
          js ''export PORYMCP_KEY='' @ [0x27] @ apiKey @ [0x27], [], js ''# ~/.codex/config.toml'', codexFile servers]
      | OpenCode \<Rightarrow> stringify2 (JObj [(js ''$schema'', JStr (js ''https://opencode.ai/config.json'')), (js ''mcp'',
          serverObject (\<lambda>s. [(js ''type'', JStr (js ''remote'')), (js ''url'', JStr (sv_url s)), (js ''oauth'', JBool False),
            (js ''headers'', authObject apiKey)]) servers)])
      | Gemini \<Rightarrow> stringify2 (JObj [(js ''mcpServers'',
          serverObject (\<lambda>s. [(js ''httpUrl'', JStr (sv_url s)), (js ''headers'', authObject apiKey)]) servers)])
      | Curl \<Rightarrow> (let labelled = length all > 1 in
          joinWith (NL @ NL) (map (curlMcp apiKey labelled) servers @ map (curlHttp apiKey labelled) apis))))"

text \<open>\<open>shape\<close> is the pair of its two optional members.\<close>

definition clientHint :: "client_kind \<Rightarrow> bool option \<Rightarrow> bool option \<Rightarrow> jstr" where
  "clientHint kind shapeMcp shapeHttp =
     (let http = orElse shapeHttp False in
      case kind of
        Curl \<Rightarrow> joinWith (js '' '')
          ((if orElse shapeMcp (\<not> http) then [js ''Sanity-check the proxy before wiring a client.''] else []) @
           (if http then [HTTP_CURL_HINT] else []))
      | ClaudeCode \<Rightarrow> js ''Run in a terminal, then /mcp inside Claude Code. Add -s user for every project.''
      | Cursor \<Rightarrow> js ''Merge into .cursor/mcp.json in the project (or your Cursor user MCP config), then reload MCP.''
      | Codex \<Rightarrow> js ''Add to ~/.codex/config.toml and export PORYMCP_KEY in the shell that launches Codex.''
      | OpenCode \<Rightarrow> js ''Merge into opencode.json. oauth must be false so OpenCode does not start an OAuth flow.''
      | Gemini \<Rightarrow> js ''Merge into Gemini CLI settings.json (mcpServers).'')"

section \<open>Laws\<close>

lemma freeKey_free: "freeKey used base n \<notin> set used"
  by (induction used base n rule: freeKey.induct) (subst freeKey.simps, simp)

lemma freeKey_form: "\<exists>m \<ge> n. freeKey used base n = suffixed base m"
proof (induction used base n rule: freeKey.induct)
  case (1 used base n)
  then show ?case by (subst freeKey.simps) (auto dest: Suc_leD)
qed

lemma pickKey_free: "pickKey used base \<notin> set used"
  by (simp add: pickKey_def freeKey_free)

lemma length_tomlKeysFrom [simp]: "length (tomlKeysFrom used ss) = length ss"
  by (induction used ss rule: tomlKeysFrom.induct) (simp_all add: Let_def)

lemma tomlKeysFrom_distinct: "distinct (tomlKeysFrom used ss) \<and> set (tomlKeysFrom used ss) \<inter> set used = {}"
proof (induction used ss rule: tomlKeysFrom.induct)
  case (2 used s ss)
  let ?key = "pickKey used (tomlBase (sv_name s))"
  have "distinct (tomlKeysFrom (?key # used) ss)" "set (tomlKeysFrom (?key # used) ss) \<inter> set (?key # used) = {}"
    using 2 by blast+
  then show ?case using pickKey_free [of used "tomlBase (sv_name s)"] by (auto simp: Let_def)
qed simp

text \<open>Each key is its server's base name or that name with a counter from 2 up.\<close>

lemma tomlKeysFrom_form:
  "i < length ss \<Longrightarrow> tomlKeysFrom used ss ! i = tomlBase (sv_name (ss ! i)) \<or>
     (\<exists>m \<ge> 2. tomlKeysFrom used ss ! i = suffixed (tomlBase (sv_name (ss ! i))) m)"
proof (induction used ss arbitrary: i rule: tomlKeysFrom.induct)
  case (2 used s ss)
  show ?case
  proof (cases i)
    case 0
    then show ?thesis using freeKey_form [of 2 used "tomlBase (sv_name s)"] by (simp add: Let_def pickKey_def)
  next
    case (Suc j)
    with 2 show ?thesis by (simp add: Let_def)
  qed
qed simp

lemma tomlKeysFrom_names:
  assumes "distinct (map (\<lambda>s. tomlBase (sv_name s)) ss)" "\<forall>s \<in> set ss. tomlBase (sv_name s) \<notin> set used"
  shows "tomlKeysFrom used ss = map (\<lambda>s. tomlBase (sv_name s)) ss"
  using assms
proof (induction used ss rule: tomlKeysFrom.induct)
  case (2 used s ss)
  let ?b = "tomlBase (sv_name s)"
  have "pickKey used ?b = ?b" using "2.prems"(2) by (simp add: pickKey_def)
  moreover have "\<forall>x \<in> set ss. tomlBase (sv_name x) \<notin> set (?b # used)"
    using "2.prems" by (metis (no_types, lifting) distinct.simps(2) image_eqI list.set_intros(2) list.set_map list.simps(9) set_ConsD)
  ultimately show ?case using 2 by (simp add: Let_def)
qed simp

lemma clientSnippet_mcp_only:
  "kind \<noteq> Curl \<Longrightarrow> clientSnippet kind all apiKey = clientSnippet kind (filter (\<lambda>s. \<not> isHTTP s) all) apiKey"
  by (cases kind) (simp_all add: clientSnippet_def Let_def)

lemma clientSnippet_codex:
  assumes "filter (\<lambda>s. \<not> isHTTP s) all \<noteq> []"
  shows "clientSnippet Codex all apiKey =
    js ''# In the shell that launches Codex:'' @ NL @ js ''export PORYMCP_KEY='' @ [0x27] @ apiKey @ [0x27] @ NL @ NL @
    js ''# ~/.codex/config.toml'' @ NL @ codexFile (filter (\<lambda>s. \<not> isHTTP s) all)"
  using assms by (simp add: clientSnippet_def Let_def)

lemma serverObject_entry:
  assumes "distinct (map sv_name servers)" "s \<in> set servers"
  shows "\<exists>ob. serverObject members servers = JObj ob \<and> objGet (sv_name s) ob = Some (JObj (members s))"
proof -
  let ?es = "map (\<lambda>s. (sv_name s, JObj (members s))) servers"
  have "distinct (map fst (rev ?es))" using assms(1) by (simp add: comp_def rev_map [symmetric])
  moreover have "(sv_name s, JObj (members s)) \<in> set (rev ?es)" using assms(2) by auto
  ultimately have "map_of (rev ?es) (sv_name s) = Some (JObj (members s))" by (rule map_of_is_SomeI)
  then show ?thesis by (simp add: serverObject_def objGet_fromEntries)
qed

lemma stringify2_obj: "stringify2 (JObj ms) \<noteq> []"
  by (simp add: stringify2_def bracket_def Let_def)

text \<open>A snippet is empty exactly when it has no endpoint to print.\<close>

lemma clientSnippet_json_empty:
  assumes "kind \<in> {Cursor, OpenCode, Gemini}"
  shows "clientSnippet kind all apiKey = [] \<longleftrightarrow> (\<forall>s \<in> set all. isHTTP s)"
proof (cases "filter (\<lambda>s. \<not> isHTTP s) all = []")
  case True
  then show ?thesis using assms by (auto simp: clientSnippet_def Let_def filter_empty_conv)
next
  case False
  then have "clientSnippet kind all apiKey \<noteq> []"
    using assms by (auto simp: clientSnippet_def Let_def stringify2_obj)
  with False show ?thesis by (auto simp: filter_empty_conv)
qed

section \<open>Properties\<close>

text \<open>
  The tables of the Codex snippet have one name per server, all different, each the table name of
  the server or that name with a number of 2 or more.
\<close>

theorem codex_tables_named_apart:
  "distinct (tomlKeys servers) \<and> length (tomlKeys servers) = length servers \<and>
   list_all2 (\<lambda>k s. k = tomlBase (sv_name s) \<or> (\<exists>m \<ge> 2. k = suffixed (tomlBase (sv_name s)) m)) (tomlKeys servers) servers"
  using tomlKeysFrom_distinct tomlKeysFrom_form by (auto simp: tomlKeys_def list_all2_conv_all_nth)

theorem codex_tables_named_apart_witness:
  "distinct (tomlKeys (replicate 2 \<lparr>sv_name = js ''a'', sv_url = js ''u'', sv_kind = None, sv_testPath = None\<rparr>))"
  using codex_tables_named_apart by blast

end
