(* ===== verification/ConnectDialog.thy ===== *)
theory ConnectDialog
  imports Clients KeyForm
begin

text \<open>
  The endpoints of a key: the Endpoint column and the Copy this key now dialog of
  \<open>web/src/app/(app)/virtual-keys/page.tsx\<close>.

  A key's doors are of two kinds. The MCP endpoints take a connection shape (one server per
  upstream, or the aggregate URL) and the client configs; the HTTP API endpoints are listed on
  their own and appear in the curl snippet only. The lemmas show that a client on offer always
  has something to print, so the snippet is empty only for want of a key or an address, and that
  the column names the door to hand out.
\<close>

datatype connection_mode = PerServer | Aggregate

definition mcpEndpoints :: "virtual_key \<Rightarrow> endpoint list" where
  "mcpEndpoints vk = filter (\<lambda>e. ep_kind e \<noteq> js ''http'') (vk_endpoints vk)"

definition httpEndpoints :: "virtual_key \<Rightarrow> endpoint list" where
  "httpEndpoints vk = filter (\<lambda>e. ep_kind e = js ''http'') (vk_endpoints vk)"

definition splitAvailable :: "virtual_key \<Rightarrow> bool" where
  "splitAvailable vk =
     (let eps = mcpEndpoints vk in
      if length eps = 0 then False else \<not> (length eps = 1 \<and> Some (ep_url (hd eps)) = vk_proxy_url vk))"

section \<open>The Endpoint column\<close>

definition endpointLine :: "virtual_key \<Rightarrow> jstr" where
  "endpointLine vk =
     (if length (mcpEndpoints vk) = 0 \<and> length (vk_endpoints vk) > 0 then ep_url (hd (vk_endpoints vk))
      else orElse (vk_proxy_url vk) [])"

definition endpointExtra :: "virtual_key \<Rightarrow> jstr" where
  "endpointExtra vk =
     (let mcp = int (length (mcpEndpoints vk)); http = int (length (vk_endpoints vk)) - mcp;
          extraHTTP = (if mcp = 0 then http - 1 else http)
      in joinWith (js '', '')
           ((if mcp > 1 then [js ''+'' @ showInt mcp @ js '' per-server''] else []) @
            (if extraHTTP > 0 then [js ''+'' @ showInt extraHTTP @ js '' HTTP API''] else [])))"

definition memberNames :: "endpoint list \<Rightarrow> jstr" where
  "memberNames endpoints =
     (let names = map ep_name endpoints in
      if length names \<le> 2 then joinWith (js '' and '') names
      else names ! 0 @ js '', '' @ names ! 1 @ js '' and '' @ showNat (length names - 2) @ js '' more'')"

definition separateSummary :: "endpoint list \<Rightarrow> jstr" where
  "separateSummary endpoints =
     (let names = memberNames endpoints in
      if length endpoints = 1 then js ''Recommended. Your client sees one server, '' @ names @ js '', with its own tools.''
      else js ''Recommended. Your client sees '' @ showNat (length endpoints) @ js '' servers, '' @ names @ js '', each with its own tools.'')"

section \<open>The dialog\<close>

definition effectiveMode :: "virtual_key \<Rightarrow> connection_mode \<Rightarrow> connection_mode" where
  "effectiveMode vk mode = (if splitAvailable vk then mode else Aggregate)"

definition mcpServers :: "virtual_key \<Rightarrow> connection_mode \<Rightarrow> snippet_server list" where
  "mcpServers vk mode =
     (if \<not> mcpDoorShown vk then []
      else if effectiveMode vk mode = PerServer
      then map (\<lambda>e. \<lparr>sv_name = ep_slug e, sv_url = ep_url e, sv_kind = None, sv_testPath = None\<rparr>) (mcpEndpoints vk)
      else [\<lparr>sv_name = slugName (vk_name vk), sv_url = orElse (vk_proxy_url vk) [], sv_kind = None, sv_testPath = None\<rparr>])"

definition httpServers :: "upstream list \<Rightarrow> virtual_key \<Rightarrow> snippet_server list" where
  "httpServers us vk =
     map (\<lambda>e. \<lparr>sv_name = ep_slug e, sv_url = ep_url e, sv_kind = Some HttpServer,
                sv_testPath = (case List.find (\<lambda>u. u_id u = ep_upstream_id e) us of Some u \<Rightarrow> u_test_path u | None \<Rightarrow> None)\<rparr>)
       (httpEndpoints vk)"

definition allClients :: "client_kind list" where
  "allClients = [ClaudeCode, Cursor, Codex, OpenCode, Gemini, Curl]"

definition clientKinds :: "virtual_key \<Rightarrow> client_kind list" where
  "clientKinds vk = (if mcpDoorShown vk then allClients else [Curl])"

definition effectiveClient :: "virtual_key \<Rightarrow> client_kind \<Rightarrow> client_kind" where
  "effectiveClient vk client = (if client \<in> set (clientKinds vk) then client else Curl)"

definition keySnippet :: "upstream list \<Rightarrow> virtual_key \<Rightarrow> connection_mode \<Rightarrow> client_kind \<Rightarrow> jstr" where
  "keySnippet us vk mode client =
     (let servers = mcpServers vk mode @ httpServers us vk; apiKey = orElse (vk_api_key vk) [] in
      if apiKey \<noteq> [] \<and> length servers > 0 \<and> list_all (\<lambda>s. sv_url s \<noteq> []) servers
      then clientSnippet (effectiveClient vk client) servers apiKey else [])"

definition snippetRows :: "nat \<Rightarrow> int" where
  "snippetRows n = min 24 (8 + max 0 (int n - 1) * 5)"

definition snippetHint :: "upstream list \<Rightarrow> virtual_key \<Rightarrow> connection_mode \<Rightarrow> client_kind \<Rightarrow> jstr" where
  "snippetHint us vk mode client =
     clientHint (effectiveClient vk client) (Some (length (mcpServers vk mode) > 0)) (Some (length (httpServers us vk) > 0))"

text \<open>The HTTP API rows: a key on a disabled HTTP API upstream has no entry yet, and its \<open>proxy_url\<close> is
  the one to hand out.\<close>

definition httpRows :: "upstream list \<Rightarrow> virtual_key \<Rightarrow> (jstr \<times> jstr \<times> jstr) list" where
  "httpRows us vk =
     (if length (httpEndpoints vk) > 0 \<or> \<not> mcpDoorShown vk
      then (if length (httpEndpoints vk) > 0 then map (\<lambda>e. (ep_upstream_id e, ep_name e, ep_url e)) (httpEndpoints vk)
            else [(vk_target_id vk,
                   case List.find (\<lambda>u. u_id u = vk_target_id vk) us of Some u \<Rightarrow> u_name u | None \<Rightarrow> js ''Upstream'',
                   orElse (vk_proxy_url vk) [])])
      else [])"

section \<open>Laws\<close>

lemma mcpServers_shown: "mcpServers vk mode \<noteq> [] \<longleftrightarrow> mcpDoorShown vk"
  by (auto simp: mcpServers_def effectiveMode_def splitAvailable_def Let_def split: if_splits)

lemma mcpServers_kind: "s \<in> set (mcpServers vk mode) \<Longrightarrow> \<not> isHTTP s"
  by (auto simp: mcpServers_def isHTTP_def split: if_splits)

lemma httpServers_kind: "s \<in> set (httpServers us vk) \<Longrightarrow> isHTTP s"
  by (auto simp: httpServers_def isHTTP_def)

lemma joinWith_nonempty: "x \<in> set xs \<Longrightarrow> x \<noteq> [] \<Longrightarrow> joinWith sep xs \<noteq> []"
  by (induction sep xs rule: joinWith.induct) auto

text \<open>A client config over a list with an MCP server in it prints something, and so does curl over any list.\<close>

lemma clientSnippet_prints:
  assumes "kind = Curl \<and> all \<noteq> [] \<or> (\<exists>s \<in> set all. \<not> isHTTP s)"
  shows "clientSnippet kind all apiKey \<noteq> []"
proof (cases kind)
  case ClaudeCode
  with assms obtain s where s: "s \<in> set (filter (\<lambda>s. \<not> isHTTP s) all)" by auto
  then have "joinWith NL (map (claudeLine apiKey) (filter (\<lambda>s. \<not> isHTTP s) all)) \<noteq> []"
    by (intro joinWith_nonempty [of "claudeLine apiKey s"]) (auto simp: claudeLine_def)
  with s ClaudeCode show ?thesis by (auto simp: clientSnippet_def Let_def filter_empty_conv)
next
  case Codex
  with assms have "filter (\<lambda>s. \<not> isHTTP s) all \<noteq> []" by (auto simp: filter_empty_conv)
  from clientSnippet_codex [OF this] Codex show ?thesis by simp
next
  case Curl
  let ?l = "length all > 1"
  let ?parts = "map (curlMcp apiKey ?l) (filter (\<lambda>s. \<not> isHTTP s) all) @ map (curlHttp apiKey ?l) (filter isHTTP all)"
  from assms obtain s where s: "s \<in> set all" by (cases all) auto
  obtain x where "x \<in> set ?parts" "x \<noteq> []"
  proof (cases "isHTTP s")
    case True
    with s that [of "curlHttp apiKey ?l s"] show thesis by (simp add: curlHttp_def)
  next
    case False
    with s that [of "curlMcp apiKey ?l s"] show thesis by (simp add: curlMcp_def)
  qed
  from joinWith_nonempty [OF this, of "NL @ NL"] s Curl show ?thesis by (auto simp: clientSnippet_def Let_def)
qed (use assms clientSnippet_json_empty [of kind all apiKey] in auto)

lemma keySnippet_prints:
  assumes "orElse (vk_api_key vk) [] \<noteq> []" "mcpServers vk mode @ httpServers us vk \<noteq> []"
    "\<forall>s \<in> set (mcpServers vk mode @ httpServers us vk). sv_url s \<noteq> []"
  shows "keySnippet us vk mode client \<noteq> []"
proof -
  let ?all = "mcpServers vk mode @ httpServers us vk"
  have "effectiveClient vk client = Curl \<and> ?all \<noteq> [] \<or> (\<exists>s \<in> set ?all. \<not> isHTTP s)"
  proof (cases "mcpDoorShown vk")
    case True
    then obtain s where "s \<in> set (mcpServers vk mode)" using mcpServers_shown [of vk mode] by (cases "mcpServers vk mode") auto
    then show ?thesis using mcpServers_kind by fastforce
  next
    case False
    then have "effectiveClient vk client = Curl" by (simp add: effectiveClient_def clientKinds_def)
    with assms(2) show ?thesis by simp
  qed
  from clientSnippet_prints [OF this] assms show ?thesis by (simp add: keySnippet_def Let_def list_all_iff)
qed

text \<open>The Separate servers radio counts every endpoint of the key, the HTTP APIs too, and the shape it
  describes leaves them out.\<close>

lemma separate_summary_counts_apis:
  assumes "mcpEndpoints vk = [a]" "httpEndpoints vk = [b]" "vk_endpoints vk = [a, b]" "splitAvailable vk" "mcpDoorShown vk"
  shows "length (mcpServers vk PerServer) = 1"
    and "separateSummary (vk_endpoints vk) = js ''Recommended. Your client sees 2 servers, '' @ ep_name a @ js '' and '' @ ep_name b @ js '', each with its own tools.''"
proof -
  show "length (mcpServers vk PerServer) = 1" using assms by (simp add: mcpServers_def effectiveMode_def)
  have "showNat 2 = js ''2''" by code_simp
  then have "js ''Recommended. Your client sees '' @ showNat 2 @ js '' servers, '' = js ''Recommended. Your client sees 2 servers, ''"
    by (simp add: js_append [symmetric])
  moreover have "separateSummary [a, b] = (js ''Recommended. Your client sees '' @ showNat 2 @ js '' servers, '') @ ep_name a @ js '' and '' @
      ep_name b @ js '', each with its own tools.''"
    by (simp add: separateSummary_def memberNames_def Let_def numeral_2_eq_2 [symmetric])
  ultimately show "separateSummary (vk_endpoints vk) =
      js ''Recommended. Your client sees 2 servers, '' @ ep_name a @ js '' and '' @ ep_name b @ js '', each with its own tools.''"
    using assms(3) by (simp only:)
qed

section \<open>Properties\<close>

text \<open>
  The snippet of the dialog that shows a new key is empty exactly when there is no key, no server
  or a server without an address: a client that is offered always prints a configuration.
\<close>

theorem offered_client_prints:
  "keySnippet us vk mode client \<noteq> [] \<longleftrightarrow> orElse (vk_api_key vk) [] \<noteq> [] \<and>
     mcpServers vk mode @ httpServers us vk \<noteq> [] \<and> (\<forall>s \<in> set (mcpServers vk mode @ httpServers us vk). sv_url s \<noteq> [])"
  using keySnippet_prints [of vk mode us client] by (auto simp: keySnippet_def Let_def list_all_iff split: if_splits)

theorem offered_client_prints_witness:
  "keySnippet [] (\<lparr>vk_id = js ''1'', vk_name = js ''k'', vk_key_prefix = [], vk_target_type = js ''group'', vk_target_id = js ''1'', vk_rate_limit = Some 60, vk_expires_at = None, vk_status = js ''active'', vk_last_used_at = None, vk_created_at = [], vk_api_key = None, vk_proxy_url = None, vk_tool_allowlist = None, vk_tool_denylist = None, vk_lists_malformed = False, vk_http_methods = None, vk_http_methods_malformed = False, vk_endpoints = []\<rparr>) PerServer Cursor = []"
proof -
  have "orElse (vk_api_key (\<lparr>vk_id = js ''1'', vk_name = js ''k'', vk_key_prefix = [], vk_target_type = js ''group'', vk_target_id = js ''1'', vk_rate_limit = Some 60, vk_expires_at = None, vk_status = js ''active'', vk_last_used_at = None, vk_created_at = [], vk_api_key = None, vk_proxy_url = None, vk_tool_allowlist = None, vk_tool_denylist = None, vk_lists_malformed = False, vk_http_methods = None, vk_http_methods_malformed = False, vk_endpoints = []\<rparr>)) [] = []" by code_simp
  then show ?thesis using offered_client_prints [of "[]" "\<lparr>vk_id = js ''1'', vk_name = js ''k'', vk_key_prefix = [], vk_target_type = js ''group'', vk_target_id = js ''1'', vk_rate_limit = Some 60, vk_expires_at = None, vk_status = js ''active'', vk_last_used_at = None, vk_created_at = [], vk_api_key = None, vk_proxy_url = None, vk_tool_allowlist = None, vk_tool_denylist = None, vk_lists_malformed = False, vk_http_methods = None, vk_http_methods_malformed = False, vk_endpoints = []\<rparr>" PerServer Cursor] by blast
qed

end
