(* ===== verification/PolicyView.thy ===== *)
theory PolicyView
  imports KeyForm Slug
begin

text \<open>
  The Policy dialog's rules and copy: \<open>web/src/lib/policy-view.ts\<close>.

  The verdicts are the server's; the lemmas show that the dialog never hides or softens one: a
  rule that refused a call always has its block on screen, an unreadable rule is named before
  the value beside it is read, and the sentences for a target that is gone and for an empty
  group never appear together.
\<close>

section \<open>The wire type\<close>

record group_policy =
  gp_group_id :: jstr
  gp_group_name :: jstr
  gp_tool_filter :: jval
  gp_malformed :: bool

record egress_view =
  eg_allow_loopback :: bool
  eg_deny_private :: bool

record blocked_view =
  bl_since :: jstr
  bl_until :: jstr
  bl_by_rule :: "jstr \<rightharpoonup> nat"
  bl_upstream_address_denied :: nat
  bl_upstream_address_denied_by_class :: "jstr \<rightharpoonup> nat"

record policy_view =
  pv_virtual_key_id :: jstr
  pv_status :: jstr
  pv_target_type :: jstr
  pv_target_slug :: jstr
  pv_target_kinds :: "jstr list"
  pv_order :: "jstr list"
  pv_key_denylist :: "jstr list option"
  pv_key_allowlist :: "jstr list option"
  pv_lists_malformed :: bool
  pv_group_tool_filter :: "group_policy option"
  pv_http_methods :: "jstr list option"
  pv_http_methods_malformed :: bool
  pv_egress :: egress_view
  pv_blocked :: blocked_view

section \<open>Blocks\<close>

datatype policy_block = McpBlock | HttpBlock | OutboundBlock

definition MCP_RULES :: "jstr list" where
  "MCP_RULES = [js ''key_denylist'', js ''key_allowlist'', js ''key_lists_unreadable'', js ''group_tool_filter'',
     js ''group_tool_filter_unreadable'']"

definition HTTP_RULES :: "jstr list" where
  "HTTP_RULES = [js ''http_methods'', js ''http_methods_unreadable'']"

definition PERIOD_TEXT :: jstr where
  "PERIOD_TEXT = js ''in the last 7 days''"

definition blockedLine :: "nat \<Rightarrow> jstr" where
  "blockedLine n = (if n = 0 then js ''Blocked no calls '' @ PERIOD_TEXT @ js ''.''
     else js ''Blocked '' @ plural n (js ''call'') @ js '' '' @ PERIOD_TEXT @ js ''.'')"

definition ruleCount :: "policy_view \<Rightarrow> jstr \<Rightarrow> nat" where
  "ruleCount view i = orElse (bl_by_rule (pv_blocked view) i) 0"

definition anyCount :: "policy_view \<Rightarrow> jstr list \<Rightarrow> bool" where
  "anyCount view ids = list_ex (\<lambda>i. ruleCount view i > 0) ids"

definition visibleBlocks :: "policy_view \<Rightarrow> policy_block list" where
  "visibleBlocks view =
     (if js ''mcp'' \<in> set (pv_target_kinds view) \<or> anyCount view MCP_RULES then [McpBlock] else []) @
     (if js ''http'' \<in> set (pv_target_kinds view) \<or> anyCount view HTTP_RULES then [HttpBlock] else []) @
     [OutboundBlock]"

definition shownForCountsOnly :: "policy_view \<Rightarrow> policy_block \<Rightarrow> bool" where
  "shownForCountsOnly view block =
     (case block of
        McpBlock \<Rightarrow> js ''mcp'' \<notin> set (pv_target_kinds view)
      | HttpBlock \<Rightarrow> js ''http'' \<notin> set (pv_target_kinds view)
      | OutboundBlock \<Rightarrow> False)"

definition COUNTS_ONLY_NOTE :: jstr where
  "COUNTS_ONLY_NOTE = js ''This key has no such endpoint now; the counts are from earlier calls.''"

definition GROUP_GONE_SENTENCE :: jstr where
  "GROUP_GONE_SENTENCE = js ''The group this key targets no longer exists, so every call on it fails.''"

definition UPSTREAM_GONE_SENTENCE :: jstr where
  "UPSTREAM_GONE_SENTENCE = js ''The upstream this key targets no longer exists, so every call on it fails.''"

definition targetGoneSentence :: "policy_view \<Rightarrow> jstr option" where
  "targetGoneSentence view =
     (if pv_target_type view = js ''group'' then
        (if pv_group_tool_filter view = None then Some GROUP_GONE_SENTENCE else None)
      else if pv_target_slug view = [] then Some UPSTREAM_GONE_SENTENCE else None)"

definition emptyGroupSentence :: "policy_view \<Rightarrow> jstr option" where
  "emptyGroupSentence view =
     (case pv_group_tool_filter view of
        None \<Rightarrow> None
      | Some g \<Rightarrow>
          if pv_target_type view \<noteq> js ''group'' \<or> length (pv_target_kinds view) > 0 then None
          else Some (js ''The group '' @ gp_group_name g @ js '' has no members, so no call on this key reaches an upstream.''))"

datatype lists_state = ListsUnreadable | ListsShown

definition keyListsState :: "policy_view \<Rightarrow> lists_state" where
  "keyListsState view = (if pv_lists_malformed view then ListsUnreadable else ListsShown)"

definition unreadableLine :: "nat \<Rightarrow> jstr option" where
  "unreadableLine n = (if n = 0 then None
     else Some (js ''Blocked '' @ plural n (js ''call'') @ js '' '' @ PERIOD_TEXT @ js '' while the stored value could not be read.''))"

definition earlierLine :: "nat \<Rightarrow> jstr option" where
  "earlierLine n = (if n = 0 then None
     else Some (js ''Blocked '' @ plural n (js ''call'') @ js '' '' @ PERIOD_TEXT @ js '' under the entries stored before.''))"

definition listEmptySentence :: "rule_side \<Rightarrow> jstr" where
  "listEmptySentence side =
     (if side = DenySide then js ''No entries. This list blocks nothing.'' else js ''No entries. Every tool passes this list.'')"

definition methodsSentence :: "jstr list option \<Rightarrow> bool \<Rightarrow> (badge_tone \<times> jstr) option" where
  "methodsSentence methods malformed =
     (if malformed then Some (PinkTone, METHODS_UNREADABLE_SENTENCE)
      else if methods = Some [] then Some (ZincTone, js ''Every method is allowed.'')
      else None)"

definition ALWAYS_REFUSED_SENTENCE :: jstr where
  "ALWAYS_REFUSED_SENTENCE = js ''Cloud metadata, link-local, multicast and unspecified addresses are always refused.''"

text \<open>The loopback sentence, then the private one.\<close>

definition egressSentences :: "egress_view \<Rightarrow> jstr \<times> jstr" where
  "egressSentences egress =
     (if eg_allow_loopback egress then js ''Loopback addresses are allowed by UPSTREAM_ALLOW_LOOPBACK.''
      else js ''Loopback addresses are refused. Set UPSTREAM_ALLOW_LOOPBACK to allow them.'',
      if eg_deny_private egress then js ''Private addresses are refused by UPSTREAM_DENY_PRIVATE.''
      else js ''Private addresses are allowed. Set UPSTREAM_DENY_PRIVATE to refuse them.'')"

definition alwaysRefusedCount :: "policy_view \<Rightarrow> nat" where
  "alwaysRefusedCount view =
     (let c = bl_upstream_address_denied_by_class (pv_blocked view) in
      orElse (c (js ''metadata'')) 0 + orElse (c (js ''link-local'')) 0 + orElse (c (js ''multicast'')) 0 +
      orElse (c (js ''unspecified'')) 0)"

definition statusLine :: "jstr \<Rightarrow> jstr option" where
  "statusLine status =
     (if status = js ''revoked'' then Some (js ''This key is revoked. Its rules no longer run, and the counts stop at revocation.'')
      else if status = js ''expired'' then Some (js ''This key has expired. Its rules no longer run, and the counts stop at expiry.'')
      else None)"

section \<open>Laws\<close>

lemma anyCount_iff: "anyCount view ids \<longleftrightarrow> (\<exists>i \<in> set ids. ruleCount view i > 0)"
  by (simp add: anyCount_def list_ex_iff)

lemma visibleBlocks_iff:
  "McpBlock \<in> set (visibleBlocks view) \<longleftrightarrow>
     js ''mcp'' \<in> set (pv_target_kinds view) \<or> (\<exists>i \<in> set MCP_RULES. ruleCount view i > 0)"
  "HttpBlock \<in> set (visibleBlocks view) \<longleftrightarrow>
     js ''http'' \<in> set (pv_target_kinds view) \<or> (\<exists>i \<in> set HTTP_RULES. ruleCount view i > 0)"
  "OutboundBlock \<in> set (visibleBlocks view)"
  by (auto simp: visibleBlocks_def anyCount_iff)

lemma countsOnly_has_counts:
  "b \<in> set (visibleBlocks view) \<Longrightarrow> shownForCountsOnly view b \<Longrightarrow>
     \<exists>i \<in> set (MCP_RULES @ HTTP_RULES). ruleCount view i > 0"
  by (cases b) (auto simp: visibleBlocks_iff shownForCountsOnly_def)

lemma gone_not_empty: "targetGoneSentence view \<noteq> None \<Longrightarrow> emptyGroupSentence view = None"
  by (auto simp: targetGoneSentence_def emptyGroupSentence_def split: if_splits option.splits)

lemma methodsSentence_open: "methodsSentence methods malformed = Some (ZincTone, s) \<longleftrightarrow>
     \<not> malformed \<and> methods = Some [] \<and> s = js ''Every method is allowed.''"
  by (auto simp: methodsSentence_def)

end
