(* ===== verification/KeysPage.thy ===== *)
theory KeysPage
  imports ConnectDialog PolicyView GroupsPage
begin

text \<open>
  The Virtual keys page's state and handlers: \<open>web/src/app/(app)/virtual-keys/page.tsx\<close>.

  The same machine as the Groups page, with three more dialogs: the secret that is shown once, the
  Policy dialog with its own count (\<open>policySeq\<close>), and the delete question. \<open>Number()\<close> on a text that
  is no integer stays the argument \<open>decNum\<close> of the request bodies.

  Three ghost fields are read by no handler: \<open>kp_sent\<close>, the requests sent; \<open>kp_policyOf\<close>, the key
  the policy on screen was asked for; \<open>kp_marks\<close>, the entries ticked or typed since the form was
  last started or retargeted, each with the target it was made under.

  The lemmas show: a tool list is overwritten only as the last act after a fresh read in which
  that list means what the dialog showed; the Policy dialog never shows one key the policy of
  another; an entry of a create body was made under the target that body names; one request runs
  per dialog; the hook is driven through its own steps and never probes an HTTP API.
\<close>

section \<open>State\<close>

datatype kp_task =
    KLoad
  | KPolicy nat virtual_key
  | KCreate nat
  | KFresh nat virtual_key "list_field list" jobj
  | KSave nat
  | KRotate
  | KRevoke
  | KDelete
  | KCopy jstr
  | KTimer

record kp_state =
  kp_keys :: "virtual_key list"
  kp_upstreams :: "upstream list"
  kp_groups :: "group list"
  kp_open :: bool
  kp_editing :: "virtual_key option"
  kp_saving :: bool
  kp_formError :: jstr
  kp_formErrorSeq :: nat
  kp_openRef :: bool
  kp_dialogSeq :: nat
  kp_catalogueKey :: nat
  kp_secret :: "virtual_key option"
  kp_pendingDelete :: "virtual_key option"
  kp_error :: jstr
  kp_copied :: "jstr option"
  kp_client :: client_kind
  kp_mode :: connection_mode
  kp_form :: key_form
  kp_policyKey :: "virtual_key option"
  kp_policy :: "policy_view option"
  kp_policyError :: jstr
  kp_policySeq :: nat
  kp_hook :: uc_state
  kp_tasks :: "kp_task list"
  kp_sent :: "sent_request list"
  kp_policyOf :: "virtual_key option"
  kp_marks :: "(target_type \<times> jstr \<times> jstr) list"

section \<open>Derived values\<close>

definition targetType :: "kp_state \<Rightarrow> jstr" where
  "targetType s = (case kp_editing s of Some vk \<Rightarrow> vk_target_type vk | None \<Rightarrow> targetStr (kf_target_type (kp_form s)))"

definition targetId :: "kp_state \<Rightarrow> jstr" where
  "targetId s = (case kp_editing s of Some vk \<Rightarrow> vk_target_id vk | None \<Rightarrow> kf_target_id (kp_form s))"

definition groupTarget :: "kp_state \<Rightarrow> bool" where
  "groupTarget s \<longleftrightarrow> targetType s = js ''group''"

definition findGroup :: "group list \<Rightarrow> jstr \<Rightarrow> group option" where
  "findGroup gs i = firstThat (\<lambda>g. g_id g = i) gs"

definition targetIds :: "kp_state \<Rightarrow> jstr list" where
  "targetIds s =
     (if groupTarget s then (case findGroup (kp_groups s) (targetId s) of Some g \<Rightarrow> g_upstream_ids g | None \<Rightarrow> [])
      else if targetId s \<noteq> [] then [targetId s] else [])"

definition membersK :: "kp_state \<Rightarrow> member list" where
  "membersK s = groupMembers (kp_upstreams s) (targetIds s)"

definition catalogueK :: "kp_state \<Rightarrow> catalogue" where
  "catalogueK s = shownCatalogue (membersK s) (kp_hook s)"

definition targetKinds :: "kp_state \<Rightarrow> jstr list" where
  "targetKinds s = map (\<lambda>i. case findUpstream (kp_upstreams s) i of Some u \<Rightarrow> u_kind u | None \<Rightarrow> []) (targetIds s)"

definition blockedK :: "kp_state \<Rightarrow> jstr" where
  "blockedK s = keySaveBlocked (kp_editing s) (kp_form s) (groupTarget s)"

definition targetName :: "kp_state \<Rightarrow> virtual_key \<Rightarrow> jstr" where
  "targetName s vk =
     (if vk_target_type vk = js ''group''
      then orStr (case findGroup (kp_groups s) (vk_target_id vk) of Some g \<Rightarrow> g_name g | None \<Rightarrow> []) (js ''Group'')
      else orStr (case findUpstream (kp_upstreams s) (vk_target_id vk) of Some u \<Rightarrow> u_name u | None \<Rightarrow> []) (js ''Upstream''))"

text \<open>Which rule sections the dialog draws: the methods, and the lists or the sentence in their place.\<close>

datatype rules_slot = ListsSlot jstr | NoMcpSlot | NothingSlot

definition methodsShown :: "kp_state \<Rightarrow> bool" where
  "methodsShown s \<longleftrightarrow> js ''http'' \<in> set (targetKinds s)"

definition rulesSlot :: "kp_state \<Rightarrow> rules_slot" where
  "rulesSlot s =
     (if targetId s = [] \<or> js ''mcp'' \<in> set (targetKinds s) then
        ListsSlot (if targetId s = [] then js ''Choose a target to see its tools.''
          else if groupTarget s then js ''This group has no upstreams, so there are no tools to tick.''
          else js ''This upstream is no longer there, so there are no tools to tick.'')
      else if groupTarget s then NoMcpSlot else NothingSlot)"

section \<open>Handlers\<close>

definition sendK :: "jstr \<Rightarrow> jstr \<Rightarrow> jobj option \<Rightarrow> kp_task \<Rightarrow> kp_state \<Rightarrow> kp_state" where
  "sendK path method body t s = s\<lparr>kp_sent := kp_sent s @ [(path, method, body)], kp_tasks := kp_tasks s @ [t]\<rparr>"

definition loadK :: "kp_state \<Rightarrow> kp_state" where
  "loadK s = sendK (js ''/groups'') (js ''GET'') None KLoad
     (s\<lparr>kp_sent := kp_sent s @ [(js ''/virtual-keys'', js ''GET'', None), (js ''/upstreams'', js ''GET'', None)]\<rparr>)"

definition openPolicy :: "virtual_key \<Rightarrow> kp_state \<Rightarrow> kp_state" where
  "openPolicy vk s =
     (let mine = Suc (kp_policySeq s) in
      sendK (js ''/virtual-keys/'' @ vk_id vk @ js ''/policy'') (js ''GET'') None (KPolicy mine vk)
        (s\<lparr>kp_policySeq := mine, kp_policyKey := Some vk, kp_policy := None, kp_policyError := []\<rparr>))"

definition closePolicy :: "kp_state \<Rightarrow> kp_state" where
  "closePolicy s = s\<lparr>kp_policySeq := Suc (kp_policySeq s), kp_policyKey := None, kp_policy := None, kp_policyError := []\<rparr>"

definition openedK :: "kp_state \<Rightarrow> kp_state" where
  "openedK s = s\<lparr>kp_dialogSeq := Suc (kp_dialogSeq s), kp_openRef := True, kp_catalogueKey := Suc (kp_catalogueKey s),
     kp_formError := [], kp_saving := False, kp_open := True, kp_hook := rerender (Suc (kp_catalogueKey s)) (kp_hook s)\<rparr>"

definition openCreateK :: "kp_state \<Rightarrow> kp_state" where
  "openCreateK s = openedK (s\<lparr>kp_editing := None, kp_form := blankVirtualKeyForm, kp_marks := []\<rparr>)"

definition openEditK :: "virtual_key \<Rightarrow> kp_state \<Rightarrow> kp_state" where
  "openEditK vk s = openedK (s\<lparr>kp_editing := Some vk, kp_form := formFromVirtualKey vk, kp_marks := []\<rparr>)"

definition closeK :: "kp_state \<Rightarrow> kp_state" where
  "closeK s = s\<lparr>kp_openRef := False, kp_open := False\<rparr>"

definition failedK :: "jstr \<Rightarrow> nat \<Rightarrow> failure option \<Rightarrow> kp_state \<Rightarrow> kp_state" where
  "failedK message mine err s =
     (let s1 = (case err of Some e \<Rightarrow> if isGone e then loadK s else s | None \<Rightarrow> s) in
      if kp_openRef s \<and> kp_dialogSeq s = mine then s1\<lparr>kp_formError := message, kp_formErrorSeq := Suc (kp_formErrorSeq s)\<rparr>
      else s1\<lparr>kp_error := message\<rparr>)"

text \<open>The two Selects of the create form: a new type clears the id, a new id keeps the type.\<close>

datatype target_edit = TType target_type | TId jstr

definition retarget :: "target_edit \<Rightarrow> kp_state \<Rightarrow> kp_state" where
  "retarget e s =
     (let f = kp_form s;
          f1 = (case e of TType t \<Rightarrow> f\<lparr>kf_target_type := t, kf_target_id := []\<rparr> | TId i \<Rightarrow> f\<lparr>kf_target_id := i\<rparr>)
      in s\<lparr>kp_form := f1\<lparr>kf_tool_allowlist := [], kf_tool_denylist := [], kf_http_methods := [], kf_methodsReplace := False\<rparr>,
           kp_catalogueKey := Suc (kp_catalogueKey s), kp_hook := rerender (Suc (kp_catalogueKey s)) (kp_hook s), kp_marks := []\<rparr>)"

definition editMark :: "key_edit \<Rightarrow> jstr list" where
  "editMark e = (case e of KAdd fld x \<Rightarrow> [x] | KTick fld x on \<Rightarrow> if on then [x] else [] | _ \<Rightarrow> [])"

definition fieldK :: "key_edit \<Rightarrow> kp_state \<Rightarrow> kp_state" where
  "fieldK e s = s\<lparr>kp_form := keyEdit e (kp_form s),
     kp_marks := kp_marks s @ map (\<lambda>x. (kf_target_type (kp_form s), kf_target_id (kp_form s), x)) (editMark e)\<rparr>"

definition createK :: "(jstr \<Rightarrow> jnum) \<Rightarrow> kp_state \<Rightarrow> kp_state" where
  "createK decNum s = sendK (js ''/virtual-keys'') (js ''POST'') (Some (virtualKeyCreateBody decNum (kp_form s)))
     (KCreate (kp_dialogSeq s)) (s\<lparr>kp_saving := True\<rparr>)"

definition patchK :: "virtual_key \<Rightarrow> jobj \<Rightarrow> nat \<Rightarrow> kp_state \<Rightarrow> kp_state" where
  "patchK row body mine s = sendK (js ''/virtual-keys/'' @ vk_id row) (js ''PATCH'') (Some body) (KSave mine) s"

definition saveK :: "(jstr \<Rightarrow> jnum) \<Rightarrow> kp_state \<Rightarrow> kp_state" where
  "saveK decNum s =
     (case kp_editing s of
        None \<Rightarrow> s
      | Some row \<Rightarrow>
          (let body = virtualKeyPatchBody decNum row (kp_form s); flds = listsSent row (kp_form s) in
           if body = [] then closeK s
           else if length flds > 0
           then sendK (js ''/virtual-keys/'' @ vk_id row) (js ''GET'') None (KFresh (kp_dialogSeq s) row flds body) (s\<lparr>kp_saving := True\<rparr>)
           else patchK row body (kp_dialogSeq s) (s\<lparr>kp_saving := True\<rparr>)))"

definition submitK :: "(jstr \<Rightarrow> jnum) \<Rightarrow> kp_state \<Rightarrow> kp_state" where
  "submitK decNum s =
     (let s1 = s\<lparr>kp_formError := []\<rparr> in
      if blockedK s \<noteq> [] then s1 else if kp_editing s \<noteq> None then saveK decNum s1 else createK decNum s1)"

definition rotateK :: "virtual_key \<Rightarrow> kp_state \<Rightarrow> kp_state" where
  "rotateK vk s = sendK (js ''/virtual-keys/'' @ vk_id vk @ js ''/rotate'') (js ''POST'') (Some []) KRotate s"

definition revokeK :: "virtual_key \<Rightarrow> kp_state \<Rightarrow> kp_state" where
  "revokeK vk s = sendK (js ''/virtual-keys/'' @ vk_id vk @ js ''/revoke'') (js ''POST'') (Some []) KRevoke s"

definition removeK :: "kp_state \<Rightarrow> kp_state" where
  "removeK s = (case kp_pendingDelete s of
     None \<Rightarrow> s | Some vk \<Rightarrow> sendK (js ''/virtual-keys/'' @ vk_id vk) (js ''DELETE'') None KDelete s)"

definition copyK :: "jstr \<Rightarrow> kp_state \<Rightarrow> kp_state" where
  "copyK tag s = s\<lparr>kp_tasks := kp_tasks s @ [KCopy tag]\<rparr>"

definition loadToolsK :: "jstr option \<Rightarrow> kp_state \<Rightarrow> kp_state" where
  "loadToolsK i s = s\<lparr>kp_hook := loadTools (kp_catalogueKey s) (membersK s) i (kp_hook s)\<rparr>"

section \<open>Answers\<close>

datatype kp_answer =
    KFailed failure
  | KLists "virtual_key list" "upstream list" "group list"
  | KView policy_view
  | KMaybe "virtual_key option"
  | KRow virtual_key
  | KDone

definition unsaveK :: "nat \<Rightarrow> kp_state \<Rightarrow> kp_state" where
  "unsaveK mine s = (if kp_dialogSeq s = mine then s\<lparr>kp_saving := False\<rparr> else s)"

definition showSecret :: "virtual_key \<Rightarrow> kp_state \<Rightarrow> kp_state" where
  "showSecret vk s = loadK (s\<lparr>kp_secret := Some vk, kp_mode := (if splitAvailable vk then PerServer else Aggregate)\<rparr>)"

definition replaceKey :: "virtual_key \<Rightarrow> virtual_key list \<Rightarrow> virtual_key list" where
  "replaceKey saved ks = map (\<lambda>x. if vk_id x = vk_id saved then saved else x) ks"

definition SLOW_COUNT_SENTENCE :: jstr where
  "SLOW_COUNT_SENTENCE = js ''Counting this key's refusals took too long. Close this dialog and try again.''"

definition policyFailure :: "failure \<Rightarrow> jstr" where
  "policyFailure err = (case err of
     ApiErr e \<Rightarrow> if err_status e = 503 then SLOW_COUNT_SENTENCE else editErrorMessage err VirtualKeyRes LoadAct
   | OtherErr _ \<Rightarrow> editErrorMessage err VirtualKeyRes LoadAct)"

abbreviation keyFailure :: "failure \<Rightarrow> jstr" where
  "keyFailure err \<equiv> editErrorMessage err VirtualKeyRes SaveAct"

fun settleK :: "kp_task \<Rightarrow> kp_answer \<Rightarrow> kp_state \<Rightarrow> kp_state" where
  "settleK KLoad ans s =
     (case ans of KLists ks us gs \<Rightarrow> s\<lparr>kp_keys := ks, kp_upstreams := us, kp_groups := gs\<rparr>
      | KFailed err \<Rightarrow> s\<lparr>kp_error := failureText err\<rparr> | _ \<Rightarrow> s)"
| "settleK (KPolicy mine vk) ans s =
     (case ans of
        KView v \<Rightarrow> (if kp_policySeq s = mine then s\<lparr>kp_policy := Some v, kp_policyOf := Some vk\<rparr> else s)
      | KFailed err \<Rightarrow>
          (let s1 = (if isGone err then loadK s else s) in
           if kp_policySeq s \<noteq> mine then s1 else s1\<lparr>kp_policyError := policyFailure err\<rparr>)
      | _ \<Rightarrow> s)"
| "settleK (KCreate mine) ans s =
     (case ans of
        KFailed err \<Rightarrow> unsaveK mine (failedK (keyFailure err) mine (Some err) s)
      | KRow created \<Rightarrow>
          unsaveK mine (showSecret created (if kp_dialogSeq s = mine then (closeK s)\<lparr>kp_form := blankVirtualKeyForm\<rparr> else s))
      | _ \<Rightarrow> s)"
| "settleK (KFresh mine row flds body) ans s =
     (case ans of
        KFailed err \<Rightarrow> unsaveK mine (failedK (keyFailure err) mine (Some err) s)
      | KMaybe None \<Rightarrow> unsaveK mine (failedK KEY_RULES_STALE mine None s)
      | KMaybe (Some fresh) \<Rightarrow>
          (if keyPolicyStale row fresh flds then unsaveK mine (failedK KEY_RULES_STALE mine None s) else patchK row body mine s)
      | _ \<Rightarrow> s)"
| "settleK (KSave mine) ans s =
     (case ans of
        KFailed err \<Rightarrow> unsaveK mine (failedK (keyFailure err) mine (Some err) s)
      | KRow saved \<Rightarrow>
          (let s1 = s\<lparr>kp_keys := replaceKey saved (kp_keys s)\<rparr>
           in unsaveK mine (if kp_dialogSeq s = mine then closeK s1 else s1))
      | _ \<Rightarrow> s)"
| "settleK KRotate ans s = (case ans of KRow a \<Rightarrow> showSecret a s | KFailed err \<Rightarrow> s\<lparr>kp_error := failureText err\<rparr> | _ \<Rightarrow> s)"
| "settleK KRevoke ans s = (case ans of KDone \<Rightarrow> loadK s | KFailed err \<Rightarrow> s\<lparr>kp_error := failureText err\<rparr> | _ \<Rightarrow> s)"
| "settleK KDelete ans s = (case ans of KDone \<Rightarrow> loadK (s\<lparr>kp_pendingDelete := None\<rparr>) | KFailed err \<Rightarrow> s\<lparr>kp_error := failureText err\<rparr> | _ \<Rightarrow> s)"
| "settleK (KCopy tag) ans s = (case ans of KDone \<Rightarrow> s\<lparr>kp_copied := Some tag, kp_tasks := kp_tasks s @ [KTimer]\<rparr> | _ \<Rightarrow> s)"
| "settleK KTimer ans s = (case ans of KDone \<Rightarrow> s\<lparr>kp_copied := None\<rparr> | _ \<Rightarrow> s)"

fun answerFitsK :: "kp_task \<Rightarrow> kp_answer \<Rightarrow> bool" where
  "answerFitsK KTimer KDone = True"
| "answerFitsK KTimer _ = False"
| "answerFitsK t (KFailed _) = True"
| "answerFitsK KLoad (KLists _ _ _) = True"
| "answerFitsK (KPolicy _ _) (KView _) = True"
| "answerFitsK (KCreate _) (KRow _) = True"
| "answerFitsK (KFresh _ _ _ _) (KMaybe _) = True"
| "answerFitsK (KSave _) (KRow _) = True"
| "answerFitsK KRotate (KRow _) = True"
| "answerFitsK KRevoke KDone = True"
| "answerFitsK KDelete KDone = True"
| "answerFitsK (KCopy _) KDone = True"
| "answerFitsK _ _ = False"

definition dropTaskK :: "nat \<Rightarrow> kp_state \<Rightarrow> kp_state" where
  "dropTaskK i s = s\<lparr>kp_tasks := withoutTask i (kp_tasks s)\<rparr>"

section \<open>The page as a machine\<close>

definition kpBlank :: kp_state where
  "kpBlank = \<lparr>kp_keys = [], kp_upstreams = [], kp_groups = [], kp_open = False, kp_editing = None, kp_saving = False,
     kp_formError = [], kp_formErrorSeq = 0, kp_openRef = False, kp_dialogSeq = 0, kp_catalogueKey = 0, kp_secret = None,
     kp_pendingDelete = None, kp_error = [], kp_copied = None, kp_client = ClaudeCode, kp_mode = Aggregate,
     kp_form = blankVirtualKeyForm, kp_policyKey = None, kp_policy = None, kp_policyError = [], kp_policySeq = 0,
     kp_hook = ucInit 0, kp_tasks = [], kp_sent = [], kp_policyOf = None, kp_marks = []\<rparr>"

text \<open>The guards are the controls' own: the target Selects are drawn on a create only, and Save is
  disabled while a request runs.\<close>

inductive kp_step :: "(jstr \<Rightarrow> jnum) \<Rightarrow> kp_state \<Rightarrow> kp_state \<Rightarrow> bool" for decNum where
  k_open_create: "kp_step decNum s (openCreateK s)"
| k_open_edit: "kp_step decNum s (openEditK vk s)"
| k_close: "kp_step decNum s (closeK s)"
| k_field: "kp_step decNum s (fieldK e s)"
| k_retarget: "kp_editing s = None \<Longrightarrow> kp_step decNum s (retarget e s)"
| k_submit: "\<not> kp_saving s \<Longrightarrow> kp_step decNum s (submitK decNum s)"
| k_open_policy: "kp_step decNum s (openPolicy vk s)"
| k_close_policy: "kp_step decNum s (closePolicy s)"
| k_rotate: "kp_step decNum s (rotateK vk s)"
| k_revoke: "kp_step decNum s (revokeK vk s)"
| k_ask_delete: "kp_step decNum s (s\<lparr>kp_pendingDelete := x\<rparr>)"
| k_remove: "kp_step decNum s (removeK s)"
| k_copy: "kp_step decNum s (copyK tag s)"
| k_mode: "kp_step decNum s (s\<lparr>kp_mode := m\<rparr>)"
| k_client: "kp_step decNum s (s\<lparr>kp_client := c\<rparr>)"
| k_put_away: "kp_step decNum s (s\<lparr>kp_secret := None\<rparr>)"
| k_load_tools: "kp_step decNum s (loadToolsK i s)"
| k_tool_answer: "r < length (uc_runs (kp_hook s)) \<Longrightarrow> w < length (dm_workers (run_dm (uc_runs (kp_hook s) ! r))) \<Longrightarrow>
     dm_workers (run_dm (uc_runs (kp_hook s) ! r)) ! w = WAwait i \<Longrightarrow> kp_step decNum s (s\<lparr>kp_hook := answerRun r w i ans (kp_hook s)\<rparr>)"
| k_tool_finish: "r < length (uc_runs (kp_hook s)) \<Longrightarrow> dmFinished (run_dm (uc_runs (kp_hook s) ! r)) \<Longrightarrow>
     kp_step decNum s (s\<lparr>kp_hook := finishRun r (kp_hook s)\<rparr>)"
| k_settled: "i < length (kp_tasks s) \<Longrightarrow> answerFitsK (kp_tasks s ! i) ans \<Longrightarrow>
     kp_step decNum s (settleK (kp_tasks s ! i) ans (dropTaskK i s))"

inductive_cases kp_stepE: "kp_step decNum s t"

inductive kp_reach :: "(jstr \<Rightarrow> jnum) \<Rightarrow> kp_state \<Rightarrow> bool" for decNum where
  kp_mounted: "kp_reach decNum (loadK kpBlank)"
| kp_moved: "kp_reach decNum s \<Longrightarrow> kp_step decNum s t \<Longrightarrow> kp_reach decNum t"

interpretation keys_dialog: dialog_page kp_openRef kp_dialogSeq kp_formError kp_error openedK closeK
  "\<lambda>err mine. failedK (keyFailure err) mine (Some err)" keyFailure
  by unfold_locales (auto simp: openedK_def closeK_def failedK_def loadK_def sendK_def Let_def)

section \<open>The hook under the page\<close>

lemmas k_handlers = sendK_def loadK_def openPolicy_def closePolicy_def closeK_def failedK_def fieldK_def createK_def patchK_def saveK_def
  submitK_def rotateK_def revokeK_def removeK_def copyK_def unsaveK_def showSecret_def dropTaskK_def Let_def

lemma hookK_settle [simp]:
  "kp_hook (settleK t ans s) = kp_hook s" "kp_catalogueKey (settleK t ans s) = kp_catalogueKey s"
  by (cases t; cases ans; auto simp: k_handlers split: option.splits)+

lemma hookK_handlers [simp]:
  "kp_hook (loadK s) = kp_hook s" "kp_catalogueKey (loadK s) = kp_catalogueKey s"
  "kp_hook (openPolicy vk s) = kp_hook s" "kp_catalogueKey (openPolicy vk s) = kp_catalogueKey s"
  "kp_hook (closePolicy s) = kp_hook s" "kp_catalogueKey (closePolicy s) = kp_catalogueKey s"
  "kp_hook (closeK s) = kp_hook s" "kp_catalogueKey (closeK s) = kp_catalogueKey s"
  "kp_hook (fieldK e s) = kp_hook s" "kp_catalogueKey (fieldK e s) = kp_catalogueKey s"
  "kp_hook (submitK d s) = kp_hook s" "kp_catalogueKey (submitK d s) = kp_catalogueKey s"
  "kp_hook (rotateK vk s) = kp_hook s" "kp_catalogueKey (rotateK vk s) = kp_catalogueKey s"
  "kp_hook (revokeK vk s) = kp_hook s" "kp_catalogueKey (revokeK vk s) = kp_catalogueKey s"
  "kp_hook (removeK s) = kp_hook s" "kp_catalogueKey (removeK s) = kp_catalogueKey s"
  "kp_hook (copyK tag s) = kp_hook s" "kp_catalogueKey (copyK tag s) = kp_catalogueKey s"
  "kp_hook (dropTaskK i s) = kp_hook s" "kp_catalogueKey (dropTaskK i s) = kp_catalogueKey s"
  by (auto simp: k_handlers split: option.splits)

lemma hookK_reset:
  "hook_ok (kp_catalogueKey s) (kp_hook s) \<Longrightarrow> hook_ok (kp_catalogueKey (openCreateK s)) (kp_hook (openCreateK s))"
  "hook_ok (kp_catalogueKey s) (kp_hook s) \<Longrightarrow> hook_ok (kp_catalogueKey (openEditK vk s)) (kp_hook (openEditK vk s))"
  "hook_ok (kp_catalogueKey s) (kp_hook s) \<Longrightarrow> hook_ok (kp_catalogueKey (retarget e s)) (kp_hook (retarget e s))"
  "hook_ok (kp_catalogueKey s) (kp_hook s) \<Longrightarrow> hook_ok (kp_catalogueKey (loadToolsK i s)) (kp_hook (loadToolsK i s))"
  by (simp_all add: openCreateK_def openEditK_def openedK_def retarget_def loadToolsK_def membersK_def hook_ok_rerender hook_ok_load Let_def)

lemma hookK_step:
  "kp_step decNum s t \<Longrightarrow> hook_ok (kp_catalogueKey s) (kp_hook s) \<Longrightarrow> hook_ok (kp_catalogueKey t) (kp_hook t)"
  by (erule kp_stepE) (auto simp: hookK_reset hook_ok_answer hook_ok_finish)

lemma hookK_reach: "kp_reach decNum s \<Longrightarrow> hook_ok (kp_catalogueKey s) (kp_hook s)"
proof (induction rule: kp_reach.induct)
  case kp_mounted
  show ?case by (simp add: kpBlank_def hook_ok_init)
qed (blast intro: hookK_step)

section \<open>A list is overwritten only after a fresh read\<close>

definition listNames :: "jstr list" where
  "listNames = [fieldName AllowlistField, fieldName DenylistField]"

definition plainSentK :: "kp_state \<Rightarrow> kp_state \<Rightarrow> bool" where
  "plainSentK = onlySent kp_sent (overwritesNone listNames)"

lemmas plainK_defs = plainSentK_def onlySent_def

lemma plainK_same: "kp_sent t = kp_sent s \<Longrightarrow> plainSentK s t"
  by (simp add: plainSentK_def onlySent_same)

lemma sentK_handlers:
  "plainSentK s (openCreateK s)" "plainSentK s (openEditK vk s)" "plainSentK s (closeK s)" "plainSentK s (fieldK e s)"
  "plainSentK s (retarget te s)" "plainSentK s (openPolicy vk s)" "plainSentK s (closePolicy s)" "plainSentK s (rotateK vk s)"
  "plainSentK s (revokeK vk s)" "plainSentK s (copyK tag s)" "plainSentK s (loadToolsK u s)" "plainSentK s (createK d s)"
  by (auto simp: plainK_defs openCreateK_def openEditK_def openedK_def retarget_def loadToolsK_def k_handlers)

lemma sentK_remove: "plainSentK s (removeK s)"
  by (auto simp: plainK_defs k_handlers split: option.splits)

lemma unsent_list: "listsSent row f = [] \<Longrightarrow> k \<in> set listNames \<Longrightarrow> \<not> objHas k (virtualKeyPatchBody d row f)"
  using keyPatch_list [of AllowlistField d row f] keyPatch_list [of DenylistField d row f]
  by (auto simp: listNames_def objHas_objGet)

lemma sentK_save: "plainSentK s (saveK d s)"
proof (cases "kp_editing s")
  case (Some row)
  with unsent_list [of row "kp_form s"] show ?thesis by (auto simp: plainK_defs k_handlers)
qed (simp add: saveK_def plainK_same)

lemma sentK_submit: "plainSentK s (submitK d s)"
  using onlySent_from [of kp_sent _ "s\<lparr>kp_formError := []\<rparr>" _ s] sentK_save [of "s\<lparr>kp_formError := []\<rparr>" d]
    sentK_handlers(12) [of "s\<lparr>kp_formError := []\<rparr>" d]
  by (auto simp: submitK_def Let_def plainSentK_def intro: onlySent_same)

definition goesOnK :: "kp_task \<Rightarrow> kp_answer \<Rightarrow> bool" where
  "goesOnK t ans = (case (t, ans) of (KFresh mine row flds body, KMaybe (Some fresh)) \<Rightarrow> \<not> keyPolicyStale row fresh flds | _ \<Rightarrow> False)"

lemma sentK_settle: "\<not> goesOnK t ans \<Longrightarrow> plainSentK s (settleK t ans (dropTaskK i s))"
  by (cases t; cases ans) (auto simp: plainK_defs goesOnK_def k_handlers split: option.splits)

lemma stepK_sent:
  assumes "kp_step decNum s t"
  shows "plainSentK s t \<or> (\<exists>i ans. i < length (kp_tasks s) \<and> goesOnK (kp_tasks s ! i) ans \<and> t = settleK (kp_tasks s ! i) ans (dropTaskK i s))"
  using assms
proof (cases rule: kp_step.cases)
  case (k_settled i ans)
  then show ?thesis using sentK_settle by blast
qed (auto intro: sentK_handlers sentK_remove sentK_submit plainK_same)

lemma list_patch_step:
  assumes "kp_step decNum s t" and p: "(path, js ''PATCH'', Some body) \<in> set (drop (length (kp_sent s)) (kp_sent t))"
    and f: "objHas (fieldName fld) body"
  obtains i mine row flds fresh where "i < length (kp_tasks s)" "kp_tasks s ! i = KFresh mine row flds body"
    "path = js ''/virtual-keys/'' @ vk_id row" "\<not> keyPolicyStale row fresh flds"
    "t = settleK (KFresh mine row flds body) (KMaybe (Some fresh)) (dropTaskK i s)"
proof -
  have "fieldName fld \<in> set listNames" by (cases fld) (simp_all add: listNames_def)
  then have "\<not> plainSentK s t"
    using onlySent_hit [where sent = kp_sent and s = s and t = t, OF _ p] f unfolding plainSentK_def by fastforce
  then obtain i ans where i: "i < length (kp_tasks s)" "goesOnK (kp_tasks s ! i) ans" "t = settleK (kp_tasks s ! i) ans (dropTaskK i s)"
    using stepK_sent [OF assms(1)] by blast
  then obtain mine row flds b fresh where t: "kp_tasks s ! i = KFresh mine row flds b" "ans = KMaybe (Some fresh)" "\<not> keyPolicyStale row fresh flds"
    by (auto simp: goesOnK_def split: kp_task.splits kp_answer.splits option.splits)
  with i p have "path = js ''/virtual-keys/'' @ vk_id row" "b = body" by (auto simp: patchK_def sendK_def dropTaskK_def)
  with that [of i mine row flds fresh] i t show thesis by simp
qed

definition freshK_ok :: "(jstr \<Rightarrow> jnum) \<Rightarrow> kp_task \<Rightarrow> bool" where
  "freshK_ok decNum t = (case t of
     KFresh mine row flds body \<Rightarrow> \<exists>f. body = virtualKeyPatchBody decNum row f \<and> flds = listsSent row f | _ \<Rightarrow> True)"

definition tasksK_ok :: "(jstr \<Rightarrow> jnum) \<Rightarrow> kp_state \<Rightarrow> bool" where
  "tasksK_ok decNum s \<longleftrightarrow> list_all (freshK_ok decNum) (kp_tasks s)"

lemma tasksK_same: "tasksK_ok d s \<Longrightarrow> kp_tasks t = kp_tasks s \<Longrightarrow> tasksK_ok d t"
  by (simp add: tasksK_ok_def)

lemma tasksK_handlers:
  "tasksK_ok d s \<Longrightarrow> tasksK_ok d (openPolicy vk s)" "tasksK_ok d s \<Longrightarrow> tasksK_ok d (rotateK vk s)" "tasksK_ok d s \<Longrightarrow> tasksK_ok d (revokeK vk s)"
  "tasksK_ok d s \<Longrightarrow> tasksK_ok d (removeK s)" "tasksK_ok d s \<Longrightarrow> tasksK_ok d (copyK tag s)" "tasksK_ok d s \<Longrightarrow> tasksK_ok d (loadK s)"
  by (auto simp: tasksK_ok_def k_handlers freshK_ok_def split: option.splits)

lemma tasksK_submit: "tasksK_ok d s \<Longrightarrow> tasksK_ok d (submitK d s)"
  by (auto simp: tasksK_ok_def k_handlers freshK_ok_def split: option.splits)

lemma tasksK_drop: "tasksK_ok d s \<Longrightarrow> tasksK_ok d (dropTaskK i s)"
  using set_withoutTask [of i "kp_tasks s"] by (auto simp: tasksK_ok_def dropTaskK_def list_all_iff)

lemma tasksK_settle: "tasksK_ok d s \<Longrightarrow> tasksK_ok d (settleK t ans s)"
  by (cases t; cases ans) (auto simp: tasksK_ok_def k_handlers freshK_ok_def split: option.splits)

lemma tasksK_step: "kp_step decNum s t \<Longrightarrow> tasksK_ok decNum s \<Longrightarrow> tasksK_ok decNum t"
  by (erule kp_stepE)
     (auto intro: tasksK_submit tasksK_handlers tasksK_settle tasksK_drop elim: tasksK_same
       simp: openCreateK_def openEditK_def openedK_def closeK_def fieldK_def retarget_def closePolicy_def loadToolsK_def Let_def)

lemma tasksK_reach: "kp_reach decNum s \<Longrightarrow> tasksK_ok decNum s"
proof (induction rule: kp_reach.induct)
  case kp_mounted
  show ?case by (rule tasksK_handlers) (simp add: tasksK_ok_def kpBlank_def)
qed (blast intro: tasksK_step)

section \<open>The Policy dialog\<close>

definition policy_task_ok :: "nat \<Rightarrow> virtual_key option \<Rightarrow> kp_task \<Rightarrow> bool" where
  "policy_task_ok seq key t = (case t of KPolicy m vk \<Rightarrow> m \<le> seq \<and> (m = seq \<longrightarrow> key = Some vk) | _ \<Rightarrow> True)"

definition policy_inv :: "kp_state \<Rightarrow> bool" where
  "policy_inv s \<longleftrightarrow> (kp_policy s \<noteq> None \<longrightarrow> kp_policyKey s \<noteq> None \<and> kp_policyOf s = kp_policyKey s) \<and>
     list_all (policy_task_ok (kp_policySeq s) (kp_policyKey s)) (kp_tasks s)"

definition policyCore :: "kp_state \<Rightarrow> policy_view option \<times> virtual_key option \<times> virtual_key option \<times> nat" where
  "policyCore s = (kp_policy s, kp_policyKey s, kp_policyOf s, kp_policySeq s)"

lemma policy_frame:
  assumes "policy_inv s" "policyCore t = policyCore s" "kp_tasks t = kp_tasks s @ ts" "\<forall>x \<in> set ts. \<forall>m vk. x \<noteq> KPolicy m vk"
  shows "policy_inv t"
proof -
  have "policy_task_ok n k x" if "x \<in> set ts" for n k x
    using assms(4) that by (cases x) (auto simp: policy_task_ok_def)
  then show ?thesis using assms(1,2,3) by (auto simp: policy_inv_def policyCore_def list_all_iff)
qed

lemma policy_newer: "list_all (policy_task_ok seq key) ts \<Longrightarrow> list_all (policy_task_ok (Suc seq) key') ts"
  by (auto simp: list_all_iff policy_task_ok_def split: kp_task.splits)

lemma policy_open: "policy_inv s \<Longrightarrow> policy_inv (openPolicy vk s)" "policy_inv s \<Longrightarrow> policy_inv (closePolicy s)"
  using policy_newer [of "kp_policySeq s" "kp_policyKey s" "kp_tasks s"]
  by (auto simp: policy_inv_def openPolicy_def closePolicy_def sendK_def Let_def policy_task_ok_def)

lemma policy_drop: "policy_inv s \<Longrightarrow> policy_inv (dropTaskK i s)"
  using set_withoutTask [of i "kp_tasks s"] by (auto simp: policy_inv_def dropTaskK_def list_all_iff)

text \<open>Everything but an open, a close and an answer of the Policy dialog leaves it alone.\<close>

definition quietTask :: "kp_task \<Rightarrow> bool" where
  "quietTask t = (case t of KPolicy m vk \<Rightarrow> False | _ \<Rightarrow> True)"

definition policyQuiet :: "kp_state \<Rightarrow> kp_state \<Rightarrow> bool" where
  "policyQuiet s t \<longleftrightarrow> policyCore t = policyCore s \<and> onlySent kp_tasks quietTask s t"

lemma policy_quiet: "policyQuiet s t \<Longrightarrow> policy_inv s \<Longrightarrow> policy_inv t"
  by (auto simp: policyQuiet_def onlySent_def list_all_iff quietTask_def intro!: policy_frame [of s t])

lemmas quiet_defs = policyQuiet_def onlySent_def policyCore_def quietTask_def

lemma quiet_handlers:
  "policyQuiet s (openCreateK s)" "policyQuiet s (openEditK vk s)" "policyQuiet s (closeK s)" "policyQuiet s (fieldK e s)"
  "policyQuiet s (retarget te s)" "policyQuiet s (rotateK vk s)" "policyQuiet s (revokeK vk s)" "policyQuiet s (copyK tag s)"
  "policyQuiet s (loadToolsK u s)" "policyQuiet s (loadK s)"
  by (auto simp: quiet_defs openCreateK_def openEditK_def openedK_def retarget_def loadToolsK_def k_handlers)

lemma quiet_submit: "policyQuiet s (submitK d s)" "policyQuiet s (removeK s)"
  by (auto simp: quiet_defs k_handlers split: option.splits)

lemma quiet_light:
  "policyQuiet s (s\<lparr>kp_pendingDelete := a\<rparr>)" "policyQuiet s (s\<lparr>kp_mode := b\<rparr>)" "policyQuiet s (s\<lparr>kp_client := c\<rparr>)"
  "policyQuiet s (s\<lparr>kp_secret := a\<rparr>)" "policyQuiet s (s\<lparr>kp_hook := h\<rparr>)"
  by (simp_all add: quiet_defs)

lemma quiet_settle: "quietTask t \<Longrightarrow> policyQuiet s (settleK t ans s)"
  by (cases t; cases ans) (auto simp: quiet_defs k_handlers split: option.splits)

lemma policy_answer:
  assumes inv: "policy_inv s" and i: "i < length (kp_tasks s)" and t: "kp_tasks s ! i = KPolicy m vk"
  shows "policy_inv (settleK (KPolicy m vk) ans (dropTaskK i s))"
proof -
  let ?u = "dropTaskK i s"
  have u: "policy_inv ?u" by (rule policy_drop [OF inv])
  have "policy_task_ok (kp_policySeq s) (kp_policyKey s) (KPolicy m vk)"
    using inv nth_mem [OF i] unfolding t policy_inv_def list_all_iff by blast
  then have own: "kp_policySeq s = m \<Longrightarrow> kp_policyKey s = Some vk" by (simp add: policy_task_ok_def)
  have "policy_inv (loadK ?u)" using u by (rule policy_quiet [OF quiet_handlers(10)])
  then show ?thesis
    using u own by (cases ans) (auto simp: policy_inv_def Let_def dropTaskK_def)
qed

lemma policy_step:
  assumes "kp_step decNum s t" "policy_inv s"
  shows "policy_inv t"
  using assms(1)
proof (cases rule: kp_step.cases)
  case (k_settled i ans)
  show ?thesis
  proof (cases "quietTask (kp_tasks s ! i)")
    case True
    then show ?thesis using k_settled policy_quiet [OF quiet_settle policy_drop [OF assms(2)]] by blast
  next
    case False
    then obtain m vk where "kp_tasks s ! i = KPolicy m vk" by (auto simp: quietTask_def split: kp_task.splits)
    then show ?thesis using k_settled policy_answer [OF assms(2)] by simp
  qed
qed (auto intro: policy_quiet [OF _ assms(2)] quiet_handlers quiet_submit quiet_light policy_open assms(2))

lemma policy_reach: "kp_reach decNum s \<Longrightarrow> policy_inv s"
proof (induction rule: kp_reach.induct)
  case kp_mounted
  have "policy_inv kpBlank" by (simp add: policy_inv_def kpBlank_def)
  then show ?case by (rule policy_quiet [OF quiet_handlers(10)])
qed (blast intro: policy_step)

section \<open>Entries and their target\<close>

definition marks_inv :: "kp_state \<Rightarrow> bool" where
  "marks_inv s \<longleftrightarrow> (kp_editing s = None \<longrightarrow>
     (\<forall>x \<in> set (kf_tool_allowlist (kp_form s)) \<union> set (kf_tool_denylist (kp_form s)).
        (kf_target_type (kp_form s), kf_target_id (kp_form s), x) \<in> set (kp_marks s)))"

definition formCore :: "kp_state \<Rightarrow> virtual_key option \<times> key_form \<times> (target_type \<times> jstr \<times> jstr) list" where
  "formCore s = (kp_editing s, kp_form s, kp_marks s)"

lemma marks_same: "marks_inv s \<Longrightarrow> formCore t = formCore s \<Longrightarrow> marks_inv t"
  by (simp add: marks_inv_def formCore_def)

lemma marks_bare: "kf_tool_allowlist (kp_form t) = [] \<Longrightarrow> kf_tool_denylist (kp_form t) = [] \<Longrightarrow> marks_inv t"
  by (simp add: marks_inv_def)

lemma keyEdit_target [simp]: "kf_target_type (keyEdit e f) = kf_target_type f" "kf_target_id (keyEdit e f) = kf_target_id f"
  by (cases e; simp add: setList_def split: list_field.splits)+

lemma keyEdit_lists:
  "set (kf_tool_allowlist (keyEdit e f)) \<union> set (kf_tool_denylist (keyEdit e f)) \<subseteq>
     set (kf_tool_allowlist f) \<union> set (kf_tool_denylist f) \<union> set (editMark e)"
  by (cases e) (auto simp: setList_def formList_def editMark_def set_toggleEntry split: list_field.splits if_splits)

lemma marks_field: "marks_inv s \<Longrightarrow> marks_inv (fieldK e s)"
  using keyEdit_lists [of e "kp_form s"] by (auto simp: marks_inv_def fieldK_def)

lemma blank_lists [simp]: "kf_tool_allowlist blankVirtualKeyForm = []" "kf_tool_denylist blankVirtualKeyForm = []"
  by (simp_all add: blankVirtualKeyForm_def)

lemma marks_starts: "marks_inv (openCreateK s)" "marks_inv (openEditK vk s)" "marks_inv (retarget te s)"
  by (simp_all add: openCreateK_def openEditK_def openedK_def retarget_def Let_def marks_bare, simp add: marks_inv_def)

lemma formCore_light:
  "formCore (closeK s) = formCore s" "formCore (openPolicy vk s) = formCore s" "formCore (closePolicy s) = formCore s"
  "formCore (rotateK vk s) = formCore s" "formCore (revokeK vk s) = formCore s" "formCore (copyK tag s) = formCore s"
  "formCore (loadToolsK u s) = formCore s" "formCore (loadK s) = formCore s" "formCore (dropTaskK i s) = formCore s"
  "formCore (removeK s) = formCore s" "formCore (submitK d s) = formCore s"
  by (auto simp: formCore_def loadToolsK_def k_handlers split: option.splits)

lemma formCore_settle: "formCore (settleK t ans s) = formCore s \<or> kp_form (settleK t ans s) = blankVirtualKeyForm"
  by (cases t; cases ans) (auto simp: formCore_def k_handlers split: option.splits)

lemma marks_settle: "marks_inv s \<Longrightarrow> marks_inv (settleK t ans s)"
  using formCore_settle [of t ans s] by (auto intro: marks_same marks_bare)

lemma formCore_upd:
  "formCore (s\<lparr>kp_pendingDelete := a\<rparr>) = formCore s" "formCore (s\<lparr>kp_mode := b\<rparr>) = formCore s" "formCore (s\<lparr>kp_client := c\<rparr>) = formCore s"
  "formCore (s\<lparr>kp_secret := a\<rparr>) = formCore s" "formCore (s\<lparr>kp_hook := h\<rparr>) = formCore s"
  by (simp_all add: formCore_def)

lemma marks_step:
  assumes "kp_step decNum s t" "marks_inv s"
  shows "marks_inv t"
  using assms(1)
proof (cases rule: kp_step.cases)
  case (k_settled i ans)
  then show ?thesis using marks_settle [OF marks_same [OF assms(2) formCore_light(9)]] by simp
qed (auto intro: marks_field marks_starts assms(2) marks_same [OF assms(2)] simp: formCore_light formCore_upd)

lemma marks_reach: "kp_reach decNum s \<Longrightarrow> marks_inv s"
proof (induction rule: kp_reach.induct)
  case kp_mounted
  have "marks_inv kpBlank" by (simp add: marks_bare kpBlank_def)
  then show ?case by (rule marks_same [OF _ formCore_light(8)])
qed (blast intro: marks_step)

section \<open>One request per dialog\<close>

definition taskSeqK :: "kp_task \<Rightarrow> nat option" where
  "taskSeqK t = (case t of KCreate m \<Rightarrow> Some m | KFresh m row flds body \<Rightarrow> Some m | KSave m \<Rightarrow> Some m | _ \<Rightarrow> None)"

lemma taskSeqK_simps [simp]:
  "taskSeqK KLoad = None" "taskSeqK (KPolicy n vk) = None" "taskSeqK (KCreate m) = Some m" "taskSeqK (KFresh m row flds body) = Some m"
  "taskSeqK (KSave m) = Some m" "taskSeqK KRotate = None" "taskSeqK KRevoke = None" "taskSeqK KDelete = None" "taskSeqK (KCopy tag) = None"
  "taskSeqK KTimer = None"
  by (simp_all add: taskSeqK_def)

definition busy_inv :: "kp_state \<Rightarrow> bool" where
  "busy_inv s \<longleftrightarrow> busy_ok (kp_dialogSeq s) (kp_saving s) (countsOf taskSeqK (kp_tasks s))"

definition busyCore :: "kp_state \<Rightarrow> nat \<times> bool \<times> nat list" where
  "busyCore s = (kp_dialogSeq s, kp_saving s, countsOf taskSeqK (kp_tasks s))"

lemma busy_same: "busy_inv s \<Longrightarrow> busyCore t = busyCore s \<Longrightarrow> busy_inv t"
  by (simp add: busy_inv_def busyCore_def)

lemma busyCore_light:
  "busyCore (closeK s) = busyCore s" "busyCore (openPolicy vk s) = busyCore s" "busyCore (closePolicy s) = busyCore s"
  "busyCore (rotateK vk s) = busyCore s" "busyCore (revokeK vk s) = busyCore s" "busyCore (copyK tag s) = busyCore s"
  "busyCore (loadToolsK u s) = busyCore s" "busyCore (loadK s) = busyCore s" "busyCore (fieldK e s) = busyCore s"
  "busyCore (removeK s) = busyCore s" "busyCore (retarget te s) = busyCore s"
  by (auto simp: busyCore_def loadToolsK_def retarget_def k_handlers split: option.splits)

lemma busyCore_upd:
  "busyCore (s\<lparr>kp_pendingDelete := a\<rparr>) = busyCore s" "busyCore (s\<lparr>kp_mode := b\<rparr>) = busyCore s" "busyCore (s\<lparr>kp_client := c\<rparr>) = busyCore s"
  "busyCore (s\<lparr>kp_secret := a\<rparr>) = busyCore s" "busyCore (s\<lparr>kp_hook := h\<rparr>) = busyCore s"
  by (simp_all add: busyCore_def)

lemma busyK_open: "busy_inv s \<Longrightarrow> busy_inv (openCreateK s)" "busy_inv s \<Longrightarrow> busy_inv (openEditK vk s)"
  by (auto simp: busy_inv_def openCreateK_def openEditK_def openedK_def intro: busy_reopen)

lemma busyK_submit: "busy_inv s \<Longrightarrow> \<not> kp_saving s \<Longrightarrow> busy_inv (submitK d s)"
  by (auto simp: busy_inv_def k_handlers busy_start split: option.splits)

text \<open>A settled request of a dialog leaves its count or, going on, hands it to the next request.\<close>

lemma busyK_settle:
  assumes inv: "busy_inv s" and i: "i < length (kp_tasks s)" and fit: "answerFitsK (kp_tasks s ! i) ans"
  shows "busy_inv (settleK (kp_tasks s ! i) ans (dropTaskK i s))"
proof -
  obtain a b where ab: "countsOf taskSeqK (kp_tasks s) = a @ countsOf taskSeqK [kp_tasks s ! i] @ b"
    "countsOf taskSeqK (kp_tasks (dropTaskK i s)) = a @ b"
    using countsOf_withoutTask [OF i, of taskSeqK] by (auto simp: dropTaskK_def)
  define u where "u = dropTaskK i s"
  have u: "kp_dialogSeq u = kp_dialogSeq s" "kp_saving u = kp_saving s" "countsOf taskSeqK (kp_tasks u) = a @ b"
    using ab(2) by (simp_all add: u_def dropTaskK_def)
  have left: "busy_ok (kp_dialogSeq s) (if kp_dialogSeq s = m then False else kp_saving s) (a @ b)"
    and again: "busy_ok (kp_dialogSeq s) (kp_saving s) (a @ b @ [m])" if "taskSeqK (kp_tasks s ! i) = Some m" for m
    using inv ab(1) that busy_done [of "kp_dialogSeq s" "kp_saving s" a m b] busy_again [of "kp_dialogSeq s" "kp_saving s" a m b]
    by (simp_all add: busy_inv_def)
  have "busy_inv (settleK (kp_tasks s ! i) ans u)"
  proof (cases "taskSeqK (kp_tasks s ! i)")
    case None
    then show ?thesis
      using ab(1) u by (intro busy_same [OF inv]) (cases "kp_tasks s ! i"; cases ans; simp add: busyCore_def k_handlers)
  next
    case (Some m)
    then show ?thesis
      using left [OF Some] again [OF Some] u fit
      by (cases "kp_tasks s ! i"; cases ans) (auto simp: busy_inv_def k_handlers split: option.splits if_splits)
  qed
  then show ?thesis by (simp add: u_def)
qed

lemma busyK_step:
  assumes "kp_step decNum s t" "busy_inv s"
  shows "busy_inv t"
  using assms(1)
proof (cases rule: kp_step.cases)
  case (k_settled i ans)
  then show ?thesis using busyK_settle [OF assms(2)] by simp
qed (auto intro: busyK_open busyK_submit assms(2) busy_same [OF assms(2)] simp: busyCore_light busyCore_upd)

lemma busyK_reach: "kp_reach decNum s \<Longrightarrow> busy_inv s"
proof (induction rule: kp_reach.induct)
  case kp_mounted
  have "busy_inv kpBlank" by (simp add: busy_inv_def busy_ok_def kpBlank_def)
  then show ?case by (rule busy_same [OF _ busyCore_light(8)])
qed (blast intro: busyK_step)

section \<open>Runs\<close>

text \<open>A key whose stored lists cannot be read has both replaced; a policy is opened; a key is created
  on a group with one tool denied.\<close>

definition storedKey :: virtual_key where
  "storedKey = \<lparr>vk_id = js ''k1'', vk_name = js ''CI'', vk_key_prefix = js ''pk'', vk_target_type = js ''upstream'', vk_target_id = js ''u1'',
     vk_rate_limit = None, vk_expires_at = None, vk_status = js ''active'', vk_last_used_at = None, vk_created_at = [], vk_api_key = None,
     vk_proxy_url = None, vk_tool_allowlist = None, vk_tool_denylist = None, vk_lists_malformed = True, vk_http_methods = None,
     vk_http_methods_malformed = False, vk_endpoints = []\<rparr>"

definition replacedRun :: "(jstr \<Rightarrow> jnum) \<Rightarrow> kp_state" where
  "replacedRun decNum = submitK decNum (fieldK KReplaceLists (openEditK storedKey (loadK kpBlank)))"

lemma replacedRun_reach: "kp_reach decNum (replacedRun decNum)"
proof -
  have "kp_reach decNum (openEditK storedKey (loadK kpBlank))" by (rule kp_reach.kp_moved [OF kp_reach.kp_mounted kp_step.k_open_edit])
  from kp_reach.kp_moved [OF this kp_step.k_field] have "kp_reach decNum (fieldK KReplaceLists (openEditK storedKey (loadK kpBlank)))" .
  moreover have "\<not> kp_saving (fieldK KReplaceLists (openEditK storedKey (loadK kpBlank)))" by code_simp
  ultimately show ?thesis unfolding replacedRun_def by (rule kp_reach.kp_moved [OF _ kp_step.k_submit])
qed

definition deniedRun :: kp_state where
  "deniedRun = fieldK (KAdd DenylistField (js ''x'')) (retarget (TId (js ''g1'')) (retarget (TType GroupTarget) (openCreateK (loadK kpBlank))))"

lemma deniedRun_reach: "kp_reach decNum deniedRun"
proof -
  have "kp_reach decNum (openCreateK (loadK kpBlank))" by (rule kp_reach.kp_moved [OF kp_reach.kp_mounted kp_step.k_open_create])
  moreover have "kp_editing (openCreateK (loadK kpBlank)) = None" by code_simp
  ultimately have "kp_reach decNum (retarget (TType GroupTarget) (openCreateK (loadK kpBlank)))" by (rule kp_reach.kp_moved [OF _ kp_step.k_retarget])
  moreover have "kp_editing (retarget (TType GroupTarget) (openCreateK (loadK kpBlank))) = None" by code_simp
  ultimately have "kp_reach decNum (retarget (TId (js ''g1'')) (retarget (TType GroupTarget) (openCreateK (loadK kpBlank))))"
    by (rule kp_reach.kp_moved [OF _ kp_step.k_retarget])
  then show ?thesis unfolding deniedRun_def by (rule kp_reach.kp_moved [OF _ kp_step.k_field])
qed

definition somePolicy :: policy_view where
  "somePolicy = \<lparr>pv_virtual_key_id = js ''k1'', pv_status = js ''active'', pv_target_type = js ''upstream'', pv_target_slug = js ''u'',
     pv_target_kinds = [], pv_order = [], pv_key_denylist = None, pv_key_allowlist = None, pv_lists_malformed = False,
     pv_group_tool_filter = None, pv_http_methods = None, pv_http_methods_malformed = False,
     pv_egress = \<lparr>eg_allow_loopback = False, eg_deny_private = False\<rparr>,
     pv_blocked = \<lparr>bl_since = [], bl_until = [], bl_by_rule = Map.empty, bl_upstream_address_denied = 0,
       bl_upstream_address_denied_by_class = Map.empty\<rparr>\<rparr>"

definition policyRun :: kp_state where
  "policyRun = settleK (KPolicy 1 storedKey) (KView somePolicy) (dropTaskK 1 (openPolicy storedKey (loadK kpBlank)))"

lemma policyRun_reach: "kp_reach decNum policyRun"
proof -
  let ?s = "openPolicy storedKey (loadK kpBlank)"
  have "kp_reach decNum ?s" by (rule kp_reach.kp_moved [OF kp_reach.kp_mounted kp_step.k_open_policy])
  moreover have t: "kp_tasks ?s = [KLoad, KPolicy 1 storedKey]" by (simp add: openPolicy_def loadK_def sendK_def kpBlank_def Let_def)
  have "kp_step decNum ?s (settleK (kp_tasks ?s ! 1) (KView somePolicy) (dropTaskK 1 ?s))"
    by (rule kp_step.k_settled) (simp_all add: t)
  then have "kp_step decNum ?s policyRun" unfolding policyRun_def by (simp add: t)
  ultimately show ?thesis by (rule kp_reach.kp_moved)
qed

section \<open>Properties\<close>

text \<open>
  Claim C6: when a step of the Virtual keys page sends a PATCH that carries a tool list, that step
  settles a fresh read of the same key with a row that is as readable as before and whose list of
  that name has the same entries, and the body is the one the form made of the row.
\<close>

theorem list_overwritten_only_when_fresh:
  assumes "kp_reach decNum s" "kp_step decNum s t"
    and "(path, js ''PATCH'', Some body) \<in> set (drop (length (kp_sent s)) (kp_sent t))" "objHas (fieldName fld) body"
  shows "\<exists>i mine row flds fresh f. i < length (kp_tasks s) \<and> kp_tasks s ! i = KFresh mine row flds body \<and> path = js ''/virtual-keys/'' @ vk_id row \<and>
     body = virtualKeyPatchBody decNum row f \<and> vk_lists_malformed fresh = vk_lists_malformed row \<and>
     set (orElse (rowList fresh fld) []) = set (orElse (rowList row fld) []) \<and>
     t = settleK (KFresh mine row flds body) (KMaybe (Some fresh)) (dropTaskK i s)"
proof -
  obtain i mine row flds fresh where i: "i < length (kp_tasks s)" "kp_tasks s ! i = KFresh mine row flds body" "path = js ''/virtual-keys/'' @ vk_id row"
    "\<not> keyPolicyStale row fresh flds" "t = settleK (KFresh mine row flds body) (KMaybe (Some fresh)) (dropTaskK i s)"
    using list_patch_step [OF assms(2,3,4)] by blast
  have "freshK_ok decNum (kp_tasks s ! i)" using tasksK_reach [OF assms(1)] i(1) by (simp add: tasksK_ok_def list_all_length)
  then obtain f where f: "body = virtualKeyPatchBody decNum row f" "flds = listsSent row f" using i(2) by (auto simp: freshK_ok_def)
  have "fld \<in> set flds" using assms(4) f keyPatch_list [of fld decNum row f] by (simp add: objHas_objGet split: if_splits)
  then show ?thesis using i f(1) keyPolicyStale_iff [of row fresh flds] by metis
qed

theorem list_overwritten_only_when_fresh_witness:
  "\<exists>i mine row flds fresh body. i < length (kp_tasks (replacedRun (\<lambda>_. NonFinite))) \<and> kp_tasks (replacedRun (\<lambda>_. NonFinite)) ! i = KFresh mine row flds body \<and>
     vk_lists_malformed (fresh :: virtual_key) = vk_lists_malformed row"
proof -
  let ?s = "replacedRun (\<lambda>_. NonFinite)"
  let ?b = "[(js ''tool_allowlist'', JArr []), (js ''tool_denylist'', JArr [])]"
  let ?t = "settleK (kp_tasks ?s ! 1) (KMaybe (Some storedKey)) (dropTaskK 1 ?s)"
  have "1 < length (kp_tasks ?s)" "answerFitsK (kp_tasks ?s ! 1) (KMaybe (Some storedKey))" by code_simp+
  then have step: "kp_step (\<lambda>_. NonFinite) ?s ?t" by (rule kp_step.k_settled)
  have "drop (length (kp_sent ?s)) (kp_sent ?t) = [(js ''/virtual-keys/k1'', js ''PATCH'', Some ?b)]" by code_simp
  then have "(js ''/virtual-keys/k1'', js ''PATCH'', Some ?b) \<in> set (drop (length (kp_sent ?s)) (kp_sent ?t))" by simp
  moreover have "objHas (fieldName AllowlistField) ?b" by code_simp
  ultimately show ?thesis using list_overwritten_only_when_fresh [OF replacedRun_reach step, of "js ''/virtual-keys/k1''" ?b AllowlistField] by blast
qed

text \<open>
  Claim C19: in every reachable state of the Virtual keys page a policy on screen was asked for the
  very key whose Policy dialog is open, however many dialogs were opened and closed while answers
  were on their way.
\<close>

theorem policy_belongs_to_the_key:
  assumes "kp_reach decNum s" "kp_policy s \<noteq> None"
  shows "kp_policyKey s \<noteq> None \<and> kp_policyOf s = kp_policyKey s"
  using policy_reach [OF assms(1)] assms(2) by (simp add: policy_inv_def)

theorem policy_belongs_to_the_key_witness: "kp_policyKey policyRun \<noteq> None \<and> kp_policyOf policyRun = kp_policyKey policyRun"
proof (rule policy_belongs_to_the_key)
  show "kp_reach (\<lambda>_. NonFinite) policyRun" by (rule policyRun_reach)
  show "kp_policy policyRun \<noteq> None" by (simp add: policyRun_def dropTaskK_def openPolicy_def loadK_def sendK_def kpBlank_def Let_def)
qed

text \<open>
  Claim C20: in every reachable state of the Virtual keys page with the create form up, every entry
  of the two lists was ticked or typed while the form named the target it names now.
\<close>

theorem entries_made_under_their_target:
  assumes "kp_reach decNum s" "kp_editing s = None" "x \<in> set (formList (kp_form s) fld)"
  shows "(kf_target_type (kp_form s), kf_target_id (kp_form s), x) \<in> set (kp_marks s)"
  using marks_reach [OF assms(1)] assms(2,3) by (cases fld) (auto simp: marks_inv_def formList_def)

theorem entries_made_under_their_target_witness: "(GroupTarget, js ''g1'', js ''x'') \<in> set (kp_marks deniedRun)"
proof -
  have "kp_editing deniedRun = None" "js ''x'' \<in> set (formList (kp_form deniedRun) DenylistField)"
    "kf_target_type (kp_form deniedRun) = GroupTarget" "kf_target_id (kp_form deniedRun) = js ''g1''" by code_simp+
  with entries_made_under_their_target [OF deniedRun_reach [of "\<lambda>_. NonFinite"]] show ?thesis by metis
qed

end
