(* ===== verification/Tab.thy ===== *)
theory Tab
  imports Session Overview UpstreamView GroupsPage KeysPage "HOL-Library.Multiset"
begin

text \<open>
  One browser tab: the session of \<open>Session\<close> and the page on screen, composed.

  \<open>app/(app)/layout.tsx\<close> mounts one page per route. A page that is left by a link or a sign-out is
  unmounted and draws no more, but its requests in flight still answer and the rest of their handlers still
  runs (a list is read again, a save follows its re-read, the workers of a Load tools press go on); a page
  load ends every script. \<open>tb_left\<close> holds the pages left since the last load, \<open>tb_gone\<close>, a ghost, the ones
  a load ended, and \<open>tb_checks\<close>, a ghost, counts the checks the login page sent.

  Every page machine keeps append-only logs of its requests. The locale \<open>recording_page\<close> is what the tab
  relies on; each page interprets it. The lemmas show that the session under the pages is a session of
  \<open>Session\<close>, that every page of the tab is in a state of its own machine, so that what is proved of a page
  holds in the tab, that the page on screen is the route's, that the requests sent are exactly the ones the
  pages recorded and the login checks, and that nothing sent while no key is stored is authorised.
\<close>

section \<open>Pages and their logs\<close>

datatype page =
    OverviewP ov_state
  | UpstreamsP up_state nat
  | GroupsP gp_state
  | KeysP kp_state
  | LogsP lp_state aa_state
  | SettingsP

fun routeOf :: "page \<Rightarrow> jstr" where
  "routeOf (OverviewP _) = js ''/''"
| "routeOf (UpstreamsP _ _) = js ''/upstreams/''"
| "routeOf (GroupsP _) = js ''/groups/''"
| "routeOf (KeysP _) = js ''/virtual-keys/''"
| "routeOf (LogsP _ _) = js ''/logs/''"
| "routeOf SettingsP = js ''/settings/''"

text \<open>\<open>api(path, { method, body: JSON.stringify(body) })\<close>, and \<open>api(path)\<close> for a read.\<close>

definition asInit :: "sent_request \<Rightarrow> jstr \<times> request_init" where
  "asInit r = (case r of (path, method, body) \<Rightarrow> (path, initOf method body))"

definition asPage :: "paged_path \<Rightarrow> page_request \<Rightarrow> jstr \<times> request_init" where
  "asPage path r = (case r of
     FirstReq g q \<Rightarrow> (pagePath (pathStr path) q [], getInit)
   | MoreReq g q c \<Rightarrow> (pagePath (pathStr path) q c, getInit))"

definition asFacets :: "jstr \<Rightarrow> jstr \<times> request_init" where
  "asFacets fq = (js ''/logs/facets?'' @ fq, getInit)"

definition upLogs :: "up_state \<Rightarrow> (jstr \<times> request_init) list list" where
  "upLogs s = [up_sent s]"

definition gpLogs :: "gp_state \<Rightarrow> (jstr \<times> request_init) list list" where
  "gpLogs s = [map asInit (gp_sent s), map discoverUpstream (uc_asked (gp_hook s))]"

definition kpLogs :: "kp_state \<Rightarrow> (jstr \<times> request_init) list list" where
  "kpLogs s = [map asInit (kp_sent s), map discoverUpstream (uc_asked (kp_hook s))]"

definition lpLogs :: "lp_state \<Rightarrow> (jstr \<times> request_init) list list" where
  "lpLogs s = [[(js ''/virtual-keys'', getInit), (js ''/upstreams'', getInit)], map (asPage LogsPath) (cp_sent (lp_pages s)),
     map asFacets (fh_log (lp_facets s))]"

definition aaLogs :: "aa_state \<Rightarrow> (jstr \<times> request_init) list list" where
  "aaLogs s = [map (asPage AdminEventsPath) (cp_sent (aa_pages s))]"

text \<open>The count of an Upstreams page: the redirect lines its dialog mounted, one request each.\<close>

fun pageLogs :: "page \<Rightarrow> (jstr \<times> request_init) list list" where
  "pageLogs (OverviewP _) = [ovRequests]"
| "pageLogs (UpstreamsP s n) = replicate n oauthClientMetadata # upLogs s"
| "pageLogs (GroupsP s) = gpLogs s"
| "pageLogs (KeysP s) = kpLogs s"
| "pageLogs (LogsP s a) = lpLogs s @ aaLogs a"
| "pageLogs SettingsP = []"

definition newLogs :: "'r list list \<Rightarrow> 'r list list \<Rightarrow> 'r list" where
  "newLogs a b = concat (map2 (\<lambda>x y. drop (length x) y) a b)"

section \<open>Turns of a page\<close>

inductive aa_step :: "aa_state \<Rightarrow> aa_state \<Rightarrow> bool" where
  a_pick: "r \<in> fst ` set RESOURCES \<Longrightarrow> aa_step s (pickResource r s)"
| a_more: "aa_step s (s\<lparr>aa_pages := loadMore (aa_pages s)\<rparr>)"
| a_rows: "i < length (cp_pending (aa_pages s)) \<Longrightarrow> aa_step s (s\<lparr>aa_pages := settleReq AdminEventsPath i ans (aa_pages s)\<rparr>)"

inductive page_step :: "url_parser \<Rightarrow> zone \<Rightarrow> (jstr \<Rightarrow> jnum) \<Rightarrow> page \<Rightarrow> page \<Rightarrow> bool" for URL z decNum where
  p_stats: "ov_statsAns v = None \<Longrightarrow> page_step URL z decNum (OverviewP v) (OverviewP (statsAnswer sa v))"
| p_recent: "ov_logsAns v = None \<Longrightarrow> page_step URL z decNum (OverviewP v) (OverviewP (logsAnswer la v))"
| p_upstreams: "up_step URL u t \<Longrightarrow> page_step URL z decNum (UpstreamsP u n) (UpstreamsP t n)"
| p_redirect: "up_open u \<Longrightarrow> uf_auth_type (up_form u) = js ''oauth'' \<Longrightarrow> page_step URL z decNum (UpstreamsP u n) (UpstreamsP u (Suc n))"
| p_groups: "gp_step g h \<Longrightarrow> page_step URL z decNum (GroupsP g) (GroupsP h)"
| p_keys: "kp_step decNum k l \<Longrightarrow> page_step URL z decNum (KeysP k) (KeysP l)"
| p_logs: "lp_step z x y \<Longrightarrow> page_step URL z decNum (LogsP x a) (LogsP y a)"
| p_admin: "aa_step a b \<Longrightarrow> page_step URL z decNum (LogsP x a) (LogsP x b)"

inductive_cases page_stepE: "page_step URL z decNum p q"

text \<open>What a page that was left still does: its requests answer. The two paging hooks and the facet hook abort theirs.\<close>

inductive late_step :: "url_parser \<Rightarrow> page \<Rightarrow> page \<Rightarrow> bool" for URL where
  l_upstreams: "i < length (up_tasks u) \<Longrightarrow> answerFits (up_tasks u ! i) ua \<Longrightarrow>
     late_step URL (UpstreamsP u n) (UpstreamsP (settleUp URL (up_tasks u ! i) ua (dropTask i u)) n)"
| l_groups: "i < length (gp_tasks g) \<Longrightarrow> answerFitsG (gp_tasks g ! i) ga \<Longrightarrow>
     late_step URL (GroupsP g) (GroupsP (settleG (gp_tasks g ! i) ga (dropTaskG i g)))"
| l_group_tools: "r < length (uc_runs (gp_hook g)) \<Longrightarrow> w < length (dm_workers (run_dm (uc_runs (gp_hook g) ! r))) \<Longrightarrow>
     dm_workers (run_dm (uc_runs (gp_hook g) ! r)) ! w = WAwait i \<Longrightarrow>
     late_step URL (GroupsP g) (GroupsP (g\<lparr>gp_hook := answerRun r w i da (gp_hook g)\<rparr>))"
| l_keys: "i < length (kp_tasks k) \<Longrightarrow> answerFitsK (kp_tasks k ! i) ka \<Longrightarrow>
     late_step URL (KeysP k) (KeysP (settleK (kp_tasks k ! i) ka (dropTaskK i k)))"
| l_key_tools: "r < length (uc_runs (kp_hook k)) \<Longrightarrow> w < length (dm_workers (run_dm (uc_runs (kp_hook k) ! r))) \<Longrightarrow>
     dm_workers (run_dm (uc_runs (kp_hook k) ! r)) ! w = WAwait i \<Longrightarrow>
     late_step URL (KeysP k) (KeysP (k\<lparr>kp_hook := answerRun r w i da (kp_hook k)\<rparr>))"

inductive_cases late_stepE: "late_step URL p q"

lemma late_is_page_step: "late_step URL p q \<Longrightarrow> page_step URL z decNum p q"
  by (erule late_stepE) (auto intro: page_step.intros up_step.settled gp_step.g_settled gp_step.g_tool_answer kp_step.k_settled kp_step.k_tool_answer)

text \<open>The pages a route mounts.\<close>

inductive mounts :: "zone \<Rightarrow> jstr \<Rightarrow> page \<Rightarrow> bool" for z where
  m_overview: "mounts z (js ''/'') (OverviewP ovMount)"
| m_upstreams: "mounts z (js ''/upstreams/'') (UpstreamsP (loadUpstreams (upBlank st choices)) 0)"
| m_groups: "mounts z (js ''/groups/'') (GroupsP (loadG gpBlank))"
| m_keys: "mounts z (js ''/virtual-keys/'') (KeysP (loadK kpBlank))"
| m_logs: "mounts z (js ''/logs/'') (LogsP (lpMount z now) aaMount)"
| m_settings: "mounts z (js ''/settings/'') SettingsP"

inductive_cases mountsE: "mounts z path p"

fun pageReach :: "url_parser \<Rightarrow> zone \<Rightarrow> (jstr \<Rightarrow> jnum) \<Rightarrow> page \<Rightarrow> bool" where
  "pageReach URL z decNum (OverviewP s) = ov_reach s"
| "pageReach URL z decNum (UpstreamsP s n) = up_reach URL s"
| "pageReach URL z decNum (GroupsP s) = gp_reach s"
| "pageReach URL z decNum (KeysP s) = kp_reach decNum s"
| "pageReach URL z decNum (LogsP s a) = (lp_reach z s \<and> aa_reach a)"
| "pageReach URL z decNum SettingsP = True"

lemma mounts_reach: "mounts z path p \<Longrightarrow> pageReach URL z decNum p \<and> routeOf p = path"
  by (erule mountsE) (auto intro: ov_reach.ov_mounted up_reach.up_mounted gp_reach.gp_mounted kp_reach.kp_mounted lp_reach.lp_mounted aa_reach.aa_mounted)

lemma page_step_reach: "page_step URL z decNum p q \<Longrightarrow> pageReach URL z decNum p \<Longrightarrow> pageReach URL z decNum q \<and> routeOf q = routeOf p"
  by (erule page_stepE)
     (auto intro: ov_reach.intros up_reach.up_moved gp_reach.gp_moved kp_reach.kp_moved lp_reach.lp_moved aa_reach.intros elim!: aa_step.cases)

section \<open>Logs only grow\<close>

definition grows :: "'r list list \<Rightarrow> 'r list list \<Rightarrow> bool" where
  "grows a b \<longleftrightarrow> list_all2 (\<lambda>x y. \<exists>n. y = x @ n) a b"

lemma grows_newLogs: "grows a b \<Longrightarrow> mset (concat b) = mset (concat a) + mset (newLogs a b)"
  unfolding grows_def by (induction rule: list_all2_induct) (auto simp: newLogs_def)

lemma grows_refl [simp]: "grows a a"
  by (auto simp: grows_def intro!: list_all2_refl)

lemma grows_Cons [simp]: "grows (x # a) (y # b) \<longleftrightarrow> (\<exists>n. y = x @ n) \<and> grows a b"
  by (simp add: grows_def)

lemma grows_append: "grows a b \<Longrightarrow> grows c d \<Longrightarrow> grows (a @ c) (b @ d)"
  by (auto simp: grows_def intro: list_all2_appendI)

lemma grows_map: "\<exists>n. y = x @ n \<Longrightarrow> \<exists>n. map f y = map f x @ n"
  by auto

locale recording_page =
  fixes step :: "'s \<Rightarrow> 's \<Rightarrow> bool" and reach :: "'s \<Rightarrow> bool" and logs :: "'s \<Rightarrow> 'r list list"
  assumes step_reach: "step s t \<Longrightarrow> reach s \<Longrightarrow> reach t"
    and step_grows: "step s t \<Longrightarrow> grows (logs s) (logs t)"
begin

lemma asked: "step s t \<Longrightarrow> mset (concat (logs t)) = mset (concat (logs s)) + mset (newLogs (logs s) (logs t))"
  by (rule grows_newLogs [OF step_grows])

lemma asked_kept: "step s t \<Longrightarrow> set (concat (logs s)) \<subseteq> set (concat (logs t))"
  by (drule asked) (metis set_mset_mset set_mset_union Un_upper1)

end

lemmas up_handlers = addTask_def sendUp_def loadUpstreams_def refreshUpstreams_def showUpstreams_def resetFormDiscovery_def onFieldChange_def
  changeKind_def discoverForm_def discoverRow_def openTools_def closeTools_def openedUp_def openAdd_def openEditUp_def closeUp_def loadIfGone_def
  failedUp_def createUp_def rememberRegister_def saveUp_def submitUp_def closeDeleteUp_def connectUp_def closeRevokeUp_def revokeUp_def removeUp_def
  restoredUp_def unsave_def releaseConnect_def dropTask_def

text \<open>No caller of \<open>api\<close> sets headers of its own.\<close>

definition plainReq :: "jstr \<times> request_init \<Rightarrow> bool" where
  "plainReq r \<longleftrightarrow> ri_headers (snd r) = Map.empty"

lemma plain_calls [simp]:
  "plainReq (path, getInit)" "plainReq (path, initOf m b)" "plainReq (discoverUpstream i)" "plainReq (discoverUpstreamPayload ob)"
  "plainReq (oauthStart i c)" "plainReq (oauthRevoke i)" "plainReq oauthClientMetadata" "plainReq (asInit r)" "plainReq (asPage pp pr)" "plainReq (asFacets fq)"
  by (simp_all add: plainReq_def initOf_def discoverUpstream_def discoverUpstreamPayload_def oauthStart_def oauthRevoke_def oauthClientMetadata_def
      postInit_def asInit_def asPage_def asFacets_def split: prod.splits page_request.splits)

lemma settleUp_grows: "\<exists>n. up_sent (settleUp URL t ans s) = up_sent s @ n \<and> list_all plainReq n"
  by (cases t; cases ans) (simp_all add: up_handlers Let_def split: option.splits if_splits)

lemma up_step_grows: "up_step URL s t \<Longrightarrow> \<exists>n. up_sent t = up_sent s @ n \<and> list_all plainReq n"
proof (erule up_stepE)
  fix i ans assume "t = settleUp URL (up_tasks s ! i) ans (dropTask i s)"
  then show ?thesis using settleUp_grows [of URL "up_tasks s ! i" ans "dropTask i s"] by (simp add: dropTask_def)
qed (auto simp: up_handlers Let_def split: option.splits if_splits)

lemma up_reach_plain: "up_reach URL s \<Longrightarrow> list_all plainReq (up_sent s)"
proof (induction rule: up_reach.induct)
  case (up_mounted st choices) show ?case by (simp add: loadUpstreams_def sendUp_def addTask_def upBlank_def)
next
  case (up_moved s t) then show ?case using up_step_grows [of URL s t] by auto
qed

interpretation upstreams_log: recording_page "up_step URL" "up_reach URL" upLogs for URL
  by unfold_locales (auto intro: up_reach.up_moved simp: upLogs_def dest: up_step_grows)

lemma hook_grows:
  "\<exists>n. uc_asked (rerender k c) = uc_asked c @ n" "\<exists>n. uc_asked (loadTools k ms i c) = uc_asked c @ n"
  "\<exists>n. uc_asked (answerRun r w j ans c) = uc_asked c @ n" "uc_asked (finishRun r c) = uc_asked c"
  by (simp_all add: rerender_def loadTools_def answerRun_def finishRun_def Let_def)

lemma settleG_grows: "\<exists>n. gp_sent (settleG t ans s) = gp_sent s @ n"
  by (cases t; cases ans) (simp_all add: g_handlers split: option.splits if_splits)

lemma gp_step_grows: "gp_step s t \<Longrightarrow> (\<exists>n. gp_sent t = gp_sent s @ n) \<and> (\<exists>n. uc_asked (gp_hook t) = uc_asked (gp_hook s) @ n)"
proof (erule gp_stepE)
  fix i ans assume "t = settleG (gp_tasks s ! i) ans (dropTaskG i s)"
  then show ?thesis using settleG_grows [of "gp_tasks s ! i" ans "dropTaskG i s"] by (simp add: dropTaskG_def)
qed (auto simp: hook_grows, auto simp: hook_grows g_handlers openCreateG_def openEditG_def openedG_def loadToolsG_def split: option.splits if_splits)

interpretation groups_log: recording_page gp_step gp_reach gpLogs
  by unfold_locales (auto intro: gp_reach.gp_moved grows_map dest: gp_step_grows simp: gpLogs_def)

lemma settleK_grows: "\<exists>n. kp_sent (settleK t ans s) = kp_sent s @ n"
  by (cases t; cases ans) (simp_all add: k_handlers split: option.splits if_splits)

lemma kp_step_grows: "kp_step decNum s t \<Longrightarrow> (\<exists>n. kp_sent t = kp_sent s @ n) \<and> (\<exists>n. uc_asked (kp_hook t) = uc_asked (kp_hook s) @ n)"
proof (erule kp_stepE)
  fix i ans assume "t = settleK (kp_tasks s ! i) ans (dropTaskK i s)"
  then show ?thesis using settleK_grows [of "kp_tasks s ! i" ans "dropTaskK i s"] by (simp add: dropTaskK_def)
qed (auto simp: hook_grows, auto simp: hook_grows k_handlers openCreateK_def openEditK_def openedK_def retarget_def loadToolsK_def split: option.splits if_splits)

interpretation keys_log: recording_page "kp_step decNum" "kp_reach decNum" kpLogs for decNum
  by unfold_locales (auto intro: kp_reach.kp_moved grows_map dest: kp_step_grows simp: kpLogs_def)

lemma pages_grow:
  "\<exists>n. cp_sent (newQuery q p) = cp_sent p @ n" "\<exists>n. cp_sent (renderPages q p) = cp_sent p @ n"
  "\<exists>n. cp_sent (loadMore p) = cp_sent p @ n" "cp_sent (settleReq path i ans p) = cp_sent p"
  by (auto simp: newQuery_def renderPages_def loadMore_def settleReq_def answerReq_def answerFirst_def answerMore_def Let_def
      split: option.splits page_request.splits sum.splits)

lemma facets_grow:
  "\<exists>n. fh_log (fetchEffect w h) = fh_log h @ n" "\<exists>n. fh_log (changeFq fq la h) = fh_log h @ n" "\<exists>n. fh_log (listChange la h) = fh_log h @ n"
  "\<exists>n. fh_log (timerFires h) = fh_log h @ n" "fh_log (answerFacets i ans h) = fh_log h" "\<exists>n. fh_log (renderFacets fq la h) = fh_log h @ n"
  by (auto simp: fetchEffect_def changeFq_def listChange_def timerFires_def answerFacets_def renderFacets_def abortHeld_def Let_def
      split: option.splits prod.splits sum.splits)

definition lpGrows :: "lp_state \<Rightarrow> lp_state \<Rightarrow> bool" where
  "lpGrows s t \<longleftrightarrow> (\<exists>n. cp_sent (lp_pages t) = cp_sent (lp_pages s) @ n) \<and> (\<exists>n. fh_log (lp_facets t) = fh_log (lp_facets s) @ n)"

lemma renderL_grows: "lpGrows s (renderL z s)"
  by (simp add: lpGrows_def renderL_def pages_grow facets_grow Let_def)

lemma lpGrows_from: "lpGrows s' t \<Longrightarrow> cp_sent (lp_pages s') = cp_sent (lp_pages s) \<Longrightarrow> fh_log (lp_facets s') = fh_log (lp_facets s) \<Longrightarrow> lpGrows s t"
  by (simp add: lpGrows_def)

lemma changeL_grows: "lpGrows s (changeL z now patch s)"
  unfolding changeL_def by (rule lpGrows_from [OF renderL_grows]) simp_all

lemma lp_step_grows: "lp_step z s t \<Longrightarrow> lpGrows s t"
proof (erule lp_stepE)
  fix p assume "t = pickL z p s"
  then show ?thesis unfolding pickL_def by (auto intro!: lpGrows_from [OF renderL_grows])
next
  fix i ans assume "t = pageAnswerL z i ans s"
  then show ?thesis unfolding pageAnswerL_def by (auto intro!: lpGrows_from [OF renderL_grows] simp: pages_grow)
qed (auto simp: changeL_grows changePeriod_def syncInput_def Let_def,
     auto simp: lpGrows_def pressMoreL_def keysAnswerL_def namesAnswerL_def pages_grow facets_grow split: sum.splits)

interpretation logs_log: recording_page "lp_step z" "lp_reach z" lpLogs for z
proof unfold_locales
  show "lp_step z s t \<Longrightarrow> lp_reach z s \<Longrightarrow> lp_reach z t" for s t by (rule lp_reach.lp_moved)
  show "lp_step z s t \<Longrightarrow> grows (lpLogs s) (lpLogs t)" for s t
    by (drule lp_step_grows) (auto simp: lpLogs_def lpGrows_def)
qed

interpretation admin_log: recording_page aa_step aa_reach aaLogs
  by unfold_locales (auto intro: aa_reach.intros grows_map simp: aaLogs_def pickResource_def pages_grow elim!: aa_step.cases)

lemma page_step_grows: "page_step URL z decNum p q \<Longrightarrow> grows (pageLogs p) (pageLogs q)"
proof (erule page_stepE)
  fix u n assume "p = UpstreamsP u n" "q = UpstreamsP u (Suc n)"
  moreover have "replicate (Suc n) oauthClientMetadata = replicate n oauthClientMetadata @ [oauthClientMetadata]" by (simp only: replicate_Suc replicate_append_same)
  ultimately show ?thesis by (simp del: replicate_Suc)
next
  fix x y a assume "p = LogsP x a" "q = LogsP y a" "lp_step z x y"
  then show ?thesis by (simp add: grows_append logs_log.step_grows)
next
  fix x a b assume "p = LogsP x a" "q = LogsP x b" "aa_step a b"
  then show ?thesis by (simp add: grows_append admin_log.step_grows)
qed (auto simp: upstreams_log.step_grows groups_log.step_grows keys_log.step_grows)

interpretation any_page: recording_page "page_step URL z decNum" "pageReach URL z decNum" pageLogs for URL z decNum
  by unfold_locales (auto simp: page_step_reach page_step_grows)

section \<open>The tab\<close>

record tab_state =
  tb_session :: se_state
  tb_page :: "page option"
  tb_left :: "page list"
  tb_gone :: "page list"
  tb_checks :: nat

definition sendAll :: "jstr \<Rightarrow> (jstr \<times> request_init) list \<Rightarrow> se_state \<Rightarrow> se_state" where
  "sendAll base rs s = fold (pageRequest base) rs s"

definition onScreen :: "tab_state \<Rightarrow> page list" where
  "onScreen t = (case tb_page t of None \<Rightarrow> [] | Some p \<Rightarrow> [p])"

definition allPages :: "tab_state \<Rightarrow> page list" where
  "allPages t = onScreen t @ tb_left t @ tb_gone t"

definition enterPage :: "jstr \<Rightarrow> page \<Rightarrow> tab_state \<Rightarrow> tab_state" where
  "enterPage base p t =
     (if drawn (tb_session t) then t\<lparr>tb_page := Some p, tb_session := sendAll base (concat (pageLogs p)) (tb_session t)\<rparr> else t)"

definition leavePage :: "tab_state \<Rightarrow> tab_state" where
  "leavePage t = t\<lparr>tb_page := None, tb_left := onScreen t @ tb_left t\<rparr>"

definition loadTab :: "jstr \<Rightarrow> jstr \<Rightarrow> page \<Rightarrow> tab_state \<Rightarrow> tab_state" where
  "loadTab base path p t =
     enterPage base p (t\<lparr>tb_session := loadPage path (tb_session t), tb_page := None, tb_left := [], tb_gone := allPages t\<rparr>)"

definition moveTab :: "jstr \<Rightarrow> jstr \<Rightarrow> page \<Rightarrow> tab_state \<Rightarrow> tab_state" where
  "moveTab base path p t = enterPage base p ((leavePage t)\<lparr>tb_session := goTo path (tb_session t)\<rparr>)"

definition submitTab :: "jstr \<Rightarrow> tab_state \<Rightarrow> tab_state" where
  "submitTab base t = t\<lparr>tb_session := onSubmit base (tb_session t), tb_checks := Suc (tb_checks t)\<rparr>"

definition answerTab :: "jstr \<Rightarrow> failure option \<Rightarrow> page \<Rightarrow> tab_state \<Rightarrow> tab_state" where
  "answerTab base ans p t = enterPage base p (t\<lparr>tb_session := loginAnswer ans (tb_session t)\<rparr>)"

definition signOutTab :: "tab_state \<Rightarrow> tab_state" where
  "signOutTab t = (leavePage t)\<lparr>tb_session := signOut (tb_session t)\<rparr>"

definition turnTab :: "jstr \<Rightarrow> page \<Rightarrow> page \<Rightarrow> tab_state \<Rightarrow> tab_state" where
  "turnTab base p q t = t\<lparr>tb_page := Some q, tb_session := sendAll base (newLogs (pageLogs p) (pageLogs q)) (tb_session t)\<rparr>"

definition lateTab :: "jstr \<Rightarrow> nat \<Rightarrow> page \<Rightarrow> tab_state \<Rightarrow> tab_state" where
  "lateTab base i q t =
     t\<lparr>tb_left := (tb_left t)[i := q], tb_session := sendAll base (newLogs (pageLogs (tb_left t ! i)) (pageLogs q)) (tb_session t)\<rparr>"

definition newTab :: tab_state where
  "newTab = \<lparr>tb_session = loadPage LOGIN (sessionBlank Map.empty), tb_page = None, tb_left = [], tb_gone = [], tb_checks = 0\<rparr>"

text \<open>A tab opens with empty session storage, so whatever route it loads first ends at the login page. Links lead to another
  route; the login page is reached by signing out or by a load, which mounts no page.\<close>

inductive tab_step :: "jstr \<Rightarrow> url_parser \<Rightarrow> zone \<Rightarrow> (jstr \<Rightarrow> jnum) \<Rightarrow> tab_state \<Rightarrow> tab_state \<Rightarrow> bool" for base URL z decNum where
  t_load: "mounts z path p \<or> path = LOGIN \<Longrightarrow> tab_step base URL z decNum t (loadTab base path p t)"
| t_link: "drawn (tb_session t) \<Longrightarrow> path \<noteq> se_path (tb_session t) \<Longrightarrow> mounts z path p \<Longrightarrow> tab_step base URL z decNum t (moveTab base path p t)"
| t_key: "se_path (tb_session t) = LOGIN \<Longrightarrow> tab_step base URL z decNum t (t\<lparr>tb_session := (tb_session t)\<lparr>se_key := v\<rparr>\<rparr>)"
| t_submit: "loginReady (tb_session t) \<Longrightarrow> tab_step base URL z decNum t (submitTab base t)"
| t_answer: "se_tasks (tb_session t) \<noteq> [] \<Longrightarrow> mounts z (js ''/'') p \<Longrightarrow> tab_step base URL z decNum t (answerTab base ans p t)"
| t_replace: "tb_page t = Some SettingsP \<Longrightarrow> tab_step base URL z decNum t (t\<lparr>tb_session := (tb_session t)\<lparr>se_replace := v\<rparr>\<rparr>)"
| t_save: "tb_page t = Some SettingsP \<Longrightarrow> tab_step base URL z decNum t (t\<lparr>tb_session := saveKey (tb_session t)\<rparr>)"
| t_sign_out: "drawn (tb_session t) \<Longrightarrow> tab_step base URL z decNum t (signOutTab t)"
| t_turn: "tb_page t = Some p \<Longrightarrow> page_step URL z decNum p q \<Longrightarrow> tab_step base URL z decNum t (turnTab base p q t)"
| t_late: "i < length (tb_left t) \<Longrightarrow> late_step URL (tb_left t ! i) q \<Longrightarrow> tab_step base URL z decNum t (lateTab base i q t)"

inductive_cases tab_stepE: "tab_step base URL z decNum t u"

inductive tab_reach :: "jstr \<Rightarrow> url_parser \<Rightarrow> zone \<Rightarrow> (jstr \<Rightarrow> jnum) \<Rightarrow> tab_state \<Rightarrow> bool" for base URL z decNum where
  tab_opened: "tab_reach base URL z decNum newTab"
| tab_moved: "tab_reach base URL z decNum t \<Longrightarrow> tab_step base URL z decNum t u \<Longrightarrow> tab_reach base URL z decNum u"

section \<open>The parts of a tab\<close>

lemma sendAll_eq:
  "sendAll base rs s = s\<lparr>se_sent := se_sent s @ map (\<lambda>r. apiRequest base (Some (se_storage s)) (fst r) (snd r)) rs\<rparr>"
  by (induction rs arbitrary: s) (simp_all add: sendAll_def pageRequest_def)

lemma sendAll_keeps [simp]:
  "drawn (sendAll base rs s) = drawn s" "se_path (sendAll base rs s) = se_path s" "se_tasks (sendAll base rs s) = se_tasks s"
  "se_storage (sendAll base rs s) = se_storage s"
  by (simp_all add: sendAll_eq drawn_def)

lemma sendAll_reach: "se_reach base s \<Longrightarrow> list_all plainReq rs \<Longrightarrow> se_reach base (sendAll base rs s)"
  by (induction rs arbitrary: s) (simp_all add: sendAll_def plainReq_def se_reach.se_asked)

lemma pages_plain: "pageReach URL z decNum p \<Longrightarrow> list_all plainReq (concat (pageLogs p))"
  by (cases p) (auto simp: ovRequests_def upLogs_def gpLogs_def kpLogs_def lpLogs_def aaLogs_def list_all_iff dest: up_reach_plain)

lemma newLogs_subset: "set (newLogs a b) \<subseteq> set (concat b)"
  by (auto simp: newLogs_def dest!: set_zip_rightD in_set_dropD)

lemma news_plain: "pageReach URL z decNum q \<Longrightarrow> list_all plainReq (newLogs (pageLogs p) (pageLogs q))"
  using pages_plain [of URL z decNum q] newLogs_subset [of "pageLogs p" "pageLogs q"] by (auto simp: list_all_iff)

definition parts_ok :: "jstr \<Rightarrow> url_parser \<Rightarrow> zone \<Rightarrow> (jstr \<Rightarrow> jnum) \<Rightarrow> tab_state \<Rightarrow> bool" where
  "parts_ok base URL z decNum t \<longleftrightarrow> se_reach base (tb_session t) \<and> (\<forall>p \<in> set (allPages t). pageReach URL z decNum p)"

definition route_ok :: "tab_state \<Rightarrow> bool" where
  "route_ok t \<longleftrightarrow> (case tb_page t of None \<Rightarrow> \<not> drawn (tb_session t) | Some p \<Rightarrow> drawn (tb_session t) \<and> routeOf p = se_path (tb_session t))"

lemma enterPage_ok:
  assumes "se_reach base (tb_session t)" "\<forall>p \<in> set (tb_left t @ tb_gone t). pageReach URL z decNum p" "tb_page t = None"
    and "drawn (tb_session t) \<Longrightarrow> pageReach URL z decNum p \<and> routeOf p = se_path (tb_session t)"
  shows "parts_ok base URL z decNum (enterPage base p t) \<and> route_ok (enterPage base p t)"
  using assms by (auto simp: enterPage_def parts_ok_def route_ok_def allPages_def onScreen_def intro!: sendAll_reach pages_plain)

lemma goTo_path: "drawn (goTo path s) \<Longrightarrow> se_path (goTo path s) = path"
  by (auto simp: goTo_def drawn_def renderGate_def gateEffect_def loginBlank_def Let_def split: if_splits)

lemma loadPage_path: "drawn (loadPage path s) \<Longrightarrow> se_path (loadPage path s) = path \<and> path \<noteq> LOGIN"
  by (auto simp: loadPage_def drawn_def renderGate_def gateEffect_def loginBlank_def Let_def split: if_splits)

lemma mounts_not_login: "mounts z path p \<Longrightarrow> path \<noteq> LOGIN"
  by (erule mountsE) (simp_all add: LOGIN_def)

definition tab_ok :: "jstr \<Rightarrow> url_parser \<Rightarrow> zone \<Rightarrow> (jstr \<Rightarrow> jnum) \<Rightarrow> tab_state \<Rightarrow> bool" where
  "tab_ok base URL z decNum t \<longleftrightarrow> parts_ok base URL z decNum t \<and> route_ok t"

lemmas tab_ok_defs = tab_ok_def parts_ok_def route_ok_def allPages_def onScreen_def

lemma tab_okD:
  assumes "tab_ok base URL z decNum t"
  shows "se_reach base (tb_session t)" "p \<in> set (allPages t) \<Longrightarrow> pageReach URL z decNum p" "tb_page t = None \<longleftrightarrow> \<not> drawn (tb_session t)"
    "tb_page t = Some q \<Longrightarrow> drawn (tb_session t) \<and> routeOf q = se_path (tb_session t)"
  using assms by (auto simp: tab_ok_defs split: option.splits)

lemma ok_load:
  assumes "tab_ok base URL z decNum t" "mounts z path p \<or> path = LOGIN"
  shows "tab_ok base URL z decNum (loadTab base path p t)"
  unfolding loadTab_def tab_ok_def
  using tab_okD(1,2) [OF assms(1)] assms(2) loadPage_path [of path "tb_session t"] mounts_reach [of z path p URL decNum]
  by (intro enterPage_ok) (auto intro: se_reach.se_loaded)

lemma ok_link:
  assumes "tab_ok base URL z decNum t" "drawn (tb_session t)" "mounts z path p"
  shows "tab_ok base URL z decNum (moveTab base path p t)"
  unfolding moveTab_def tab_ok_def
  using tab_okD(1,2) [OF assms(1)] assms(2) goTo_path [of path "tb_session t"] mounts_reach [OF assms(3), of URL decNum] mounts_not_login [OF assms(3)]
  by (intro enterPage_ok) (auto simp: leavePage_def allPages_def intro: se_reach.se_moved)

lemma answering:
  assumes "tab_ok base URL z decNum t" "se_tasks (tb_session t) \<noteq> []"
  shows "tb_page t = None" "drawn (loginAnswer ans (tb_session t)) \<Longrightarrow> se_path (loginAnswer ans (tb_session t)) = js ''/''"
proof -
  have d: "\<not> drawn (tb_session t)"
    using tab_okD(1) [OF assms(1)] assms(2) se_reach_inv [of base "tb_session t"] by (auto simp: gate_inv_def login_inv_def drawn_def)
  then show "tb_page t = None" using tab_okD(3) [OF assms(1)] by blast
  show "drawn (loginAnswer ans (tb_session t)) \<Longrightarrow> se_path (loginAnswer ans (tb_session t)) = js ''/''"
    using d goTo_path by (auto simp: loginAnswer_def Let_def drawn_def split: option.splits)
qed

lemma ok_answer:
  assumes "tab_ok base URL z decNum t" "se_tasks (tb_session t) \<noteq> []" "mounts z (js ''/'') p"
  shows "tab_ok base URL z decNum (answerTab base ans p t)"
  unfolding answerTab_def tab_ok_def
  using tab_okD(1,2) [OF assms(1)] answering(1) [OF assms(1,2)] answering(2) [OF assms(1,2), of ans] assms(2) mounts_reach [OF assms(3), of URL decNum]
  by (intro enterPage_ok) (auto simp: allPages_def intro: se_reach.se_answered)

lemma saveKey_stays: "drawn s \<Longrightarrow> drawn (saveKey s) \<and> se_path (saveKey s) = se_path s"
  by (simp add: saveKey_def renderGate_def drawn_def useAdminKey_def storedKey_of_def Let_def)

lemma ok_save:
  assumes "tab_ok base URL z decNum t" "tb_page t = Some SettingsP"
  shows "tab_ok base URL z decNum (t\<lparr>tb_session := saveKey (tb_session t)\<rparr>)"
  using tab_okD(1,2) [OF assms(1)] tab_okD(4) [OF assms] assms(2) saveKey_stays [of "tb_session t"]
  by (auto simp: tab_ok_defs intro: se_reach.se_saved)

lemma ok_turn:
  assumes "tab_ok base URL z decNum t" "tb_page t = Some p" "page_step URL z decNum p q"
  shows "tab_ok base URL z decNum (turnTab base p q t)"
proof -
  have "pageReach URL z decNum q \<and> routeOf q = routeOf p"
    using page_step_reach [OF assms(3)] tab_okD(2) [OF assms(1), of p] assms(2) by (simp add: allPages_def onScreen_def)
  then show ?thesis using assms(1,2) by (auto simp: turnTab_def tab_ok_defs intro!: sendAll_reach news_plain)
qed

lemma ok_late:
  assumes "tab_ok base URL z decNum t" "i < length (tb_left t)" "late_step URL (tb_left t ! i) q"
  shows "tab_ok base URL z decNum (lateTab base i q t)"
proof -
  have "pageReach URL z decNum q"
    using page_step_reach [OF late_is_page_step [OF assms(3)]] tab_okD(2) [OF assms(1), of "tb_left t ! i"] assms(2) by (simp add: allPages_def)
  then show ?thesis
    using assms(1) by (auto simp: lateTab_def tab_ok_defs intro!: sendAll_reach news_plain
        dest!: set_update_subset_insert [THEN subsetD] split: option.splits)
qed

lemma ok_sign_out: "tab_ok base URL z decNum t \<Longrightarrow> drawn (tb_session t) \<Longrightarrow> tab_ok base URL z decNum (signOutTab t)"
  using signOut_closes(1) [of "tb_session t"] se_reach.se_left [of base "tb_session t"]
  by (auto simp: signOutTab_def leavePage_def tab_ok_defs)

lemma ok_form:
  assumes "tab_ok base URL z decNum t" "se_reach base s" "drawn s = drawn (tb_session t)" "se_path s = se_path (tb_session t)"
  shows "tab_ok base URL z decNum (t\<lparr>tb_session := s\<rparr>)"
  using assms by (auto simp: tab_ok_defs split: option.splits)

lemma ok_submit: "tab_ok base URL z decNum t \<Longrightarrow> loginReady (tb_session t) \<Longrightarrow> tab_ok base URL z decNum (submitTab base t)"
  using se_reach.se_submitted [of base "tb_session t"]
  by (auto simp: submitTab_def tab_ok_defs onSubmit_def drawn_def Let_def split: option.splits)

lemma tab_step_ok: "tab_step base URL z decNum t u \<Longrightarrow> tab_ok base URL z decNum t \<Longrightarrow> tab_ok base URL z decNum u"
proof (erule tab_stepE)
  fix v assume t: "tab_ok base URL z decNum t" and u: "u = t\<lparr>tb_session := tb_session t\<lparr>se_key := v\<rparr>\<rparr>" "se_path (tb_session t) = LOGIN"
  show ?thesis unfolding u(1) using tab_okD(1) [OF t] u(2) by (intro ok_form [OF t]) (simp_all add: drawn_def se_reach.se_typing)
next
  fix v assume t: "tab_ok base URL z decNum t" and u: "u = t\<lparr>tb_session := tb_session t\<lparr>se_replace := v\<rparr>\<rparr>" "tb_page t = Some SettingsP"
  show ?thesis unfolding u(1)
    using tab_okD(1) [OF t] tab_okD(4) [OF t u(2)] by (intro ok_form [OF t]) (simp_all add: drawn_def se_reach.se_replacing)
qed (simp_all add: ok_load ok_link ok_answer ok_save ok_turn ok_late ok_sign_out ok_submit)

lemma tab_reach_ok: "tab_reach base URL z decNum t \<Longrightarrow> tab_ok base URL z decNum t"
proof (induction rule: tab_reach.induct)
  case tab_opened
  have "\<not> drawn (loadPage LOGIN (sessionBlank Map.empty))" by (simp add: loadPage_def drawn_def loginBlank_def)
  then show ?case by (simp add: newTab_def tab_ok_defs se_reach.se_started)
qed (rule tab_step_ok)

section \<open>The server is asked what the pages asked\<close>

definition coreOf :: "jstr \<Rightarrow> jstr \<times> request_init \<Rightarrow> jstr \<times> jstr \<times> jstr option" where
  "coreOf base r = (base @ js ''/api/v1'' @ fst r, ri_method (snd r), ri_body (snd r))"

definition sentCore :: "request \<Rightarrow> jstr \<times> jstr \<times> jstr option" where
  "sentCore rq = (rq_url rq, rq_method rq, rq_body rq)"

lemma sentCore_api [simp]: "sentCore (apiRequest base st path init) = coreOf base (path, init)"
  by (simp add: sentCore_def coreOf_def apiRequest_def Let_def)

definition askedBy :: "page list \<Rightarrow> (jstr \<times> request_init) list" where
  "askedBy ps = concat (map (\<lambda>p. concat (pageLogs p)) ps)"

lemma askedBy_simps [simp]: "askedBy [] = []" "askedBy (p # ps) = concat (pageLogs p) @ askedBy ps" "askedBy (ps @ qs) = askedBy ps @ askedBy qs"
  by (simp_all add: askedBy_def)

definition checkReq :: "jstr \<times> request_init" where
  "checkReq = (js ''/stats'', getInit)"

definition logs_ok :: "jstr \<Rightarrow> tab_state \<Rightarrow> bool" where
  "logs_ok base t \<longleftrightarrow> mset (map sentCore (se_sent (tb_session t))) =
     image_mset (coreOf base) (mset (askedBy (allPages t)) + replicate_mset (tb_checks t) checkReq)"

lemma sendAll_core:
  "image_mset sentCore (mset (se_sent (sendAll base rs s))) = image_mset sentCore (mset (se_sent s)) + image_mset (coreOf base) (mset rs)"
  by (simp add: sendAll_eq multiset.map_comp comp_def)

lemma logs_enter: "logs_ok base t \<Longrightarrow> tb_page t = None \<Longrightarrow> logs_ok base (enterPage base p t)"
  by (auto simp: logs_ok_def enterPage_def allPages_def onScreen_def sendAll_core)

lemma logs_cong:
  "logs_ok base t \<Longrightarrow> se_sent (tb_session u) = se_sent (tb_session t) \<Longrightarrow> mset (askedBy (allPages u)) = mset (askedBy (allPages t)) \<Longrightarrow>
     tb_checks u = tb_checks t \<Longrightarrow> logs_ok base u"
  by (simp add: logs_ok_def)

lemma sign_out_sent [simp]: "se_sent (signOut s) = se_sent s" "se_sent (saveKey s) = se_sent s"
  by (simp_all add: signOut_def saveKey_def)

lemma askedBy_update:
  assumes "i < length ps" "grows (pageLogs (ps ! i)) (pageLogs q)"
  shows "mset (askedBy (ps[i := q])) = mset (askedBy ps) + mset (newLogs (pageLogs (ps ! i)) (pageLogs q))"
proof -
  have "ps = take i ps @ ps ! i # drop (Suc i) ps" by (rule id_take_nth_drop [OF assms(1)])
  then have "mset (askedBy ps) = mset (askedBy (take i ps @ ps ! i # drop (Suc i) ps))" by (rule arg_cong)
  then show ?thesis by (simp add: upd_conv_take_nth_drop [OF assms(1)] grows_newLogs [OF assms(2)])
qed

lemma tab_step_logs:
  assumes "tab_step base URL z decNum t u" "tab_ok base URL z decNum t" "logs_ok base t"
  shows "logs_ok base u"
  using assms(1)
proof cases
  case (t_load path p)
  then show ?thesis unfolding t_load(1) loadTab_def by (intro logs_enter logs_cong [OF assms(3)]) (simp_all add: allPages_def onScreen_def)
next
  case (t_link path p)
  then show ?thesis unfolding t_link(1) moveTab_def
    by (intro logs_enter logs_cong [OF assms(3)]) (simp_all add: leavePage_def allPages_def onScreen_def)
next
  case (t_answer p ans)
  then show ?thesis unfolding t_answer(1) answerTab_def
    using answering(1) [OF assms(2)] by (intro logs_enter logs_cong [OF assms(3)]) (simp_all add: allPages_def onScreen_def)
next
  case t_submit
  then show ?thesis using assms(3)
    by (simp add: submitTab_def logs_ok_def onSubmit_def allPages_def onScreen_def checkReq_def Let_def)
next
  case (t_turn p q)
  then show ?thesis using assms(3) any_page.asked [OF t_turn(3)]
    by (simp add: turnTab_def logs_ok_def allPages_def onScreen_def sendAll_core)
next
  case (t_late i q)
  have "grows (pageLogs (tb_left t ! i)) (pageLogs q)" using any_page.step_grows [OF late_is_page_step [OF t_late(3)]] .
  then show ?thesis using assms(3) t_late by (simp add: lateTab_def logs_ok_def allPages_def onScreen_def sendAll_core askedBy_update)
qed (auto intro!: logs_cong [OF assms(3)] simp: allPages_def onScreen_def signOutTab_def leavePage_def)

lemma tab_reach_logs: "tab_reach base URL z decNum t \<Longrightarrow> logs_ok base t"
proof (induction rule: tab_reach.induct)
  case tab_opened show ?case by (simp add: newTab_def logs_ok_def allPages_def onScreen_def sessionBlank_def)
qed (use tab_step_logs tab_reach_ok in blast)

section \<open>Nothing is authorised without a key\<close>

definition newSent :: "tab_state \<Rightarrow> tab_state \<Rightarrow> request list" where
  "newSent t u = drop (length (se_sent (tb_session t))) (se_sent (tb_session u))"

definition unauthorised :: "request \<Rightarrow> bool" where
  "unauthorised rq \<longleftrightarrow> rq_headers rq (js ''authorization'') = None"

lemma sendAll_unsigned:
  assumes "list_all plainReq rs" "orElse (getAdminKey (Some (se_storage s))) [] = []"
  shows "list_all unauthorised (drop (length (se_sent s)) (se_sent (sendAll base rs s)))"
  using assms by (auto simp: sendAll_eq list_all_iff unauthorised_def apiRequest_auth plainReq_def Let_def)

lemma enter_unsigned:
  assumes "tb_session t1 = s1" "se_sent s1 = se_sent (tb_session t)" "se_storage s1 = se_storage (tb_session t)"
    and "orElse (storedKey_of (tb_session t)) [] = []" "drawn s1 \<Longrightarrow> list_all plainReq (concat (pageLogs p))"
  shows "list_all unauthorised (newSent t (enterPage base p t1))"
  using assms sendAll_unsigned [of "concat (pageLogs p)" s1 base]
  by (auto simp: newSent_def enterPage_def storedKey_of_def)

lemma tab_step_unsigned:
  assumes "tab_step base URL z decNum t u" "tab_ok base URL z decNum t" "orElse (storedKey_of (tb_session t)) [] = []" "u \<noteq> submitTab base t"
  shows "list_all unauthorised (newSent t u)"
  using assms(1)
proof cases
  case (t_load path p)
  show ?thesis unfolding t_load(1) loadTab_def
    using t_load(2) mounts_reach [of z path p URL decNum] pages_plain [of URL z decNum p] loadPage_path [of path "tb_session t"]
    by (intro enter_unsigned [OF refl]) (auto simp: assms(3))
next
  case (t_link path p)
  show ?thesis unfolding t_link(1) moveTab_def
    using mounts_reach [OF t_link(4), of URL decNum] pages_plain [of URL z decNum p] by (intro enter_unsigned [OF refl]) (auto simp: assms(3))
next
  case (t_answer p ans)
  show ?thesis unfolding t_answer(1) answerTab_def
    using mounts_reach [OF t_answer(3), of URL decNum] pages_plain [of URL z decNum p] by (intro enter_unsigned [OF refl]) (auto simp: assms(3))
next
  case (t_turn p q)
  have "pageReach URL z decNum q" using page_step_reach [OF t_turn(3)] tab_okD(2) [OF assms(2), of p] t_turn(2) by (simp add: allPages_def onScreen_def)
  then show ?thesis using sendAll_unsigned [OF news_plain [of URL z decNum q p], of "tb_session t" base] assms(3) t_turn(1)
    by (simp add: newSent_def turnTab_def storedKey_of_def)
next
  case (t_late i q)
  have "pageReach URL z decNum q"
    using page_step_reach [OF late_is_page_step [OF t_late(3)]] tab_okD(2) [OF assms(2), of "tb_left t ! i"] t_late(2) by (simp add: allPages_def)
  then show ?thesis using sendAll_unsigned [OF news_plain [of URL z decNum q "tb_left t ! i"], of "tb_session t" base] assms(3) t_late(1)
    by (simp add: newSent_def lateTab_def storedKey_of_def)
qed (use assms(4) in \<open>auto simp: newSent_def signOutTab_def leavePage_def\<close>)

section \<open>A run\<close>

text \<open>An operator signs in, opens Upstreams, asks a server for its tools and signs out before it answers; the answer makes the
  page, by then left, read its list again.\<close>

definition signedTab :: tab_state where
  "signedTab = answerTab [] None (OverviewP ovMount) (submitTab [] (newTab\<lparr>tb_session := (tb_session newTab)\<lparr>se_key := js ''k''\<rparr>\<rparr>))"

definition listedUp :: up_state where
  "listedUp = loadUpstreams (upBlank StorageAbsent [])"

definition askedUp :: up_state where
  "askedUp = openTools opsServer listedUp"

definition toolsTab :: tab_state where
  "toolsTab = turnTab [] (UpstreamsP listedUp 0) (UpstreamsP askedUp 0) (moveTab [] (js ''/upstreams/'') (UpstreamsP listedUp 0) signedTab)"

definition lateUp :: up_state where
  "lateUp = settleUp (\<lambda>_. None) (up_tasks askedUp ! 1) (Failed (OtherErr [])) (dropTask 1 askedUp)"

definition typedTab :: tab_state where
  "typedTab = submitTab [] (newTab\<lparr>tb_session := (tb_session newTab)\<lparr>se_key := js ''k''\<rparr>\<rparr>)"

text \<open>A browser whose zone reads no text; the run reads no time.\<close>

definition utcZone :: zone where
  "utcZone = \<lparr>z_read = (\<lambda>_. None), z_endOfMinute = (\<lambda>t. t), z_fields = (\<lambda>_. (1970, 1, 1, 0, 0)), z_parse = (\<lambda>_. None)\<rparr>"

lemma run_facts:
  "se_path (tb_session newTab) = LOGIN" "loginReady ((tb_session newTab)\<lparr>se_key := js ''k''\<rparr>)" "se_tasks (tb_session typedTab) \<noteq> []"
  "drawn (loginAnswer None (tb_session typedTab))" "js ''/upstreams/'' \<noteq> se_path (tb_session signedTab)" "drawn (tb_session signedTab)"
  "drawn (goTo (js ''/upstreams/'') (tb_session signedTab))"
  by code_simp+

lemma signedTab_page: "signedTab = answerTab [] None (OverviewP ovMount) typedTab" "tb_page signedTab = Some (OverviewP ovMount)" "tb_left signedTab = []"
  using run_facts(4) by (simp_all add: signedTab_def typedTab_def answerTab_def enterPage_def submitTab_def newTab_def)

lemma toolsTab_page: "tb_page (moveTab [] (js ''/upstreams/'') (UpstreamsP listedUp 0) signedTab) = Some (UpstreamsP listedUp 0)"
  "tb_page toolsTab = Some (UpstreamsP askedUp 0)" "tb_left toolsTab = [OverviewP ovMount]"
  using run_facts(7) signedTab_page(2,3) by (simp_all add: toolsTab_def turnTab_def moveTab_def enterPage_def leavePage_def onScreen_def)

lemma runs_reach: "tab_reach [] URL z decNum signedTab" "tab_reach [] URL z decNum toolsTab" "tab_reach [] URL z decNum (signOutTab toolsTab)"
proof -
  have "tab_reach [] URL z decNum typedTab" unfolding typedTab_def using run_facts(1,2)
    by (intro tab_reach.tab_moved [OF _ tab_step.t_submit] tab_reach.tab_moved [OF _ tab_step.t_key] tab_reach.tab_opened) simp_all
  then show r: "tab_reach [] URL z decNum signedTab" unfolding signedTab_page(1) using run_facts(3)
    by (intro tab_reach.tab_moved [OF _ tab_step.t_answer] mounts.m_overview)
  have "page_step URL z decNum (UpstreamsP listedUp 0) (UpstreamsP askedUp 0)" unfolding askedUp_def by (intro page_step.p_upstreams up_step.open_tools)
  moreover have "mounts z (js ''/upstreams/'') (UpstreamsP listedUp 0)" unfolding listedUp_def by (rule mounts.m_upstreams)
  ultimately show g: "tab_reach [] URL z decNum toolsTab" unfolding toolsTab_def
    using toolsTab_page(1) run_facts(5,6) by (intro tab_reach.tab_moved [OF _ tab_step.t_turn] tab_reach.tab_moved [OF _ tab_step.t_link] r)
  have "drawn (tb_session toolsTab)" using tab_okD(4) [OF tab_reach_ok [OF g] toolsTab_page(2)] by simp
  then show "tab_reach [] URL z decNum (signOutTab toolsTab)" by (intro tab_reach.tab_moved [OF g tab_step.t_sign_out])
qed

lemma left_list: "tb_left (signOutTab toolsTab) = [UpstreamsP askedUp 0, OverviewP ovMount]"
  using toolsTab_page(2,3) by (simp add: signOutTab_def leavePage_def onScreen_def)

lemma late_answer: "late_step (\<lambda>_. None) (tb_left (signOutTab toolsTab) ! 0) (UpstreamsP lateUp 0)"
  unfolding lateUp_def left_list nth_Cons_0
  by (rule late_step.l_upstreams) (simp_all add: askedUp_def openTools_def discoverRow_def listedUp_def loadUpstreams_def upBlank_def sendUp_def addTask_def Let_def)

section \<open>Properties\<close>





text \<open>
  Claim C37: from a reachable state of a browser tab with no stored key, or an empty one, no step
  but a submit of the login page sends a request that carries an Authorization header; the handlers
  of a page left at sign-out go on unsigned.
\<close>

theorem no_key_no_authorisation:
  assumes "tab_reach base URL z decNum t" "tab_step base URL z decNum t u"
    and "orElse (getAdminKey (Some (se_storage (tb_session t)))) [] = []" "u \<noteq> submitTab base t"
  shows "\<forall>rq \<in> set (newSent t u). rq_headers rq (js ''authorization'') = None"
  using tab_step_unsigned [OF assms(2) tab_reach_ok [OF assms(1)]] assms(3,4) by (simp add: storedKey_of_def list_all_iff unauthorised_def)

theorem no_key_no_authorisation_witness:
  "\<exists>t u :: tab_state. \<exists>rq. newSent t u = [rq] \<and> rq_headers rq (js ''authorization'') = None"
proof -
  let ?t = "signOutTab toolsTab"
  let ?u = "lateTab [] 0 (UpstreamsP lateUp 0) ?t"
  have s: "tab_step [] (\<lambda>_. None) utcZone (\<lambda>_. NonFinite) ?t ?u" by (rule tab_step.t_late [OF _ late_answer]) (simp add: left_list)
  have k: "orElse (getAdminKey (Some (se_storage (tb_session ?t)))) [] = []" using signOut_closes(2) by (simp add: signOutTab_def storedKey_of_def)
  have "tb_checks ?u \<noteq> tb_checks (submitTab [] ?t)" by (simp add: lateTab_def submitTab_def)
  then have n: "?u \<noteq> submitTab [] ?t" by metis
  have "newLogs (pageLogs (UpstreamsP askedUp 0)) (pageLogs (UpstreamsP lateUp 0)) = [(js ''/upstreams'', getInit)]"
    by (simp add: newLogs_def upLogs_def lateUp_def askedUp_def openTools_def discoverRow_def listedUp_def loadUpstreams_def refreshUpstreams_def
        upBlank_def sendUp_def addTask_def dropTask_def Let_def)
  then have "\<exists>rq. newSent ?t ?u = [rq]" by (simp add: newSent_def lateTab_def left_list sendAll_eq)
  then show ?thesis using no_key_no_authorisation [OF runs_reach(3) s k n] by (metis list.set_intros(1))
qed

end
