(* ===== verification/Kit.thy ===== *)
theory Kit
  imports Prelude
begin

text \<open>
  The component kit, \<open>web/src/components\<close>: the choices its wrappers make. Which look a button has, which
  pair of classes a badge, which width a dialog; whether a row of a menu, the sidebar or the navbar is a
  link or a button; which cells of a linked table row take the Tab key; the disclosure; the drawer that
  holds the sidebar on a small screen.

  Headless UI, Heroicons, motion and \<open>clsx\<close> are packages: a value carries the parts handed to them.
  Fixed classes with no choice in them are left out.

  The lemmas show that each choice gives one look and different names different ones, that an item is a
  link exactly when it has an address and closes the drawer exactly then, that a linked row has one tab
  stop once it is mounted and never two, and that no route change leaves the drawer open.
\<close>

section \<open>Looks\<close>

text \<open>\<open>looks\<close>, \<open>tones\<close>, \<open>itemTones\<close> and \<open>widths\<close>: objects, read by name.\<close>

definition looks :: "(jstr \<times> jstr) list" where
  "looks =
     [(js ''cyan'', js ''bg-cyan-300 text-cyan-950 shadow-sm ring-1 ring-cyan-950/15 ring-inset data-active:bg-cyan-200 data-hover:bg-cyan-200''),
      (js ''red'', js ''bg-red-600 text-white shadow-sm ring-1 ring-red-800/60 ring-inset data-active:bg-red-500 data-hover:bg-red-500''),
      (js ''outline'', js ''text-zinc-950 ring-1 ring-zinc-950/10 ring-inset data-active:bg-zinc-950/2.5 data-hover:bg-zinc-950/2.5 dark:text-white dark:ring-white/15 dark:data-active:bg-white/5 dark:data-hover:bg-white/5''),
      (js ''plain'', js ''text-zinc-950 data-active:bg-zinc-950/5 data-hover:bg-zinc-950/5 dark:text-white dark:data-active:bg-white/10 dark:data-hover:bg-white/10'')]"

text \<open>\<open>Variant\<close>: a colour, or outline, or plain, and no two.\<close>

datatype variant = Coloured jstr | Outline | Plain

definition buttonLook :: "variant \<Rightarrow> jstr option" where
  "buttonLook v =
     (let plain = (v = Plain); outline = (v = Outline); color = (case v of Coloured c \<Rightarrow> Some c | _ \<Rightarrow> None) in
      if plain then map_of looks (js ''plain'') else if outline then map_of looks (js ''outline'') else map_of looks (orElse color (js ''cyan'')))"

definition variantFits :: "variant \<Rightarrow> bool" where
  "variantFits v = (case v of Coloured c \<Rightarrow> c \<in> {js ''cyan'', js ''red''} | _ \<Rightarrow> True)"

definition tones :: "(jstr \<times> jstr \<times> jstr) list" where
  "tones =
     [(js ''lime'', js ''bg-lime-400/20 text-lime-700'', js ''dark:bg-lime-400/10 dark:text-lime-300''),
      (js ''amber'', js ''bg-amber-400/20 text-amber-700'', js ''dark:bg-amber-400/10 dark:text-amber-400''),
      (js ''pink'', js ''bg-pink-400/15 text-pink-700'', js ''dark:bg-pink-400/10 dark:text-pink-400''),
      (js ''zinc'', js ''bg-zinc-600/10 text-zinc-700'', js ''dark:bg-white/5 dark:text-zinc-400'')]"

definition badgeTone :: "jstr option \<Rightarrow> (jstr \<times> jstr) option" where
  "badgeTone color = map_of tones (orElse color (js ''zinc''))"

definition widths :: "(jstr \<times> jstr) list" where
  "widths = [(js ''lg'', js ''sm:max-w-lg''), (js ''2xl'', js ''sm:max-w-2xl'')]"

definition dialogWidth :: "jstr option \<Rightarrow> jstr option" where
  "dialogWidth width = map_of widths (orElse width (js ''lg''))"

definition itemTones :: "bool \<Rightarrow> jstr" where
  "itemTones destructive = (if destructive then js ''text-red-600 dark:text-red-400'' else js ''text-zinc-950 dark:text-white'')"

definition dividerShade :: "bool \<Rightarrow> jstr" where
  "dividerShade soft = (if soft then js ''border-zinc-950/5 dark:border-white/5'' else js ''border-zinc-950/10 dark:border-white/10'')"

definition resizeClass :: "bool option \<Rightarrow> jstr" where
  "resizeClass resizable = (if orElse resizable True then js ''resize-y'' else js ''resize-none'')"

definition headingTag :: "nat option \<Rightarrow> jstr" where
  "headingTag level = js ''h'' @ showNat (orElse level 1)"

definition subheadingTag :: "nat option \<Rightarrow> jstr" where
  "subheadingTag level = js ''h'' @ showNat (orElse level 2)"

section \<open>Links and buttons\<close>

datatype element = LinkEl jstr | ButtonEl

definition elementOf :: "jstr option \<Rightarrow> element" where
  "elementOf href = (case href of Some h \<Rightarrow> LinkEl h | None \<Rightarrow> ButtonEl)"

text \<open>\<open>ki_closes\<close>: drawn as a Headless \<open>CloseButton\<close>, which dismisses the dialog around it and is inert outside one.\<close>

record kit_item =
  ki_element :: element
  ki_closes :: bool
  ki_current :: bool
  ki_tone :: "jstr option"

definition SidebarItem :: "jstr option \<Rightarrow> bool \<Rightarrow> kit_item" where
  "SidebarItem href current =
     (if href \<noteq> None then \<lparr>ki_element = elementOf href, ki_closes = True, ki_current = current, ki_tone = None\<rparr>
      else \<lparr>ki_element = ButtonEl, ki_closes = False, ki_current = current, ki_tone = None\<rparr>)"

definition NavbarItem :: "jstr option \<Rightarrow> kit_item" where
  "NavbarItem href = \<lparr>ki_element = elementOf href, ki_closes = False, ki_current = False, ki_tone = None\<rparr>"

definition DropdownItem :: "jstr option \<Rightarrow> bool \<Rightarrow> kit_item" where
  "DropdownItem href destructive =
     \<lparr>ki_element = elementOf href, ki_closes = False, ki_current = False, ki_tone = Some (itemTones destructive)\<rparr>"

section \<open>Linked rows\<close>

text \<open>A row with an address puts a link over every cell. A cell learns where it stands when its ref is set, after the first
  render: until then \<open>cell?.previousElementSibling\<close> is undefined, which is not null. \<open>lr_seen\<close> says which cells know.\<close>

record linked_row =
  lr_href :: "jstr option"
  lr_seen :: "bool list"

definition rowLinked :: "linked_row \<Rightarrow> bool" where
  "rowLinked r \<longleftrightarrow> orElse (lr_href r) [] \<noteq> []"

definition TableRow :: "jstr option \<Rightarrow> nat \<Rightarrow> linked_row" where
  "TableRow href cells = \<lparr>lr_href = href, lr_seen = replicate cells False\<rparr>"

definition setCell :: "nat \<Rightarrow> linked_row \<Rightarrow> linked_row" where
  "setCell i r = (if rowLinked r then r\<lparr>lr_seen := (lr_seen r)[i := True]\<rparr> else r)"

definition tabIndex :: "nat \<Rightarrow> bool \<Rightarrow> int" where
  "tabIndex i seen = (if seen \<and> i = 0 then 0 else -1)"

text \<open>What lies over a cell: the address and the tab index.\<close>

definition TableCell :: "linked_row \<Rightarrow> nat \<Rightarrow> (jstr \<times> int) option" where
  "TableCell r i = (if rowLinked r then Some (orElse (lr_href r) [], tabIndex i (lr_seen r ! i)) else None)"

definition tabStops :: "linked_row \<Rightarrow> nat list" where
  "tabStops r = filter (\<lambda>i. case TableCell r i of Some (h, t) \<Rightarrow> t = 0 | None \<Rightarrow> False) [0..<length (lr_seen r)]"

section \<open>The disclosure and the drawer\<close>

text \<open>A disclosure opens and closes on a press of its button and mounts what it holds while open.\<close>

definition HelpDisclosure :: "bool option \<Rightarrow> bool" where
  "HelpDisclosure defaultOpen = orElse defaultOpen False"

definition pressDisclosure :: "bool \<Rightarrow> bool" where
  "pressDisclosure isOpen = (\<not> isOpen)"

text \<open>\<open>SidebarLayout\<close>: the drawer and the route under it. The open drawer is modal, so the header and the page take no
  press; its items are the sidebar's. \<open>dw_openedAt\<close> is a ghost, the route the drawer was opened on.\<close>

record drawer_state =
  dw_open :: bool
  dw_path :: jstr
  dw_openedAt :: jstr

definition drawerBlank :: "jstr \<Rightarrow> drawer_state" where
  "drawerBlank path = \<lparr>dw_open = False, dw_path = path, dw_openedAt = path\<rparr>"

definition openDrawer :: "drawer_state \<Rightarrow> drawer_state" where
  "openDrawer s = s\<lparr>dw_open := True, dw_openedAt := dw_path s\<rparr>"

definition closeDrawer :: "drawer_state \<Rightarrow> drawer_state" where
  "closeDrawer s = s\<lparr>dw_open := False\<rparr>"

definition pressItem :: "kit_item \<Rightarrow> drawer_state \<Rightarrow> drawer_state" where
  "pressItem it s =
     (let s1 = (case ki_element it of LinkEl h \<Rightarrow> s\<lparr>dw_path := h\<rparr> | ButtonEl \<Rightarrow> s) in
      if dw_open s \<and> ki_closes it then closeDrawer s1 else s1)"

inductive drawer_reach :: "drawer_state \<Rightarrow> bool" where
  dw_mounted: "drawer_reach (drawerBlank path)"
| dw_opened: "drawer_reach s \<Longrightarrow> \<not> dw_open s \<Longrightarrow> drawer_reach (openDrawer s)"
| dw_closed: "drawer_reach s \<Longrightarrow> drawer_reach (closeDrawer s)"
| dw_item: "drawer_reach s \<Longrightarrow> drawer_reach (pressItem (SidebarItem href current) s)"
| dw_header: "drawer_reach s \<Longrightarrow> \<not> dw_open s \<Longrightarrow> drawer_reach (pressItem (NavbarItem href) s)"
| dw_page: "drawer_reach s \<Longrightarrow> \<not> dw_open s \<Longrightarrow> drawer_reach (s\<lparr>dw_path := path\<rparr>)"

section \<open>Laws\<close>

lemma looks_apart: "distinct (map snd looks)" "distinct (map fst looks)" "distinct (map snd tones)" "distinct (map fst tones)" "distinct (map snd widths)"
  by code_simp+

lemma button_has_a_look: "variantFits v \<Longrightarrow> \<exists>l. buttonLook v = Some l \<and> l \<in> snd ` set looks"
  by (cases v) (auto simp: variantFits_def buttonLook_def looks_def Let_def)

lemma button_looks_differ:
  assumes "variantFits v" "variantFits w" "buttonLook v = buttonLook w"
  shows "v = w"
proof -
  have "map buttonLook [Coloured (js ''cyan''), Coloured (js ''red''), Outline, Plain] = map (Some \<circ> snd) looks"
    by (simp add: buttonLook_def looks_def Let_def)
  moreover have "distinct (map (Some \<circ> snd) looks)" using looks_apart(1) by (simp add: distinct_map inj_on_def)
  ultimately have "distinct (map buttonLook [Coloured (js ''cyan''), Coloured (js ''red''), Outline, Plain])" by simp
  with assms show ?thesis by (cases v; cases w) (auto simp: variantFits_def)
qed

lemma badge_tone_known: "badgeTone color \<noteq> None \<longleftrightarrow> orElse color (js ''zinc'') \<in> {js ''lime'', js ''amber'', js ''pink'', js ''zinc''}"
  by (auto simp: badgeTone_def tones_def)

lemma badge_tones_differ:
  assumes "badgeTone (Some a) = Some c" "badgeTone (Some b) = Some c"
  shows "a = b"
proof -
  have "(a, c) \<in> set tones" "(b, c) \<in> set tones" using assms by (simp_all add: badgeTone_def map_of_SomeD)
  moreover have "inj_on snd (set tones)" using looks_apart(3) by (simp add: distinct_map)
  ultimately show ?thesis by (metis Pair_inject inj_onD snd_conv)
qed

lemma item_is_link: "ki_element (SidebarItem href c) = elementOf href" "ki_closes (SidebarItem href c) \<longleftrightarrow> href \<noteq> None"
  by (auto simp: SidebarItem_def elementOf_def)

lemma destructive_differs: "itemTones True \<noteq> itemTones False"
  by code_simp

lemma seen_kept: "length (lr_seen (setCell i r)) = length (lr_seen r)" "lr_href (setCell i r) = lr_href r" "rowLinked (setCell i r) = rowLinked r"
  by (simp_all add: setCell_def rowLinked_def)

lemma tabStops_first: "tabStops r = (if rowLinked r \<and> lr_seen r \<noteq> [] \<and> lr_seen r ! 0 then [0] else [])"
proof -
  have "filter (\<lambda>i. case TableCell r i of Some (h, t) \<Rightarrow> t = 0 | None \<Rightarrow> False) [0..<length (lr_seen r)] =
      filter (\<lambda>i. i = 0 \<and> rowLinked r \<and> lr_seen r ! 0) [0..<length (lr_seen r)]"
    by (rule filter_cong) (auto simp: TableCell_def tabIndex_def)
  moreover have "filter (\<lambda>i. i = 0 \<and> P) [0..<n] = (if P \<and> n \<noteq> 0 then [0] else [])" for P n by (induction n) auto
  ultimately show ?thesis by (simp add: tabStops_def)
qed

text \<open>Mounting the cells, in whatever order, ends with the first cell as the one stop.\<close>

lemma mounted_row:
  assumes "orElse href [] \<noteq> []" "0 < n" "0 \<in> set is"
  shows "tabStops (fold setCell is (TableRow href n)) = [0]"
proof -
  have keep: "length (lr_seen (fold setCell is r)) = length (lr_seen r) \<and> lr_href (fold setCell is r) = lr_href r" for r
    by (induction "is" arbitrary: r) (auto simp: seen_kept)
  have seen: "lr_seen (setCell i r) ! 0" if "i = 0 \<or> lr_seen r ! 0" "rowLinked r" "lr_seen r \<noteq> []" for i r
    using that by (cases "lr_seen r"; cases i) (auto simp: setCell_def)
  have "0 \<in> set is \<or> lr_seen r ! 0 \<Longrightarrow> rowLinked r \<Longrightarrow> lr_seen r \<noteq> [] \<Longrightarrow> lr_seen (fold setCell is r) ! 0" for r
  proof (induction "is" arbitrary: r)
    case (Cons i "is")
    have "lr_seen (setCell i r) \<noteq> []" using Cons.prems(3) seen_kept(1) [of i r] by (metis length_0_conv)
    then show ?case using Cons seen [of i r] seen_kept(3) [of i r] by auto
  qed simp
  from this [of "TableRow href n"] show ?thesis
    using assms keep [of "TableRow href n"] by (auto simp: tabStops_first TableRow_def rowLinked_def)
qed

lemma drawer_reach_path: "drawer_reach s \<Longrightarrow> dw_open s \<Longrightarrow> dw_path s = dw_openedAt s"
  by (induction rule: drawer_reach.induct)
     (auto simp: drawerBlank_def openDrawer_def closeDrawer_def pressItem_def SidebarItem_def NavbarItem_def elementOf_def Let_def
       split: option.splits if_splits element.splits)

lemma drawer_item_closes: "\<not> dw_open (pressItem (SidebarItem (Some h) c) s)" "dw_path (pressItem (SidebarItem (Some h) c) s) = h"
  by (simp_all add: pressItem_def SidebarItem_def elementOf_def closeDrawer_def Let_def)

end
