(* ===== verification/GroupsView.thy ===== *)
theory GroupsView
  imports GroupsPage Views
begin

text \<open>
  What \<open>web/src/app/(app)/groups/page.tsx\<close> draws over its state: the table with the row menus, the
  dialog with its fields, the two questions inside it and the delete alert.

  The lemmas show that the menus are steps of the page and Delete only asks, that an enabled submit is a
  step of the page, and that each question is about the group or the form it decides.
\<close>

section \<open>The table\<close>

record group_row =
  gr_name :: jstr
  gr_badge :: "(jstr \<times> badge_tone) option"
  gr_members :: jstr
  gr_actions :: "(gp_state \<Rightarrow> gp_state) actions_view option"

fun groupHandler :: "group \<Rightarrow> group_action \<Rightarrow> gp_state \<Rightarrow> gp_state" where
  "groupHandler g GEdit s = openEditG g s"
| "groupHandler g RowMenus.GDelete s = s\<lparr>gp_pendingDelete := Some g\<rparr>"

definition groupSections :: "group \<Rightarrow> (jstr \<times> (gp_state \<Rightarrow> gp_state) \<times> bool) list list" where
  "groupSections g = bindRowActions groupActions (groupHandler g)"

definition groupRow :: "gp_state \<Rightarrow> group \<Rightarrow> group_row" where
  "groupRow s g = \<lparr>gr_name = g_name g, gr_badge = groupFilterBadge g, gr_members = membersCell (gp_upstreams s) g,
     gr_actions = rowActions (g_name g) (groupSections g) False None\<rparr>"

datatype group_table = NoGroups jstr | GroupTable "group_row list"

definition groupsTable :: "gp_state \<Rightarrow> group_table" where
  "groupsTable s = (if length (gp_groups s) = 0 then NoGroups (js ''No groups yet.'') else GroupTable (map (groupRow s) (gp_groups s)))"

section \<open>The dialog\<close>

definition GROUP_EDIT_INTRO :: jstr where
  "GROUP_EDIT_INTRO = js ''Changes take effect immediately. Adding an upstream gives every virtual key on this group access to it on its next call. Removing one takes that access away.''"

record group_dialog =
  gd_title :: jstr
  gd_error :: "jstr option"
  gd_intro :: "jstr option"
  gd_members :: "jstr + (jstr \<times> bool \<times> jstr list) list"
  gd_filter :: filter_view
  gd_blocked :: "jstr option"
  gd_submit :: button_view

text \<open>\<open>lower\<close>, \<open>rateLimited\<close> and \<open>needle\<close> belong to the filter section: the browser's lower case, the hook's
  line, the text of Find a tool.\<close>

definition groupDialog :: "(jstr \<Rightarrow> jstr) \<Rightarrow> jstr \<Rightarrow> jstr \<Rightarrow> gp_state \<Rightarrow> group_dialog" where
  "groupDialog lower rateLimited needle s =
     (let blocked = blockedG s; f = gp_form s in
      \<lparr>gd_title = (if gp_editing s \<noteq> None then js ''Edit group'' else js ''Create group''), gd_error = shownIf (gp_formError s),
       gd_intro = (if gp_editing s \<noteq> None then Some GROUP_EDIT_INTRO else None),
       gd_members = memberBoxes (gp_editing s \<noteq> None) (gp_upstreams s) f,
       gd_filter = toolFilterFields lower f (catalogueG s) rateLimited blocked (groupEmptyHint (gp_upstreams s) f) needle,
       gd_blocked = shownIf blocked,
       gd_submit = \<lparr>bt_label = (if gp_saving s then js ''Saving'' @ [0x2026] else if gp_editing s \<noteq> None then js ''Save changes'' else js ''Create''),
                    bt_disabled = (gp_saving s \<or> blocked \<noteq> [])\<rparr>\<rparr>)"

definition emptyAlert :: "gp_state \<Rightarrow> alert_view" where
  "emptyAlert s = \<lparr>av_title = js ''Remove every upstream from this group?'',
     av_text = (case gp_editing s of
         Some g \<Rightarrow> g_name g @ js '' will have no members. Every virtual key targeting it loses its endpoints, and its calls fail until a member is added.''
       | None \<Rightarrow> []),
     av_error = None, av_confirm = \<lparr>bt_label = js ''Remove all'', bt_disabled = False\<rparr>\<rparr>"

definition blocksAlert :: "gp_state \<Rightarrow> alert_view" where
  "blocksAlert s = \<lparr>av_title = js ''This filter blocks every tool.'', av_text = blocksQuestion (gp_upstreams s) (gp_form s),
     av_error = None, av_confirm = \<lparr>bt_label = js ''Save anyway'', bt_disabled = False\<rparr>\<rparr>"

definition deleteAlertG :: "gp_state \<Rightarrow> alert_view" where
  "deleteAlertG s = \<lparr>av_title = js ''Delete this group?'',
     av_text = (case gp_pendingDelete s of Some g \<Rightarrow> g_name g @ js '' will be removed. The upstreams in it are kept.'' | None \<Rightarrow> []),
     av_error = shownIf (gp_deleteError s),
     av_confirm = \<lparr>bt_label = (if gp_deleting s then js ''Deleting'' @ [0x2026] else js ''Delete''), bt_disabled = gp_deleting s\<rparr>\<rparr>"

section \<open>Laws\<close>

lemma group_items:
  "(l, h, d) \<in> set (concat (groupSections g)) \<longleftrightarrow>
     (l, h, d) \<in> {(js ''Edit'', groupHandler g GEdit, False), (js ''Delete'', groupHandler g RowMenus.GDelete, True)}"
  by (auto simp: groupSections_def bindRowActions_def groupActions_def item_def removeItem_def)

interpretation group_menu: row_menu groupSections gp_groups "\<lambda>s. \<not> gp_open s" gp_step gp_sent
proof unfold_locales
  fix sec and g :: group assume "sec \<in> set (groupSections g)"
  then show "sec \<noteq> []" by (auto simp: groupSections_def bindRowActions_def groupActions_def)
next
  fix g :: group show "distinct (map fst (concat (groupSections g)))"
    by (simp add: groupSections_def bindRowActions_def groupActions_def item_def removeItem_def)
next
  fix s :: gp_state and g :: group and l h d assume "\<not> gp_open s" "g \<in> set (gp_groups s)" "(l, h, d) \<in> set (concat (groupSections g))"
  then show "gp_step s (h s)" unfolding group_items by (auto intro: gp_step.g_open_edit gp_step.g_ask_delete)
next
  fix l h and g :: group and s :: gp_state assume "(l, h, True) \<in> set (concat (groupSections g))"
  then show "gp_sent (h s) = gp_sent s" unfolding group_items by auto
qed

lemma submit_enabled_step:
  assumes "gp_open s" "\<not> asking s" "\<not> bt_disabled (gd_submit (groupDialog lower rl needle s))"
  shows "gp_step s (submitG s)"
  using assms by (simp add: groupDialog_def Let_def gp_step.g_submit)

text \<open>What blocks a save is written beside the button it disables.\<close>

lemma blocked_is_told: "bt_disabled (gd_submit (groupDialog lower rl needle s)) \<Longrightarrow> gp_saving s \<or> gd_blocked (groupDialog lower rl needle s) = Some (blockedG s)"
  by (auto simp: groupDialog_def shownIf_def Let_def)

end
