(* ===== verification/PolicyDialog.thy ===== *)
theory PolicyDialog
  imports PolicyView RuleFields DiscoveryPanel
begin

text \<open>
  The Policy dialog: \<open>web/src/app/policy-dialog.tsx\<close>, over \<open>policy-view.ts\<close>.

  The dialog is a value: an error, a waiting line, or the head lines and the blocks, each a list of
  rules with their bodies and counts. A rule draws its count and at most one more line, so what it
  tells in all is \<open>rowTally\<close>.

  The lemmas show that the blocks account for every refusal the server counted, each once, with one
  exception: the counts of a group filter whose group is gone have no rule to stand under.
\<close>

section \<open>Rules\<close>

definition ORDER_NOTE :: jstr where
  "ORDER_NOTE = js ''An unreadable group filter or key list is checked first and refuses every call.''"

definition EDITED_RULES_NOTE :: jstr where
  "EDITED_RULES_NOTE = js ''Counts include calls refused by entries that have since changed. Rule edits are listed under Admin events on the Logs page.''"

definition EVERY_KEY_NOTE :: jstr where
  "EVERY_KEY_NOTE = js ''These apply to every key.''"

definition OUTBOUND_LOGS_NOTE :: jstr where
  "OUTBOUND_LOGS_NOTE = js ''These are recorded as errors on the Logs page.''"

datatype rule_body =
    PinkBody jstr
  | TextBody jstr
  | ListBody "(jstr \<times> reported_item list) option"
  | GroupBody "group_filter_summary \<times> jstr option"
  | VerbsBody "jstr list"
  | NoBody

record rule_row =
  rr_title :: jstr
  rr_body :: rule_body
  rr_count :: nat
  rr_unreadable :: nat
  rr_earlier :: nat

definition policyRule :: "jstr \<Rightarrow> nat \<Rightarrow> nat \<Rightarrow> nat \<Rightarrow> rule_body \<Rightarrow> rule_row" where
  "policyRule title count unreadable earlier body =
     \<lparr>rr_title = title, rr_body = body, rr_count = count, rr_unreadable = unreadable, rr_earlier = earlier\<rparr>"

text \<open>The lines under a rule: \<open>unreadableLine(unreadable) ?? earlierLine(earlier)\<close> after its own count.\<close>

definition ruleLines :: "rule_row \<Rightarrow> jstr list" where
  "ruleLines r = blockedLine (rr_count r) #
     (case unreadableLine (rr_unreadable r) of
        Some l \<Rightarrow> [l] | None \<Rightarrow> (case earlierLine (rr_earlier r) of Some l \<Rightarrow> [l] | None \<Rightarrow> []))"

record block_view =
  bv_title :: jstr
  bv_head :: "jstr list"
  bv_rules :: "rule_row list"
  bv_foot :: "jstr list"

section \<open>Blocks\<close>

definition alsoDenied :: "policy_view \<Rightarrow> jstr \<Rightarrow> badge_mark option" where
  "alsoDenied view entry =
     (if allowEntryDeniedBy entry (orElse (pv_key_denylist view) []) (pv_target_slug view) \<noteq> []
      then Some (js ''Also denied'', orElse (BADGE_TONE AlsoDenied) []) else None)"

definition keyRules :: "policy_view \<Rightarrow> rule_row list" where
  "keyRules view =
     (let deny = orElse (pv_key_denylist view) []; allow = orElse (pv_key_allowlist view) []; n = ruleCount view in
      if keyListsState view = ListsUnreadable
      then [policyRule (js ''Deny list and allow list'') (n (js ''key_lists_unreadable'')) 0
              (n (js ''key_denylist'') + n (js ''key_allowlist'')) (PinkBody LISTS_UNREADABLE_SENTENCE)]
      else [policyRule (js ''Deny list'') (n (js ''key_denylist'')) (n (js ''key_lists_unreadable'')) 0
              (if length deny > 0 then ListBody (reportedList (js ''Tools this key denies'') deny unmarked) else TextBody (listEmptySentence DenySide)),
            policyRule (js ''Allow list'') (n (js ''key_allowlist'')) 0 0
              (if length allow > 0 then ListBody (reportedList (js ''Tools this key allows'') allow (alsoDenied view)) else TextBody (listEmptySentence AllowSide))])"

definition groupRules :: "policy_view \<Rightarrow> rule_row list" where
  "groupRules view =
     (let n = ruleCount view in
      case pv_group_tool_filter view of
        None \<Rightarrow> []
      | Some g \<Rightarrow>
          if gp_malformed g
          then [policyRule (js ''Group filter'') (n (js ''group_tool_filter_unreadable'')) 0 (n (js ''group_tool_filter''))
                  (GroupBody (groupFilterBlock (gp_group_name g) (gp_tool_filter g) True True))]
          else [policyRule (js ''Group filter'') (n (js ''group_tool_filter'')) (n (js ''group_tool_filter_unreadable'')) 0
                  (GroupBody (groupFilterBlock (gp_group_name g) (gp_tool_filter g) True False))])"

definition countsOnly :: "policy_view \<Rightarrow> policy_block \<Rightarrow> jstr list" where
  "countsOnly view b = (if shownForCountsOnly view b then [COUNTS_ONLY_NOTE] else [])"

definition mcpBlock :: "policy_view \<Rightarrow> block_view" where
  "mcpBlock view = \<lparr>bv_title = js ''MCP endpoints'', bv_head = ORDER_NOTE # countsOnly view McpBlock,
     bv_rules = keyRules view @ groupRules view, bv_foot = [EDITED_RULES_NOTE]\<rparr>"

definition httpBlock :: "policy_view \<Rightarrow> block_view" where
  "httpBlock view =
     (let malformed = pv_http_methods_malformed view; n = ruleCount view;
          verbs = filter (\<lambda>m. m \<in> set (orElse (pv_http_methods view) [])) HTTP_METHODS;
          body = (case methodsSentence (pv_http_methods view) malformed of
              Some (tone, t) \<Rightarrow> if tone = PinkTone then PinkBody t else TextBody t
            | None \<Rightarrow> if length verbs > 0 then VerbsBody verbs else NoBody)
      in \<lparr>bv_title = js ''HTTP API endpoints'', bv_head = countsOnly view HttpBlock,
          bv_rules = [policyRule (js ''Allowed methods'')
            (n (if malformed then js ''http_methods_unreadable'' else js ''http_methods''))
            (if malformed then 0 else n (js ''http_methods_unreadable'')) (if malformed then n (js ''http_methods'') else 0) body],
          bv_foot = [EDITED_RULES_NOTE]\<rparr>)"

definition outboundBlock :: "policy_view \<Rightarrow> block_view" where
  "outboundBlock view =
     (let s = egressSentences (pv_egress view); byClass = bl_upstream_address_denied_by_class (pv_blocked view) in
      \<lparr>bv_title = js ''Outbound connections'', bv_head = [EVERY_KEY_NOTE],
       bv_rules = [policyRule (js ''Loopback addresses'') (orElse (byClass (js ''loopback'')) 0) 0 0 (TextBody (fst s)),
                   policyRule (js ''Private addresses'') (orElse (byClass (js ''private'')) 0) 0 0 (TextBody (snd s)),
                   policyRule (js ''Other reserved addresses'') (alwaysRefusedCount view) 0 0 (TextBody ALWAYS_REFUSED_SENTENCE)],
       bv_foot = [OUTBOUND_LOGS_NOTE]\<rparr>)"

section \<open>The dialog\<close>

record policy_body =
  pbd_status :: "jstr option"
  pbd_gone :: "jstr option"
  pbd_empty :: "jstr option"
  pbd_blocks :: "block_view list"

definition policyBody :: "policy_view \<Rightarrow> policy_body" where
  "policyBody view =
     (let blocks = visibleBlocks view in
      \<lparr>pbd_status = statusLine (pv_status view), pbd_gone = targetGoneSentence view, pbd_empty = emptyGroupSentence view,
       pbd_blocks = (if McpBlock \<in> set blocks then [mcpBlock view] else []) @
         (if HttpBlock \<in> set blocks then [httpBlock view] else []) @ [outboundBlock view]\<rparr>)"

datatype policy_dialog = PolicyError jstr | PolicyShown policy_body | PolicyLoading

definition policyDialog :: "policy_view option \<Rightarrow> jstr \<Rightarrow> policy_dialog" where
  "policyDialog view err =
     (if err \<noteq> [] then PolicyError err else case view of Some v \<Rightarrow> PolicyShown (policyBody v) | None \<Rightarrow> PolicyLoading)"

section \<open>Accounts\<close>

text \<open>The refusals a rule tells: its own line, and the second line when it is drawn.\<close>

definition rowTally :: "rule_row \<Rightarrow> nat" where
  "rowTally r = rr_count r + (if rr_unreadable r \<noteq> 0 then rr_unreadable r else rr_earlier r)"

definition blockTally :: "block_view \<Rightarrow> nat" where
  "blockTally b = sum_list (map rowTally (bv_rules b))"

definition ruleSum :: "policy_view \<Rightarrow> jstr list \<Rightarrow> nat" where
  "ruleSum view ids = sum_list (map (ruleCount view) ids)"

lemma rowTally_lines:
  "ruleLines r = blockedLine (rr_count r) # (if rowTally r = rr_count r then [] else
     [if rr_unreadable r \<noteq> 0 then the (unreadableLine (rr_unreadable r)) else the (earlierLine (rr_earlier r))])"
  by (simp add: ruleLines_def rowTally_def unreadableLine_def earlierLine_def)

definition groupCounts :: "policy_view \<Rightarrow> nat" where
  "groupCounts view = ruleCount view (js ''group_tool_filter'') + ruleCount view (js ''group_tool_filter_unreadable'')"

lemma mcpBlock_tally:
  "blockTally (mcpBlock view) + (if pv_group_tool_filter view = None then groupCounts view else 0) = ruleSum view MCP_RULES"
  by (auto simp: blockTally_def mcpBlock_def keyRules_def groupRules_def policyRule_def rowTally_def ruleSum_def MCP_RULES_def groupCounts_def
      Let_def split: option.splits)

lemma httpBlock_tally: "blockTally (httpBlock view) = ruleSum view HTTP_RULES"
  by (simp add: blockTally_def httpBlock_def policyRule_def rowTally_def ruleSum_def HTTP_RULES_def Let_def)

lemma anyCount_sum: "anyCount view ids \<longleftrightarrow> ruleSum view ids \<noteq> 0"
  by (induction ids) (auto simp: anyCount_def ruleSum_def)

lemma visible_blocks:
  "McpBlock \<in> set (visibleBlocks view) \<longleftrightarrow> js ''mcp'' \<in> set (pv_target_kinds view) \<or> ruleSum view MCP_RULES \<noteq> 0"
  "HttpBlock \<in> set (visibleBlocks view) \<longleftrightarrow> js ''http'' \<in> set (pv_target_kinds view) \<or> ruleSum view HTTP_RULES \<noteq> 0"
  by (auto simp: visibleBlocks_def anyCount_sum)

text \<open>All blocks together tell every refusal of a rule, less those of a group filter that is gone.\<close>

lemma policyBody_tally:
  "sum_list (map blockTally (pbd_blocks (policyBody view))) + (if pv_group_tool_filter view = None then groupCounts view else 0)
     = ruleSum view (MCP_RULES @ HTTP_RULES) + blockTally (outboundBlock view)"
proof -
  let ?lost = "if pv_group_tool_filter view = None then groupCounts view else 0"
  have split: "ruleSum view (MCP_RULES @ HTTP_RULES) = ruleSum view MCP_RULES + ruleSum view HTTP_RULES" by (simp add: ruleSum_def)
  have mcp: "(if McpBlock \<in> set (visibleBlocks view) then blockTally (mcpBlock view) else 0) + ?lost = ruleSum view MCP_RULES"
    using mcpBlock_tally [of view] by (auto simp: visible_blocks)
  have http: "(if HttpBlock \<in> set (visibleBlocks view) then blockTally (httpBlock view) else 0) = ruleSum view HTTP_RULES"
    using httpBlock_tally [of view] by (auto simp: visible_blocks)
  show ?thesis unfolding split mcp [symmetric] http [symmetric] by (simp add: policyBody_def Let_def)
qed

lemma outbound_tally:
  "blockTally (outboundBlock view) = sum_list (map (\<lambda>c. orElse (bl_upstream_address_denied_by_class (pv_blocked view) c) 0)
     [js ''loopback'', js ''private'', js ''metadata'', js ''link-local'', js ''multicast'', js ''unspecified''])"
  by (simp add: blockTally_def outboundBlock_def policyRule_def rowTally_def alwaysRefusedCount_def Let_def)

text \<open>The group is gone and its filter refused calls: the MCP block is up for those counts and shows none.\<close>

lemma gone_group_counts_untold:
  assumes "pv_group_tool_filter view = None" "pv_target_kinds view = []" "groupCounts view > 0"
    "\<forall>i \<in> set MCP_RULES - {js ''group_tool_filter'', js ''group_tool_filter_unreadable''}. ruleCount view i = 0"
  shows "mcpBlock view \<in> set (pbd_blocks (policyBody view))" "COUNTS_ONLY_NOTE \<in> set (bv_head (mcpBlock view))" "blockTally (mcpBlock view) = 0"
proof -
  have zero: "ruleSum view MCP_RULES = groupCounts view" using assms(4) by (simp add: ruleSum_def MCP_RULES_def groupCounts_def)
  then show "blockTally (mcpBlock view) = 0" using mcpBlock_tally [of view] assms(1) by simp
  show "mcpBlock view \<in> set (pbd_blocks (policyBody view))" using zero assms(3) by (simp add: policyBody_def Let_def visible_blocks)
  show "COUNTS_ONLY_NOTE \<in> set (bv_head (mcpBlock view))" using assms(2) by (simp add: mcpBlock_def countsOnly_def shownForCountsOnly_def)
qed

section \<open>Nothing unreadable reads as open\<close>

lemma unreadable_lists_are_pink:
  "pv_lists_malformed view \<Longrightarrow> map rr_body (keyRules view) = [PinkBody LISTS_UNREADABLE_SENTENCE]"
  by (simp add: keyRules_def keyListsState_def policyRule_def Let_def)

lemma unreadable_methods_are_pink:
  "pv_http_methods_malformed view \<Longrightarrow> map rr_body (bv_rules (httpBlock view)) = [PinkBody METHODS_UNREADABLE_SENTENCE]"
  by (simp add: httpBlock_def methodsSentence_def policyRule_def Let_def)

section \<open>Properties\<close>



end
