(* ===== verification/KeysView.thy ===== *)
theory KeysView
  imports KeysPage PolicyDialog Views "HOL-Library.Multiset"
begin

text \<open>
  What \<open>web/src/app/(app)/virtual-keys/page.tsx\<close> draws over its state: the table with the row menus, the
  Create and Edit dialog, the Copy this key now dialog and the delete alert. The Policy dialog is
  \<open>PolicyDialog\<close>.

  The lemmas show that the menus are steps of the page and Delete only asks, that the selects offer what
  the form holds, that the Copy this key now dialog lists every door of the key, each once, and that the
  Copied label stands at one control.
\<close>

section \<open>The table\<close>

record key_row =
  kr_name :: jstr
  kr_key :: jstr
  kr_endpoint :: jstr
  kr_extra :: "jstr option"
  kr_target :: jstr
  kr_badge :: "(jstr \<times> badge_tone) option"
  kr_status :: "jstr \<times> jstr"
  kr_used :: jstr
  kr_actions :: "(kp_state \<Rightarrow> kp_state) actions_view option"

fun keyHandler :: "virtual_key \<Rightarrow> key_action \<Rightarrow> kp_state \<Rightarrow> kp_state" where
  "keyHandler vk RowMenus.KPolicy s = openPolicy vk s"
| "keyHandler vk RowMenus.KEdit s = openEditK vk s"
| "keyHandler vk RowMenus.KRotate s = rotateK vk s"
| "keyHandler vk RowMenus.KRevoke s = revokeK vk s"
| "keyHandler vk RowMenus.KDelete s = s\<lparr>kp_pendingDelete := Some vk\<rparr>"

definition keySections :: "virtual_key \<Rightarrow> (jstr \<times> (kp_state \<Rightarrow> kp_state) \<times> bool) list list" where
  "keySections vk = bindRowActions virtualKeyActions (keyHandler vk)"

definition statusColour :: "jstr \<Rightarrow> jstr" where
  "statusColour st = (if st = js ''active'' then js ''lime'' else if st = js ''revoked'' then js ''pink'' else js ''amber'')"

text \<open>\<open>localTime\<close> is \<open>new Date(t).toLocaleString()\<close>.\<close>

definition keyRow :: "(jstr \<Rightarrow> jstr) \<Rightarrow> kp_state \<Rightarrow> virtual_key \<Rightarrow> key_row" where
  "keyRow localTime s vk =
     \<lparr>kr_name = vk_name vk, kr_key = vk_key_prefix vk @ [0x2026], kr_endpoint = orStr (endpointLine vk) ABSENT, kr_extra = shownIf (endpointExtra vk),
      kr_target = vk_target_type vk @ js '': '' @ targetName s vk, kr_badge = keyRulesBadge vk, kr_status = (vk_status vk, statusColour (vk_status vk)),
      kr_used = (case vk_last_used_at vk of Some t \<Rightarrow> if t \<noteq> [] then localTime t else js ''Never'' | None \<Rightarrow> js ''Never''),
      kr_actions = rowActions (vk_name vk) (keySections vk) False None\<rparr>"

datatype key_table = NoKeys jstr | KeyTable "key_row list"

definition keysTable :: "(jstr \<Rightarrow> jstr) \<Rightarrow> kp_state \<Rightarrow> key_table" where
  "keysTable localTime s = (if length (kp_keys s) = 0 then NoKeys (js ''No virtual keys yet.'') else KeyTable (map (keyRow localTime s) (kp_keys s)))"

section \<open>Create and Edit\<close>

definition typeSelect :: "kp_state \<Rightarrow> form_select" where
  "typeSelect s = \<lparr>fs_name = js ''target_type'', fs_value = targetStr (kf_target_type (kp_form s)),
     fs_options = [(js ''upstream'', js ''Upstream''), (js ''group'', js ''Group'')], fs_notes = []\<rparr>"

definition targetOptions :: "kp_state \<Rightarrow> (jstr \<times> jstr) list" where
  "targetOptions s = (if kf_target_type (kp_form s) = GroupTarget then map (\<lambda>g. (g_id g, g_name g)) (kp_groups s)
     else map (\<lambda>u. (u_id u, u_name u)) (kp_upstreams s))"

definition targetSelect :: "kp_state \<Rightarrow> form_select" where
  "targetSelect s = \<lparr>fs_name = js ''target_id'', fs_value = kf_target_id (kp_form s),
     fs_options = ([], js ''Select'' @ [0x2026]) # targetOptions s, fs_notes = [js ''Changing the target clears both lists.'']\<rparr>"

record key_dialog =
  kd_title :: jstr
  kd_description :: "jstr option"
  kd_error :: "jstr option"
  kd_selects :: "form_select list"
  kd_methods :: "(jstr \<times> bool) list option option"
  kd_rules :: "list_view option"
  kd_noMcp :: "jstr option"
  kd_blocked :: "jstr option"
  kd_submit :: button_view

definition editDescription :: "kp_state \<Rightarrow> jstr option" where
  "editDescription s = map_option (\<lambda>vk. (if vk_target_type vk = js ''group'' then js ''Group'' else js ''Upstream'') @ js '': '' @ targetName s vk @
     js ''. The target is fixed here.'') (kp_editing s)"

definition keyDialog :: "(jstr \<Rightarrow> jstr) \<Rightarrow> list_field \<Rightarrow> jstr \<Rightarrow> jstr \<Rightarrow> kp_state \<Rightarrow> key_dialog" where
  "keyDialog lower ticking rateLimited needle s =
     (let f = kp_form s; blocked = blockedK s; grp = (if groupTarget s then findGroup (kp_groups s) (targetId s) else None);
          slug = (if groupTarget s then [] else case membersK s of m # _ \<Rightarrow> m_slug m | [] \<Rightarrow> []) in
      \<lparr>kd_title = (if kp_editing s \<noteq> None then js ''Edit virtual key'' else js ''Create virtual key''), kd_description = editDescription s,
       kd_error = shownIf (kp_formError s), kd_selects = (if kp_editing s \<noteq> None then [] else [typeSelect s, targetSelect s]),
       kd_methods = (if methodsShown s then Some (httpMethodsFields f (case kp_editing s of Some vk \<Rightarrow> vk_http_methods_malformed vk | None \<Rightarrow> False)) else None),
       kd_rules = (case rulesSlot s of
           ListsSlot hint \<Rightarrow> Some (toolListFields lower ticking f (groupTarget s) grp slug
             (case kp_editing s of Some vk \<Rightarrow> vk_lists_malformed vk | None \<Rightarrow> False) (catalogueK s) rateLimited hint needle)
         | _ \<Rightarrow> None),
       kd_noMcp = (if rulesSlot s = NoMcpSlot then Some (js ''This group has no MCP servers, so there are no tools to tick.'') else None),
       kd_blocked = shownIf blocked,
       kd_submit = \<lparr>bt_label = (if kp_saving s then js ''Saving'' @ [0x2026] else if kp_editing s \<noteq> None then js ''Save changes'' else js ''Create''),
                    bt_disabled = (kp_saving s \<or> blocked \<noteq> [])\<rparr>\<rparr>)"

section \<open>Copy this key now\<close>

record door_row =
  dr_id :: jstr
  dr_name :: jstr
  dr_url :: jstr
  dr_copy :: jstr

definition copyWord :: "jstr option \<Rightarrow> jstr \<Rightarrow> jstr \<Rightarrow> jstr" where
  "copyWord copied tag rest = (if copied = Some tag then js ''Copied'' else rest)"

definition doorRow :: "jstr option \<Rightarrow> jstr \<times> jstr \<times> jstr \<Rightarrow> door_row" where
  "doorRow copied d = (case d of (i, name, url) \<Rightarrow> \<lparr>dr_id = i, dr_name = name, dr_url = url, dr_copy = copyWord copied i (js ''Copy'')\<rparr>)"

definition exampleOf :: "virtual_key \<Rightarrow> jstr \<times> jstr" where
  "exampleOf vk = (case mcpEndpoints vk of e # _ \<Rightarrow> (ep_slug e, ep_name e) | [] \<Rightarrow> (js ''upstream'', js ''each upstream''))"

record shape_view =
  sh_mode :: connection_mode
  sh_separate :: jstr
  sh_combined :: jstr

definition shapeView :: "virtual_key \<Rightarrow> connection_mode \<Rightarrow> shape_view option" where
  "shapeView vk mode =
     (if splitAvailable vk
      then Some \<lparr>sh_mode = mode, sh_separate = separateSummary (vk_endpoints vk),
        sh_combined = js ''Your client sees one server, with every tool renamed to say whose it is, like '' @ fst (exampleOf vk) @ js ''__search.''\<rparr>
      else None)"

datatype mcp_doors = NoMcpDoors | ServerDoors "door_row list" | ProxyDoor jstr "jstr option"

definition mcpDoors :: "virtual_key \<Rightarrow> connection_mode \<Rightarrow> jstr option \<Rightarrow> mcp_doors" where
  "mcpDoors vk mode copied =
     (if \<not> mcpDoorShown vk then NoMcpDoors
      else if effectiveMode vk mode = PerServer then ServerDoors (map (\<lambda>e. doorRow copied (ep_upstream_id e, ep_name e, ep_url e)) (mcpEndpoints vk))
      else ProxyDoor (orElse (vk_proxy_url vk) [])
        (if vk_target_type vk = js ''group'' \<and> length (vk_endpoints vk) = 0
         then Some (js ''This group has no enabled upstreams, so calls through this key will fail.'') else None))"

record http_doors =
  hd_lines :: "jstr list"
  hd_rows :: "door_row list"

definition httpDoors :: "upstream list \<Rightarrow> virtual_key \<Rightarrow> jstr option \<Rightarrow> http_doors option" where
  "httpDoors us vk copied =
     (if length (httpEndpoints vk) > 0 \<or> \<not> mcpDoorShown vk
      then Some \<lparr>hd_lines = js ''An SDK takes the URL as its base URL and this key as its API key. Requests are relayed to the API with the stored credential.'' #
             (if length (httpEndpoints vk) = 0 then [js ''Its upstream is disabled, so requests to this URL are refused until it is enabled again.''] else []),
           hd_rows = map (doorRow copied) (httpRows us vk)\<rparr>
      else None)"

record secret_dialog =
  sd_key :: jstr
  sd_shape :: "shape_view option"
  sd_mcp :: mcp_doors
  sd_http :: "http_doors option"
  sd_client :: client_kind
  sd_clients :: "(client_kind \<times> jstr) list"
  sd_snippet :: jstr
  sd_rows :: int
  sd_hint :: jstr
  sd_copy :: button_view

definition secretDialog :: "kp_state \<Rightarrow> secret_dialog option" where
  "secretDialog s = map_option (\<lambda>vk.
     (let us = kp_upstreams s; mode = kp_mode s; client = kp_client s; copied = kp_copied s; snippet = keySnippet us vk mode client in
      \<lparr>sd_key = orElse (vk_api_key vk) [], sd_shape = shapeView vk mode, sd_mcp = mcpDoors vk mode copied, sd_http = httpDoors us vk copied,
       sd_client = effectiveClient vk client, sd_clients = map (\<lambda>k. (k, clientLabels k)) (clientKinds vk), sd_snippet = snippet,
       sd_rows = snippetRows (length (mcpServers vk mode @ httpServers us vk)), sd_hint = snippetHint us vk mode client,
       sd_copy = \<lparr>bt_label = copyWord copied (js ''snippet'') (js ''Copy snippet''), bt_disabled = (snippet = [])\<rparr>\<rparr>)) (kp_secret s)"

definition deleteAlertK :: "kp_state \<Rightarrow> alert_view" where
  "deleteAlertK s = \<lparr>av_title = js ''Delete this virtual key?'',
     av_text = (case kp_pendingDelete s of Some vk \<Rightarrow> vk_name vk @ js '' will be removed. Its key stops working immediately. Audit logs are kept.'' | None \<Rightarrow> []),
     av_error = None, av_confirm = \<lparr>bt_label = js ''Delete'', bt_disabled = False\<rparr>\<rparr>"

section \<open>Laws\<close>

lemma key_items:
  "(l, h, d) \<in> set (concat (keySections vk)) \<longleftrightarrow>
     (l, h, d) \<in> {(js ''Policy'', keyHandler vk RowMenus.KPolicy, False), (js ''Edit'', keyHandler vk RowMenus.KEdit, False),
       (js ''Rotate'', keyHandler vk RowMenus.KRotate, False), (js ''Revoke'', keyHandler vk RowMenus.KRevoke, False),
       (js ''Delete'', keyHandler vk RowMenus.KDelete, True)}"
  by (auto simp: keySections_def bindRowActions_def virtualKeyActions_def item_def removeItem_def)

interpretation key_menu: row_menu keySections kp_keys "\<lambda>s. True" "kp_step decNum" kp_sent
proof unfold_locales
  fix sec and vk :: virtual_key assume "sec \<in> set (keySections vk)"
  then show "sec \<noteq> []" by (auto simp: keySections_def bindRowActions_def virtualKeyActions_def)
next
  fix vk :: virtual_key show "distinct (map fst (concat (keySections vk)))"
    by (simp add: keySections_def bindRowActions_def virtualKeyActions_def item_def removeItem_def)
next
  fix s :: kp_state and vk :: virtual_key and l h d assume "(l, h, d) \<in> set (concat (keySections vk))"
  then obtain act where "h = keyHandler vk act" unfolding key_items by blast
  then show "kp_step decNum s (h s)"
    by (cases act) (simp_all add: kp_step.k_open_policy kp_step.k_open_edit kp_step.k_rotate kp_step.k_revoke kp_step.k_ask_delete)
next
  fix l h and vk :: virtual_key and s :: kp_state assume "(l, h, True) \<in> set (concat (keySections vk))"
  then have "h = keyHandler vk RowMenus.KDelete" unfolding key_items by simp
  then show "kp_sent (h s) = kp_sent s" by simp
qed

lemma key_submit_step: "\<not> bt_disabled (kd_submit (keyDialog lower ticking rl needle s)) \<Longrightarrow> kp_step decNum s (submitK decNum s)"
  by (simp add: keyDialog_def Let_def kp_step.k_submit)

lemma type_offered: "offers (typeSelect s)"
  by (cases "kf_target_type (kp_form s)") (simp_all add: offers_def typeSelect_def targetStr_def)

text \<open>The target select shows the form's target while the list on screen has it; a new target type empties it.\<close>

lemma target_offered: "offers (targetSelect s) \<longleftrightarrow> kf_target_id (kp_form s) = [] \<or> kf_target_id (kp_form s) \<in> fst ` set (targetOptions s)"
  by (auto simp: offers_def targetSelect_def)

text \<open>The doors listed: with the Separate servers shape every endpoint of the key, each once and under one heading.\<close>

definition listedUrls :: "secret_dialog \<Rightarrow> jstr list" where
  "listedUrls d = (case sd_mcp d of NoMcpDoors \<Rightarrow> [] | ServerDoors rs \<Rightarrow> map dr_url rs | ProxyDoor u _ \<Rightarrow> [u]) @
     (case sd_http d of Some h \<Rightarrow> map dr_url (hd_rows h) | None \<Rightarrow> [])"

lemma dr_url_doorRow [simp]: "dr_url (doorRow c x) = snd (snd x)"
  by (simp add: doorRow_def split: prod.splits)

lemma mset_filter_split: "mset (map f (filter (\<lambda>x. \<not> P x) xs)) + mset (map f (filter P xs)) = mset (map f xs)"
  by (induction xs) auto

lemma endpoints_split: "mset (map ep_url (mcpEndpoints vk)) + mset (map ep_url (httpEndpoints vk)) = mset (map ep_url (vk_endpoints vk))"
  unfolding mcpEndpoints_def httpEndpoints_def by (rule mset_filter_split)

lemma listed_http: "(case httpDoors us vk copied of Some h \<Rightarrow> map dr_url (hd_rows h) | None \<Rightarrow> []) = map (\<lambda>x. snd (snd x)) (httpRows us vk)"
  by (simp add: httpDoors_def httpRows_def comp_def)

lemma listed_mcp:
  "mcpDoorShown vk \<Longrightarrow> effectiveMode vk mode = PerServer \<Longrightarrow>
     (case mcpDoors vk mode copied of NoMcpDoors \<Rightarrow> [] | ServerDoors rs \<Rightarrow> map dr_url rs | ProxyDoor u _ \<Rightarrow> [u]) = map ep_url (mcpEndpoints vk)"
  by (simp add: mcpDoors_def comp_def)

lemma split_shows_door: "splitAvailable vk \<Longrightarrow> mcpDoorShown vk"
  by (auto simp: splitAvailable_def mcpDoorShown_def mcpEndpoints_def filter_empty_conv list_ex_iff Let_def split: if_splits)

lemma separate_lists_every_door:
  assumes "kp_secret s = Some vk" "mcpDoorShown vk" "effectiveMode vk (kp_mode s) = PerServer" "secretDialog s = Some d"
  shows "mset (listedUrls d) = mset (map ep_url (vk_endpoints vk))"
proof -
  have "sd_mcp d = mcpDoors vk (kp_mode s) (kp_copied s)" "sd_http d = httpDoors (kp_upstreams s) vk (kp_copied s)"
    using assms(1,4) by (auto simp: secretDialog_def Let_def)
  then have "listedUrls d = map ep_url (mcpEndpoints vk) @ map (\<lambda>x. snd (snd x)) (httpRows (kp_upstreams s) vk)"
    unfolding listedUrls_def by (simp add: listed_mcp [OF assms(2,3)] listed_http)
  moreover have "map (\<lambda>x. snd (snd x)) (httpRows (kp_upstreams s) vk) = map ep_url (httpEndpoints vk)"
    using assms(2) by (auto simp: httpRows_def comp_def)
  ultimately show ?thesis by (simp only: mset_append endpoints_split)
qed

text \<open>A client the select shows is one it offers.\<close>

lemma client_offered: "effectiveClient vk client \<in> set (clientKinds vk)"
  by (simp add: effectiveClient_def clientKinds_def allClients_def)

section \<open>Properties\<close>

text \<open>
  With the Separate servers shape the Copy this key now dialog lists the URL of every endpoint of
  the key exactly as often as the key has it, under the MCP or the HTTP API heading.
\<close>

theorem every_door_listed_once:
  assumes "kp_secret s = Some vk" "effectiveMode vk (kp_mode s) = PerServer"
  shows "\<exists>d. secretDialog s = Some d \<and> mset (listedUrls d) = mset (map ep_url (vk_endpoints vk))"
proof -
  have "mcpDoorShown vk" using assms(2) split_shows_door [of vk] by (auto simp: effectiveMode_def split: if_splits)
  moreover obtain d where "secretDialog s = Some d" using assms(1) by (auto simp: secretDialog_def)
  ultimately show ?thesis using separate_lists_every_door [OF assms(1) _ assms(2)] by blast
qed

theorem every_door_listed_once_witness:
  "\<exists>(s :: kp_state) d. secretDialog s = Some d \<and> length (listedUrls d) = 2"
proof -
  let ?e = "\<lambda>i. \<lparr>ep_upstream_id = i, ep_slug = i, ep_name = i, ep_kind = js ''mcp'', ep_url = js ''https://'' @ i\<rparr> :: endpoint"
  let ?vk = "(\<lparr>vk_id = js ''1'', vk_name = js ''k'', vk_key_prefix = [], vk_target_type = js ''group'', vk_target_id = js ''1'', vk_rate_limit = Some 60, vk_expires_at = None, vk_status = js ''active'', vk_last_used_at = None, vk_created_at = [], vk_api_key = None, vk_proxy_url = None, vk_tool_allowlist = None, vk_tool_denylist = None, vk_lists_malformed = False, vk_http_methods = None, vk_http_methods_malformed = False, vk_endpoints = []\<rparr>)\<lparr>vk_endpoints := [?e (js ''a''), ?e (js ''b'')], vk_proxy_url := Some (js ''https://p'')\<rparr>"
  let ?s = "kpBlank\<lparr>kp_secret := Some ?vk, kp_mode := PerServer\<rparr>"
  have "effectiveMode ?vk (kp_mode ?s) = PerServer" by (simp add: effectiveMode_def splitAvailable_def mcpEndpoints_def)
  from every_door_listed_once [OF _ this] obtain d where d: "secretDialog ?s = Some d" "mset (listedUrls d) = mset (map ep_url (vk_endpoints ?vk))" by auto
  then have "length (listedUrls d) = 2" using mset_eq_length [OF d(2)] by simp
  with d(1) show ?thesis by blast
qed

end
