(* ===== verification/Screens.thy ===== *)
theory Screens
  imports Tab Kit GroupsView KeysView
begin

text \<open>
  What a tab shows: the shell of \<open>app/application-layout.tsx\<close> around a page, the login page, Settings, and
  the frame each page component returns: its heading, the button beside it, the lines under it, the columns
  of its table and the dialogs and alerts that are open over it.

  The bodies of the tables and dialogs are the values of \<open>UpstreamView\<close>, \<open>GroupsView\<close>, \<open>KeysView\<close>,
  \<open>PolicyDialog\<close>, \<open>LogRows\<close> and \<open>Overview\<close>. The lemmas show that the sidebar marks exactly the page on
  screen, that every link drawn leads to a page, that every dialog and alert has an enabled way out, that
  a red button is drawn only in an alert, and that every colour named is one the kit has.
\<close>

section \<open>Frames\<close>

record action_button =
  ab_label :: jstr
  ab_variant :: variant
  ab_disabled :: bool

definition actionButton :: "jstr \<Rightarrow> variant \<Rightarrow> bool \<Rightarrow> action_button" where
  "actionButton name v disabled = \<lparr>ab_label = name, ab_variant = v, ab_disabled = disabled\<rparr>"

abbreviation "CYAN \<equiv> Coloured (js ''cyan'')"
abbreviation "RED \<equiv> Coloured (js ''red'')"

datatype layer_kind = DialogLayer "jstr option" | AlertLayer

record layer =
  ly_kind :: layer_kind
  ly_title :: jstr
  ly_description :: "jstr option"
  ly_actions :: "action_button list"

text \<open>A line under the heading: its text, and whether it is announced (\<open>role="alert"\<close>). A section: its subheading and the
  fixed text under it.\<close>

record screen =
  sc_heading :: jstr
  sc_lead :: jstr
  sc_button :: "action_button option"
  sc_lines :: "(jstr \<times> bool) list"
  sc_columns :: "jstr list"
  sc_sections :: "(jstr \<times> jstr option) list"
  sc_layers :: "layer list"

definition lineIf :: "bool \<Rightarrow> jstr \<Rightarrow> (jstr \<times> bool) list" where
  "lineIf announced text = (if text \<noteq> [] then [(text, announced)] else [])"

text \<open>An alert of the pages: Cancel, then the action in red.\<close>

definition alertLayer :: "alert_view \<Rightarrow> layer" where
  "alertLayer a = \<lparr>ly_kind = AlertLayer, ly_title = av_title a, ly_description = Some (av_text a),
     ly_actions = [actionButton (js ''Cancel'') Plain False, actionButton (bt_label (av_confirm a)) RED (bt_disabled (av_confirm a))]\<rparr>"

definition formLayer :: "jstr option \<Rightarrow> jstr \<Rightarrow> jstr option \<Rightarrow> button_view \<Rightarrow> layer" where
  "formLayer width title description submit = \<lparr>ly_kind = DialogLayer width, ly_title = title, ly_description = description,
     ly_actions = [actionButton (js ''Cancel'') Plain False, actionButton (bt_label submit) CYAN (bt_disabled submit)]\<rparr>"

section \<open>Upstreams\<close>

definition upstreamColumns :: "jstr list" where
  "upstreamColumns = [js ''Name'', js ''Slug'', js ''URL'', js ''Kind'', js ''Auth'', js ''Status'', js ''Actions'']"

text \<open>The foot of the Add dialog. \<open>report\<close> is the answer the page holds, with the members only the panel reads.\<close>

definition draftSection :: "url_parser \<Rightarrow> discovery_report option \<Rightarrow> bool \<Rightarrow> (jstr \<times> bool) option \<Rightarrow> up_state \<Rightarrow> (button_view \<times> jstr \<times> panel_view option) option" where
  "draftSection URL report expanded copied s =
     (if up_editing s = None
      then Some (discoverButton URL s, discoverCaption (up_form s),
        discoveryPanel URL (draftProps (up_form s)) report (ds_pending (up_formDiscovery s)) (ds_error (up_formDiscovery s)) expanded copied)
      else None)"

definition toolsLayer :: "up_state \<Rightarrow> layer list" where
  "toolsLayer s = (case up_tools s of
     None \<Rightarrow> []
   | Some u \<Rightarrow> [\<lparr>ly_kind = DialogLayer (Some (js ''2xl'')), ly_title = toolsLabel (u_kind u), ly_description = Some (u_name u),
       ly_actions = [actionButton (js ''Close'') Plain False, actionButton (bt_label (refreshButton s)) CYAN (bt_disabled (refreshButton s))]\<rparr>])"

definition toolsPanel :: "url_parser \<Rightarrow> discovery_report option \<Rightarrow> bool \<Rightarrow> (jstr \<times> bool) option \<Rightarrow> up_state \<Rightarrow> panel_view option" where
  "toolsPanel URL report expanded copied s =
     Option.bind (up_tools s) (\<lambda>u. discoveryPanel URL (savedProps u) report (ds_pending (up_rowDiscovery s)) (ds_error (up_rowDiscovery s)) expanded copied)"

definition upstreamsScreen :: "up_state \<Rightarrow> screen" where
  "upstreamsScreen s =
     \<lparr>sc_heading = js ''Upstreams'', sc_lead = js ''Real MCP servers and HTTP APIs. Credentials are encrypted at rest and never shown again.'',
      sc_button = Some (actionButton (js ''Add upstream'') CYAN False),
      sc_lines = lineIf False (up_error s) @ lineIf True (up_connectError s),
      sc_columns = (if length (up_items s) = 0 then [] else upstreamColumns), sc_sections = [],
      sc_layers = (if up_open s then [formLayer None (dialogTitle s) (dialogDescription s) (submitButton s)] else []) @ toolsLayer s @
        (if up_pendingRevoke s \<noteq> None then [alertLayer (revokeAlert s)] else []) @
        (if up_pendingDelete s \<noteq> None then [alertLayer (deleteAlert s)] else [])\<rparr>"

section \<open>Groups\<close>

definition groupColumns :: "jstr list" where
  "groupColumns = [js ''Name'', js ''Upstreams'', js ''Actions'']"

text \<open>The two questions are nested in the dialog and drawn over it.\<close>

definition groupsScreen :: "group_dialog \<Rightarrow> gp_state \<Rightarrow> screen" where
  "groupsScreen d s =
     \<lparr>sc_heading = js ''Groups'', sc_lead = js ''A group combines several upstreams so one virtual key can reach all of them.'',
      sc_button = Some (actionButton (js ''Create group'') CYAN False), sc_lines = lineIf False (gp_error s),
      sc_columns = (if length (gp_groups s) = 0 then [] else groupColumns), sc_sections = [],
      sc_layers = (if gp_open s then formLayer (Some (js ''2xl'')) (gd_title d) None (gd_submit d) #
          (if gp_confirmEmpty s then [alertLayer (emptyAlert s)] else []) @ (if gp_confirmBlocks s then [alertLayer (blocksAlert s)] else []) else []) @
        (if gp_pendingDelete s \<noteq> None then [alertLayer (deleteAlertG s)] else [])\<rparr>"

section \<open>Virtual keys\<close>

definition keyColumns :: "jstr list" where
  "keyColumns = [js ''Name'', js ''Key'', js ''Endpoint'', js ''Target'', js ''Status'', js ''Last used'', js ''Actions'']"

definition policyLayer :: "kp_state \<Rightarrow> layer list" where
  "policyLayer s = (case kp_policyKey s of
     None \<Rightarrow> []
   | Some vk \<Rightarrow> [\<lparr>ly_kind = DialogLayer (Some (js ''2xl'')), ly_title = js ''Policy'', ly_description = Some (vk_name vk),
       ly_actions = [actionButton (js ''Close'') Plain False]\<rparr>])"

definition secretLayer :: "kp_state \<Rightarrow> layer list" where
  "secretLayer s = (case secretDialog s of
     None \<Rightarrow> []
   | Some d \<Rightarrow> [\<lparr>ly_kind = DialogLayer (Some (js ''2xl'')), ly_title = js ''Copy this key now'',
       ly_description = Some (js ''The plaintext key is shown only once. It authenticates every endpoint below.''),
       ly_actions = [actionButton (js ''Done'') Plain False, actionButton (bt_label (sd_copy d)) CYAN (bt_disabled (sd_copy d))]\<rparr>])"

definition keysScreen :: "key_dialog \<Rightarrow> kp_state \<Rightarrow> screen" where
  "keysScreen d s =
     \<lparr>sc_heading = js ''Virtual keys'', sc_lead = js ''One identity per client: its own key, target, limits and audit trail. The key is shown once.'',
      sc_button = Some (actionButton (js ''Create virtual key'') CYAN False), sc_lines = lineIf False (kp_error s),
      sc_columns = (if length (kp_keys s) = 0 then [] else keyColumns), sc_sections = [],
      sc_layers = policyLayer s @ (if kp_open s then [formLayer (Some (js ''2xl'')) (kd_title d) (kd_description d) (kd_submit d)] else []) @
        secretLayer s @ (if kp_pendingDelete s \<noteq> None then [alertLayer (deleteAlertK s)] else [])\<rparr>"

section \<open>Logs, Overview, Settings\<close>

definition logColumns :: "jstr list" where
  "logColumns = [js ''Time'', js ''Virtual key'', js ''Method'', js ''Tool'', js ''Status'', js ''Latency'']"

definition logLayer :: "lp_state \<Rightarrow> layer list" where
  "logLayer s = (if lp_selected s \<noteq> None then [\<lparr>ly_kind = DialogLayer (Some (js ''2xl'')), ly_title = js ''Log detail'', ly_description = None,
     ly_actions = [actionButton (js ''Close'') Plain False]\<rparr>] else [])"

definition LOGS_TEXT :: jstr where
  "LOGS_TEXT = js ''Every proxied MCP method and HTTP API request is recorded. Secrets in params and credential-shaped text in error messages are redacted. HTTP API request bodies are not recorded.''"

definition logsScreen :: "lp_state \<Rightarrow> screen" where
  "logsScreen s =
     \<lparr>sc_heading = js ''Logs'', sc_lead = js ''Proxy calls and admin changes.'', sc_button = None, sc_lines = lineIf True (pageError s),
      sc_columns = (if length (pg_rows (cp_pages (lp_pages s))) = 0 then [] else logColumns), sc_sections = [(js ''Proxy calls'', Some LOGS_TEXT), (js ''Admin activity'', None)],
      sc_layers = logLayer s\<rparr>"

definition recentColumns :: "jstr list" where
  "recentColumns = [js ''Time'', js ''Virtual key'', js ''Method'', js ''Status'', js ''Latency'']"

definition overviewScreen :: "ov_state \<Rightarrow> screen" where
  "overviewScreen s =
     \<lparr>sc_heading = js ''Overview'', sc_lead = js ''This page summarises your virtual keys, upstream connections and recent proxy activity.'', sc_button = None,
      sc_lines = lineIf True (ov_error s), sc_columns = (if length (ov_logs s) = 0 then [] else recentColumns), sc_sections = [(js ''Recent activity'', None)],
      sc_layers = []\<rparr>"

text \<open>A recent call is a row that leads to the logs.\<close>

definition recentLink :: "audit_log \<Rightarrow> linked_row" where
  "recentLink l = TableRow (Some (js ''/logs/'')) (length recentColumns)"

record settings_view =
  sv_current :: jstr
  sv_box :: "jstr \<times> jstr"
  sv_buttons :: "action_button list"

definition settingsView :: "se_state \<Rightarrow> settings_view" where
  "settingsView s =
     \<lparr>sv_current = js ''Current session key: '' @ keyPrefix (storedKey_of s), sv_box = (js ''admin_key'', se_replace s),
      sv_buttons = [actionButton (js ''Update'') CYAN False, actionButton (js ''Sign out'') Outline False]\<rparr>"

definition settingsScreen :: screen where
  "settingsScreen = \<lparr>sc_heading = js ''Settings'', sc_lead = js ''The dashboard talks to the management API with the admin key stored in this browser session.'',
     sc_button = None, sc_lines = [], sc_columns = [],
     sc_sections = [(js ''Admin key'', None), (js ''Retention'',
       Some (js ''Audit logs stay in the configured database until you delete them. SQLite lives on the data volume; set DATABASE_URL to use Postgres.''))], sc_layers = []\<rparr>"

record login_view =
  lv_heading :: jstr
  lv_text :: jstr
  lv_box :: "jstr \<times> jstr \<times> bool"
  lv_error :: "jstr option"
  lv_button :: action_button

definition loginView :: "se_state \<Rightarrow> login_view" where
  "loginView s =
     \<lparr>lv_heading = js ''Sign in to PoryMCP'', lv_text = js ''Use the management API key from ADMIN_API_KEY. It never leaves this browser session.'',
      lv_box = (js ''admin_key'', se_key s, True), lv_error = shownIf (se_error s),
      lv_button = actionButton (fst (loginButton s)) CYAN (snd (loginButton s))\<rparr>"

section \<open>The shell\<close>

record shell_view =
  sl_navbar :: "(kit_item \<times> jstr) list"
  sl_header :: "(kit_item \<times> jstr) list"
  sl_sections :: "(kit_item \<times> jstr) list"
  sl_account :: "kit_item menu_entry list"

definition applicationLayout :: "jstr \<Rightarrow> shell_view" where
  "applicationLayout pathname =
     \<lparr>sl_navbar = [(NavbarItem (Some (js ''/settings/'')), js ''Settings'')],
      sl_header = [(SidebarItem (Some (js ''/'')) False, js ''Homepage'')],
      sl_sections = map (\<lambda>(href, name, cur). (SidebarItem (Some href) cur, name)) (sidebarItems pathname),
      sl_account = [MenuItem (js ''Settings'') (DropdownItem (Some (js ''/settings/'')) False) False, MenuDivider,
        MenuItem (js ''Sign out'') (DropdownItem None False) False]\<rparr>"

definition addressOf :: "kit_item \<Rightarrow> jstr list" where
  "addressOf it = (case ki_element it of LinkEl h \<Rightarrow> [h] | ButtonEl \<Rightarrow> [])"

definition shellLinks :: "shell_view \<Rightarrow> jstr list" where
  "shellLinks v = concat (map (\<lambda>(it, _). addressOf it) (sl_navbar v @ sl_header v @ sl_sections v)) @
     concat (map (\<lambda>e. case e of MenuItem l it d \<Rightarrow> addressOf it | MenuDivider \<Rightarrow> []) (sl_account v))"

text \<open>The links a page draws itself: the recent calls of the Overview.\<close>

fun pageLinks :: "page \<Rightarrow> jstr list" where
  "pageLinks (OverviewP s) = concat (map (\<lambda>l. concat (map (\<lambda>i. case TableCell (recentLink l) i of Some (h, t) \<Rightarrow> [h] | None \<Rightarrow> []) [0..<length recentColumns])) (ov_logs s))"
| "pageLinks _ = []"

text \<open>\<open>gd\<close> and \<open>kd\<close> draw the Groups and the Virtual keys dialog from the state of their page.\<close>

fun pageScreen :: "(gp_state \<Rightarrow> group_dialog) \<Rightarrow> (kp_state \<Rightarrow> key_dialog) \<Rightarrow> page \<Rightarrow> screen" where
  "pageScreen gd kd (OverviewP s) = overviewScreen s"
| "pageScreen gd kd (UpstreamsP s n) = upstreamsScreen s"
| "pageScreen gd kd (GroupsP s) = groupsScreen (gd s) s"
| "pageScreen gd kd (KeysP s) = keysScreen (kd s) s"
| "pageScreen gd kd (LogsP s a) = logsScreen s"
| "pageScreen gd kd SettingsP = settingsScreen"

datatype tab_view = LoginView login_view | PageView shell_view screen

definition tabView :: "(gp_state \<Rightarrow> group_dialog) \<Rightarrow> (kp_state \<Rightarrow> key_dialog) \<Rightarrow> tab_state \<Rightarrow> tab_view" where
  "tabView gd kd t = (case tb_page t of
     None \<Rightarrow> LoginView (loginView (tb_session t))
   | Some p \<Rightarrow> PageView (applicationLayout (se_path (tb_session t))) (pageScreen gd kd p))"

section \<open>Laws\<close>

lemma sections_marked:
  "filter (ki_current \<circ> fst) (sl_sections (applicationLayout (routeOf p))) = [(SidebarItem (Some (routeOf p)) True, sc_heading (pageScreen gd kd p))]"
proof -
  have "filter (ki_current \<circ> fst) (sl_sections (applicationLayout path)) =
      map (\<lambda>(href, name, cur). (SidebarItem (Some href) cur, name)) (filter (\<lambda>(_, _, cur). cur) (sidebarItems path))" for path
    by (simp add: applicationLayout_def filter_map comp_def case_prod_unfold SidebarItem_def)
  moreover have "map (\<lambda>path. filter (\<lambda>(_, _, cur). cur) (sidebarItems path)) (map fst (sidebarItems [])) = map (\<lambda>(h, n, _). [(h, n, True)]) (sidebarItems [])"
    by code_simp
  ultimately show ?thesis
    by (cases p) (simp_all add: sidebarItems_def overviewScreen_def upstreamsScreen_def groupsScreen_def keysScreen_def logsScreen_def settingsScreen_def startsWith_iff)
qed

lemma link_address [simp]: "addressOf (SidebarItem (Some h) c) = [h]" "addressOf (NavbarItem (Some h)) = [h]" "addressOf (DropdownItem (Some h) d) = [h]"
  "addressOf (DropdownItem None d) = []"
  by (simp_all add: addressOf_def SidebarItem_def NavbarItem_def DropdownItem_def elementOf_def)

lemma shell_links: "set (shellLinks (applicationLayout path)) = fst ` set (sidebarItems path)"
  by (auto simp: shellLinks_def applicationLayout_def sidebarItems_def)

lemma routes_mount: "h \<in> fst ` set (sidebarItems path) \<Longrightarrow> \<exists>q. mounts z h q"
  by (auto simp: sidebarItems_def intro: mounts.intros)

lemma page_links: "h \<in> set (pageLinks p) \<Longrightarrow> h = js ''/logs/''"
  by (cases p) (auto simp: TableCell_def recentLink_def TableRow_def rowLinked_def split: if_splits)

lemma layer_shapes:
  assumes "ly \<in> set (sc_layers (pageScreen gd kd p))"
  shows "\<exists>b bs. ly_actions ly = b # bs \<and> ab_variant b = Plain \<and> \<not> ab_disabled b \<and>
     (case ly_kind ly of AlertLayer \<Rightarrow> map ab_variant bs = [RED] | DialogLayer w \<Rightarrow> map ab_variant bs \<in> {[], [CYAN]} \<and> dialogWidth w \<noteq> None)"
  using assms
  by (cases p) (auto simp: overviewScreen_def upstreamsScreen_def groupsScreen_def keysScreen_def logsScreen_def settingsScreen_def toolsLayer_def policyLayer_def
      secretLayer_def logLayer_def formLayer_def alertLayer_def actionButton_def dialogWidth_def widths_def split: if_splits option.splits)

lemma colours_known: "badgeTone (Some (callColour st)) \<noteq> None" "badgeTone (Some (statusColour st)) \<noteq> None" "badgeColour b \<noteq> None \<Longrightarrow> badgeTone (badgeColour b) \<noteq> None"
  by (auto simp: badgeTone_def tones_def callColour_def statusColour_def badgeColour_def BADGE_TONE_def split: mark_badge.splits)

section \<open>Properties\<close>

text \<open>
  In a reachable tab with a page on screen, the sidebar marks one entry as current, the one with
  the address of that page and the name of its heading, and every link drawn by the shell or by the
  page leads to a route that mounts a page.
\<close>

theorem navigation_marks_and_leads:
  assumes "tab_reach base URL z decNum t" "tb_page t = Some p"
  shows "filter (ki_current \<circ> fst) (sl_sections (applicationLayout (se_path (tb_session t)))) =
       [(SidebarItem (Some (routeOf p)) True, sc_heading (pageScreen gd kd p))] \<and>
     (\<forall>h \<in> set (shellLinks (applicationLayout (se_path (tb_session t)))) \<union> set (pageLinks p). \<exists>q. mounts z h q)"
proof -
  have "se_path (tb_session t) = routeOf p" using tab_okD(4) [OF tab_reach_ok [OF assms(1)] assms(2)] by simp
  moreover have "\<exists>q. mounts z h q" if "h \<in> set (shellLinks (applicationLayout (routeOf p))) \<union> set (pageLinks p)" for h
    using that routes_mount [of h "routeOf p" z] page_links [of h p] mounts.m_logs [of z] unfolding shell_links by blast
  ultimately show ?thesis using sections_marked [of p gd kd] by simp
qed

theorem navigation_marks_and_leads_witness:
  "\<exists>t :: tab_state. map snd (filter (ki_current \<circ> fst) (sl_sections (applicationLayout (se_path (tb_session t))))) = [js ''Upstreams'']"
proof -
  have "filter (ki_current \<circ> fst) (sl_sections (applicationLayout (se_path (tb_session toolsTab)))) =
      [(SidebarItem (Some (routeOf (UpstreamsP askedUp 0))) True, sc_heading (pageScreen (groupDialog id [] []) (keyDialog id AllowlistField [] []) (UpstreamsP askedUp 0)))]"
    using navigation_marks_and_leads [OF runs_reach(2) toolsTab_page(2)] by blast
  then show ?thesis by (intro exI [of _ toolsTab]) (simp add: upstreamsScreen_def)
qed

text \<open>
  Every dialog and alert a page draws offers first an enabled plain button, its way out; an alert
  then has one red button, a dialog one cyan button or none, and a width the kit has.
\<close>

theorem every_layer_has_a_way_out:
  assumes "ly \<in> set (sc_layers (pageScreen gd kd p))"
  shows "\<exists>b bs. ly_actions ly = b # bs \<and> ab_variant b = Plain \<and> \<not> ab_disabled b \<and>
     (case ly_kind ly of AlertLayer \<Rightarrow> map ab_variant bs = [RED] | DialogLayer w \<Rightarrow> map ab_variant bs \<in> {[], [CYAN]} \<and> dialogWidth w \<noteq> None)"
  using assms by (rule layer_shapes)

theorem every_layer_has_a_way_out_witness:
  "\<exists>b bs. ly_actions (alertLayer (deleteAlert (listedUp\<lparr>up_pendingDelete := Some opsServer\<rparr>))) = b # bs \<and> \<not> ab_disabled b \<and> map ab_variant bs = [RED]"
proof -
  let ?ly = "alertLayer (deleteAlert (listedUp\<lparr>up_pendingDelete := Some opsServer\<rparr>))"
  have "?ly \<in> set (sc_layers (pageScreen (groupDialog id [] []) (keyDialog id AllowlistField [] []) (UpstreamsP (listedUp\<lparr>up_pendingDelete := Some opsServer\<rparr>) 0)))"
    by (simp add: upstreamsScreen_def)
  from every_layer_has_a_way_out [OF this] show ?thesis by (auto simp: alertLayer_def)
qed

end
