(* ===== verification/Spec2Isabelle.thy ===== *)
theory Spec2Isabelle
  imports Screens
begin

text \<open>
  A verification of the dashboard of PoryMCP, the code under \<open>src/web/src\<close>.

  PoryMCP is a proxy in front of MCP servers and HTTP APIs, the upstreams. An operator groups
  upstreams, issues virtual keys for an upstream or a group, and writes rules about which tools a
  key may call: a key's allow and deny list and a group's tool filter. The Go server enforces the
  rules; the dashboard, written in TypeScript, edits them, previews what they do, discovers tools
  and shows logs. Its logic is in \<open>lib/\<close>: pure rules, two hooks and a catalogue hook that keep
  state, and in the pages and components of \<open>app/\<close> that compose them. The development models that logic from the source.

  \<^bold>\<open>What the theories hold\<close>

  \<^item> \<open>Prelude\<close>, \<open>Json\<close>, \<open>SearchParams\<close>: the parts of JavaScript the code uses. Strings are lists of
    16-bit units (\<open>jstr\<close>); \<open>trim\<close>, \<open>indexOf\<close>, \<open>toLowerCase\<close>, iteration by code point; JSON values,
    \<open>JSON.stringify\<close> and own-key order; \<open>URLSearchParams\<close> with UTF-8 and form encoding. Texts that
    hold no lone surrogate survive a query string (\<open>spParse_spString\<close>).
  \<^item> \<open>Api\<close>: \<open>api.ts\<close>, \<open>discovery.ts\<close>, \<open>edit-error.ts\<close>. The request \<open>api\<close> composes, the reading of
    the response as a value or an \<open>ApiError\<close>, and the sentences; the locale \<open>sentence_mapper\<close> is
    what every mapper of a failure promises.
  \<^item> \<open>ToolEntry\<close>, \<open>ToolFilter\<close>, \<open>RuleConflicts\<close>: \<open>tool-entry.ts\<close>, \<open>tool-filter.ts\<close>,
    \<open>rule-conflicts.ts\<close>, and the decision \<open>blockedBy\<close> of \<open>internal/proxy/policy.go\<close> on a resolved tool
    identity, which the dashboard's verdicts are compared with. Locale \<open>entry_matcher\<close>: a list of
    rules and what it names.
  \<^item> \<open>Slug\<close>: \<open>slug.ts\<close>, \<open>plural.ts\<close>. A derived slug is valid or empty, whatever case table the browser
    has (locale \<open>case_table\<close>).
  \<^item> \<open>Catalogue\<close>, \<open>DiscoverMany\<close>, \<open>UseCatalogue\<close>: \<open>catalogue.ts\<close>, \<open>discover-many.ts\<close>,
    \<open>use-catalogue.ts\<close>. A press of Load tools is a set of workers over a shared counter; each runs to
    its next \<open>await\<close>, and the environment chooses which answer arrives next and when the dialog is
    closed or reopened. Every press ends, at most two discoveries run, and late answers are not shown.
  \<^item> \<open>PatchForm\<close>, \<open>UpstreamForm\<close>, \<open>GroupForm\<close>, \<open>KeyForm\<close>: the three edit dialogs, \<open>upstream-form.ts\<close>,
    \<open>group-form.ts\<close>, \<open>virtual-key-form.ts\<close>, with the \<open>required\<close> and \<open>pattern\<close> attributes of the upstream
    dialog. Locale \<open>patch_form\<close>: a form seeded from a row and saved untouched sends nothing, and a
    PATCH names known fields, each once. Locale \<open>comparison\<close> (in \<open>Prelude\<close>): a test that agrees with
    equality of meaning, for filters, entry lists and stored policies.
  \<^item> \<open>UpstreamAuth\<close>, \<open>PolicyView\<close>, \<open>RowMenus\<close>, \<open>Clients\<close>, \<open>AdminEvents\<close>: \<open>upstream-auth.ts\<close>,
    \<open>upstream-test.ts\<close>, \<open>upstream-transport.ts\<close>, \<open>placeholder.ts\<close>, \<open>policy-view.ts\<close>, \<open>row-actions.ts\<close>,
    \<open>oauth-connect.ts\<close>, \<open>clients.ts\<close>, \<open>admin-event.ts\<close>: what the tables, dialogs and snippets show.
  \<^item> \<open>CursorPages\<close>, \<open>LogsView\<close>, \<open>FacetHook\<close>: \<open>cursor-pages.ts\<close>, \<open>use-cursor-pages.ts\<close>, \<open>logs-view.ts\<close>,
    \<open>use-log-facets.ts\<close>. Both hooks are state machines over their refs, states and the requests in
    flight; a request carries the generation it was sent in.
  \<^item> \<open>ToolPicker\<close>, \<open>RuleFields\<close>: \<open>app/tool-picker.tsx\<close>, \<open>tool-entries.tsx\<close>, \<open>tool-filter-fields.tsx\<close>,
    \<open>tool-list-fields.tsx\<close>, \<open>group-form.tsx\<close>, \<open>http-methods-fields.tsx\<close>. A component is the value it draws
    (\<open>pickerRow\<close>, \<open>memberBlock\<close>, \<open>toolFilterFields\<close>, \<open>toolListFields\<close>) and its controls are edits of the two
    forms (\<open>groupEdit\<close>, \<open>keyEdit\<close>). Ticks are the rule: for the group the filter's verdict, for a key,
    together with the notes, the proxy's.
  \<^item> \<open>UpstreamsPage\<close>, \<open>GroupsPage\<close>, \<open>KeysPage\<close>: the state and the handlers of \<open>upstreams/page.tsx\<close>,
    \<open>groups/page.tsx\<close> and \<open>virtual-keys/page.tsx\<close> under \<open>app/(app)\<close>. A handler runs to its first \<open>await\<close> and
    leaves a task; tasks settle in any order. \<open>PageTasks\<close> has what the machines share: tasks, requests
    sent, one request per opening of a dialog. Locale \<open>dialog_page\<close> (\<open>DialogPage\<close>): what \<open>opened\<close>, \<open>close\<close> and
    \<open>failed\<close> promise on each of the three. \<open>PageHook\<close>: the catalogue hook as the two rule pages own it.
  \<^item> \<open>ConnectDialog\<close>: the Endpoint column and the Copy this key now dialog of \<open>virtual-keys/page.tsx\<close>, over
    \<open>Clients\<close>.
  \<^item> \<open>LogsPage\<close>: \<open>logs/page.tsx\<close>, \<open>load-more.tsx\<close> and the query of \<open>admin-events.tsx\<close>: the controls over
    \<open>CursorPages\<close> and \<open>FacetHook\<close>, driven through the hooks' own steps.
  \<^item> \<open>Views\<close>: \<open>app/row-actions.tsx\<close> and the shapes the drawn values share. Locale \<open>row_menu\<close>: what a page promises
    of the menus it binds, interpreted for the three tables.
  \<^item> \<open>DiscoveryPanel\<close>, \<open>PolicyDialog\<close>, \<open>UpstreamView\<close>, \<open>GroupsView\<close>, \<open>KeysView\<close>, \<open>LogRows\<close>: \<open>app/discovery-panel.tsx\<close>,
    \<open>policy-dialog.tsx\<close>, \<open>upstream-form.tsx\<close>, \<open>admin-events.tsx\<close>, \<open>load-more.tsx\<close> and the tables, dialogs and alerts of the
    pages, as the values they draw over a page's state: the panel with its Copy machine, the Policy blocks
    and what their counts add up to, the upstream dialog as boxes, selects and ticks with the edits they
    make, the doors of a key, the log rows, and Admin activity with its own paging.
  \<^item> \<open>Session\<close>: \<open>login/page.tsx\<close>, \<open>(app)/layout.tsx\<close>, \<open>settings/page.tsx\<close>, \<open>application-layout.tsx\<close>, \<open>use-admin-key.ts\<close>:
    session storage, the gate before the dashboard, sign-in and sign-out as one machine.
  \<^item> \<open>Overview\<close>: \<open>(app)/page.tsx\<close> and \<open>stat.tsx\<close>: two requests under \<open>Promise.all\<close>, the cards and the notice.
  \<^item> \<open>Tab\<close>: the machines composed, one browser tab: \<open>Session\<close>, the page on screen and the pages left behind, whose requests
    still answer. Locale \<open>recording_page\<close>: what a tab relies on of a page, a step relation that keeps its reachable states and
    logs of requests that only grow; interpreted for every page. A tab refines its parts, so what is proved of a page holds in
    the tab, and the requests a server gets are the ones the pages recorded.
  \<^item> \<open>Kit\<close>: \<open>web/src/components\<close>: the choices of the wrappers (looks, tones, widths, link or button), the tab stops of a linked
    row, the disclosure and the drawer.
  \<^item> \<open>Screens\<close>: \<open>application-layout.tsx\<close> and the frame every page returns, over \<open>Tab\<close> and \<open>Kit\<close>: the sidebar, headings, lines,
    columns, dialogs and alerts that are open, and the links drawn.

  \<^bold>\<open>Conventions\<close>

  A definition has the name of the function it models where Isabelle allows it; handlers of a page
  carry a suffix (\<open>saveUp\<close> for \<open>save\<close>). Records have a short prefix per type. A failure is a value,
  \<open>Inl (ApiErr e)\<close> for an answer of the server, \<open>Inl (OtherErr t)\<close> for everything else. Functions of
  the platform whose result the source takes as given are arguments: \<open>Date.parse\<close>, the local time
  zone, \<open>URL\<close>, \<open>JSON.parse\<close>, \<open>Number\<close> on texts that are no integer. No definition uses fuel: loops
  recurse on lists or have a termination proof (\<open>freeKey\<close>, \<open>collapse\<close>), and hooks are step relations.
  Ghost fields (\<open>cp_trace\<close>, \<open>fh_sent\<close>, \<open>up_asked\<close>, \<open>up_sent\<close>, \<open>up_visited\<close>, \<open>gp_sent\<close>, \<open>gp_log\<close>, \<open>kp_sent\<close>,
  \<open>kp_policyOf\<close>, \<open>kp_marks\<close>, \<open>cs_last\<close>, \<open>rd_served\<close>, \<open>se_sent\<close>, \<open>se_typed\<close>, \<open>se_blank\<close>, \<open>uc_asked\<close>, \<open>cp_sent\<close>, \<open>fh_log\<close>,
  \<open>tb_gone\<close>, \<open>tb_checks\<close>, \<open>dw_openedAt\<close>, \<open>ad_given\<close>) record history and are read by no operation. The guards of a page's steps are
  those of its controls; where a control is behind a modal dialog the steps may be wider, never narrower.

  \<^bold>\<open>What the properties show\<close>

  Rules: an entry is written and split back, matches one tool, and is accepted exactly when the API
  accepts it; a filter read and sent back is the same filter; what the dialogs say and tick is what
  the proxy does. Pages: a filter or a list is overwritten only right after a fresh read that means
  what the dialog showed; a group is emptied and a blocking filter saved only on the answer to that
  question; what is sent reads back; a policy belongs to its key; failures are told in one place; one
  request per dialog; the hooks are driven through their own steps. Discovery: bounded, in order,
  ending, complete, and silent after a 429. Dialogs: untouched saves send nothing, credentials are
  whole, unsent fields keep their meaning. Logs: the rows shown are the pages of the query on screen,
  requests carry exactly the filters, one facet request per query. Session: no
  dashboard without a stored key, and no key on a request but one that was typed. Tab: the session and
  the pages stay in states of their own machines, the server is asked exactly what the pages and the login
  check asked, and a request that leaves while no key is stored carries no authorisation. What is drawn: the
  counts of the Policy dialog add up, the boxes of the upstream dialog ask what a submit needs, menus are
  steps of their page and Delete asks first.

  \<^bold>\<open>Not modelled\<close>

  The Go server apart from the policy decision: another language, to be verified beside its own code.
  React's scheduler (a handler and the render after it are one step) and the router (a navigation
  happens with the step that asks for it); focus, help texts and fixed styles; the wrappers under \<open>components/\<close>
  that make no choice (\<open>input.tsx\<close>, \<open>fieldset.tsx\<close>, \<open>text.tsx\<close> and the like); the document shell, which is constant
  markup; browser tests and build files.
\<close>

section \<open>Properties\<close>




text \<open>
  Claim C21: on the Groups and Virtual keys pages each opening of the dialog has at most one create
  or save under way, the fresh read before a write counted with it, in every reachable state.
\<close>

theorem one_request_per_dialog:
  assumes "gp_reach g" "kp_reach decNum k"
  shows "length (filter (\<lambda>t. taskSeq t = Some mine) (gp_tasks g)) \<le> 1 \<and> length (filter (\<lambda>t. taskSeqK t = Some mine) (kp_tasks k)) \<le> 1"
  using save_reach [OF assms(1)] busyK_reach [OF assms(2)] unfolding save_inv_def busy_inv_def by (blast intro: busy_one)

theorem one_request_per_dialog_witness:
  "length (filter (\<lambda>t. taskSeq t = Some 1) (gp_tasks clearedRun)) = 1 \<and>
   length (filter (\<lambda>t. taskSeqK t = Some 1) (kp_tasks (replacedRun (\<lambda>_. NonFinite)))) \<le> 1"
proof -
  have "length (filter (\<lambda>t. taskSeq t = Some 1) (gp_tasks clearedRun)) \<noteq> 0" by code_simp
  with one_request_per_dialog [OF clearedRun_reach replacedRun_reach [of "\<lambda>_. NonFinite"], of 1] show ?thesis by linarith
qed

text \<open>
  Claim C23: in every reachable state of the Groups and of the Virtual keys page the catalogue hook
  is in a state its own steps reach, keyed by the page: one press of the dialog on screen at most,
  two discoveries at most, and no press ever aimed at an HTTP API.
\<close>

theorem pages_drive_the_hook:
  assumes "gp_reach g" "kp_reach decNum k"
  shows "\<forall>(key, c) \<in> {(gp_openCount g, gp_hook g), (kp_catalogueKey k, kp_hook k)}.
     uc_reach c \<and> uc_current c = key \<and> length (liveRuns c) \<le> 1 \<and> inFlight c \<le> PICKER_IN_FLIGHT \<and>
     (\<forall>r \<in> set (uc_runs c). \<forall>m \<in> set (run_targets r). m_kind m \<noteq> js ''http'')"
proof -
  have "hook_ok (gp_openCount g) (gp_hook g)" "hook_ok (kp_catalogueKey k) (kp_hook k)"
    using hook_reach [OF assms(1)] hookK_reach [OF assms(2)] by (simp_all add: hook_inv_def)
  then show ?thesis using hook_ok_inFlight by (auto simp: hook_ok_def probesMcp_def)
qed

theorem pages_drive_the_hook_witness: "uc_reach (gp_hook loadedRun) \<and> length (uc_runs (gp_hook loadedRun)) = 1"
proof -
  have "length (uc_runs (gp_hook loadedRun)) = 1" by code_simp
  with pages_drive_the_hook [OF loadedRun_reach deniedRun_reach [of "\<lambda>_. NonFinite"]] show ?thesis by blast
qed



end
